(* ===== verification/Mb_Prelude.thy ===== *)
theory Mb_Prelude
  imports Main "HOL-Library.Word"
begin

text \<open>
  The prelude of the development: how C++ effects are written in HOL.

  A C++ function that may throw, abort or block and that mutates an object of type \<open>'s\<close> is a
  function \<open>'s \<Rightarrow> 'a result \<times> 's\<close>: the mutation made before a throw is kept, as it is in the
  program.  The exceptions of the sources are the datatype \<open>exn\<close>, each carrying the text its
  \<open>what()\<close> returns; everything else that ends a computation (a failed \<open>assert\<close>, undefined
  behaviour, a system call that never returns, the forced unwinding of a cancelled thread) is a
  constructor of \<open>fault\<close>.  The combinators \<open>bindM\<close> (sequencing), \<open>catchM\<close>
  (\<open>catch (std::exception&)\<close>), \<open>finallyM\<close> (a destructor that runs on every exit) and \<open>zoom\<close>
  (a method of a member object) are the only control structures the components use besides
  \<open>if\<close>, \<open>case\<close> and recursion.
\<close>

section \<open>Results, exceptions and faults\<close>

datatype exn =
    RuntimeError string
  | ErrnoException string int
  | FSMException string
  | LengthError string
  | OutOfRange string
  | InvalidArgument string
  | ProcException string
  | SyntaxException string nat

text \<open>What \<open>std::exception::what()\<close> returns.\<close>

fun what :: "exn \<Rightarrow> string" where
  "what (RuntimeError m) = m"
| "what (ErrnoException m e) = m"
| "what (FSMException m) = m"
| "what (LengthError m) = m"
| "what (OutOfRange m) = m"
| "what (InvalidArgument m) = m"
| "what (ProcException m) = m"
| "what (SyntaxException m i) = m"

datatype fault =
    Exn exn        \<comment> \<open>a C++ exception derived from \<open>std::exception\<close>\<close>
  | Assert         \<comment> \<open>a failed \<open>assert\<close>: the process aborts\<close>
  | Undefined      \<comment> \<open>undefined behaviour: an access outside an object\<close>
  | Block          \<comment> \<open>a system call that does not return within the script given to the model\<close>
  | Unwind         \<comment> \<open>\<open>abi::__forced_unwind\<close>: the thread was cancelled\<close>
  | Terminate      \<comment> \<open>\<open>std::terminate\<close>: an exception left a thread's start routine\<close>

type_synonym 'a result = "fault + 'a"
type_synonym ('s, 'a) prog = "'s \<Rightarrow> 'a result \<times> 's"

section \<open>Combinators\<close>

definition ret :: "'a \<Rightarrow> ('s, 'a) prog" where
  "ret x = (\<lambda>s. (Inr x, s))"

definition raise :: "fault \<Rightarrow> ('s, 'a) prog" where
  "raise e = (\<lambda>s. (Inl e, s))"

definition bindE :: "'a result \<Rightarrow> ('a \<Rightarrow> 'b result) \<Rightarrow> 'b result" where
  "bindE m f = (case m of Inl e \<Rightarrow> Inl e | Inr x \<Rightarrow> f x)"

definition bindM :: "('s, 'a) prog \<Rightarrow> ('a \<Rightarrow> ('s, 'b) prog) \<Rightarrow> ('s, 'b) prog" where
  "bindM m f = (\<lambda>s. case m s of (Inl e, t) \<Rightarrow> (Inl e, t) | (Inr x, t) \<Rightarrow> f x t)"

definition thenM :: "('s, 'a) prog \<Rightarrow> ('s, 'b) prog \<Rightarrow> ('s, 'b) prog" where
  "thenM m k = bindM m (\<lambda>_. k)"

definition liftE :: "'a result \<Rightarrow> ('s, 'a) prog" where
  "liftE r = (\<lambda>s. (r, s))"

definition getM :: "('s \<Rightarrow> 'a) \<Rightarrow> ('s, 'a) prog" where
  "getM f = (\<lambda>s. (Inr (f s), s))"

definition modifyM :: "('s \<Rightarrow> 's) \<Rightarrow> ('s, unit) prog" where
  "modifyM f = (\<lambda>s. (Inr (), f s))"

text \<open>\<open>try m catch (std::exception& e) { h e }\<close>: faults that are not exceptions pass through.\<close>

definition catchM :: "('s, 'a) prog \<Rightarrow> (exn \<Rightarrow> ('s, 'a) prog) \<Rightarrow> ('s, 'a) prog" where
  "catchM m h = (\<lambda>s. case m s of (Inl (Exn e), t) \<Rightarrow> h e t | r \<Rightarrow> r)"

text \<open>
  A destructor: \<open>d\<close> runs when the scope of \<open>m\<close> is left normally, by an exception or by forced
  unwinding.  An abort, undefined behaviour and a call that does not return run no destructor.
\<close>

fun unwinds :: "fault \<Rightarrow> bool" where
  "unwinds (Exn e) = True"
| "unwinds Unwind = True"
| "unwinds _ = False"

definition finallyM :: "('s, 'a) prog \<Rightarrow> ('s \<Rightarrow> 's) \<Rightarrow> ('s, 'a) prog" where
  "finallyM m d = (\<lambda>s. case m s of
      (Inl e, t) \<Rightarrow> (Inl e, if unwinds e then d t else t)
    | (Inr x, t) \<Rightarrow> (Inr x, d t))"

text \<open>Running a program of a member object inside the object that holds it.\<close>

definition zoom :: "('s \<Rightarrow> 'm) \<Rightarrow> ('m \<Rightarrow> 's \<Rightarrow> 's) \<Rightarrow> ('m, 'a) prog \<Rightarrow> ('s, 'a) prog" where
  "zoom get put m = (\<lambda>s. case m (get s) of (r, t) \<Rightarrow> (r, put t s))"

section \<open>Rules of the combinators\<close>

text \<open>
  The equations that evaluate a program whose steps are known.  They are collected in
  \<open>prog_eval\<close>; the component proofs add the equations of their own steps and simplify.
\<close>

named_theorems prog_eval "evaluation of programs built from the combinators"

lemma ret_apply [simp, prog_eval]: "ret x s = (Inr x, s)"
  by (simp add: ret_def)

lemma raise_apply [simp, prog_eval]: "raise e s = (Inl e, s)"
  by (simp add: raise_def)

lemma liftE_apply [simp, prog_eval]: "liftE r s = (r, s)"
  by (simp add: liftE_def)

lemma getM_apply [simp, prog_eval]: "getM f s = (Inr (f s), s)"
  by (simp add: getM_def)

lemma modifyM_apply [simp, prog_eval]: "modifyM f s = (Inr (), f s)"
  by (simp add: modifyM_def)

lemma bindE_simps [simp]:
  "bindE (Inl e) f = Inl e"
  "bindE (Inr x) f = f x"
  by (simp_all add: bindE_def)

lemma bindE_eq_Inr:
  "bindE m f = Inr y \<longleftrightarrow> (\<exists>x. m = Inr x \<and> f x = Inr y)"
  by (cases m) auto

lemma bindM_Inr [prog_eval]: "m s = (Inr x, t) \<Longrightarrow> bindM m f s = f x t"
  by (simp add: bindM_def)

lemma bindM_Inl [prog_eval]: "m s = (Inl e, t) \<Longrightarrow> bindM m f s = (Inl e, t)"
  by (simp add: bindM_def)

lemma thenM_Inr [prog_eval]: "m s = (Inr x, t) \<Longrightarrow> thenM m k s = k t"
  by (simp add: thenM_def bindM_Inr)

lemma thenM_Inl [prog_eval]: "m s = (Inl e, t) \<Longrightarrow> thenM m k s = (Inl e, t)"
  by (simp add: thenM_def bindM_Inl)

lemma catchM_Inr [prog_eval]: "m s = (Inr x, t) \<Longrightarrow> catchM m h s = (Inr x, t)"
  by (simp add: catchM_def)

lemma catchM_Exn [prog_eval]: "m s = (Inl (Exn e), t) \<Longrightarrow> catchM m h s = h e t"
  by (simp add: catchM_def)

lemma finallyM_Inr [prog_eval]: "m s = (Inr x, t) \<Longrightarrow> finallyM m d s = (Inr x, d t)"
  by (simp add: finallyM_def)

lemma finallyM_Inl [prog_eval]:
  "m s = (Inl e, t) \<Longrightarrow> finallyM m d s = (Inl e, if unwinds e then d t else t)"
  by (simp add: finallyM_def)

lemma zoom_apply [prog_eval]: "m (get s) = (r, t) \<Longrightarrow> zoom get put m s = (r, put t s)"
  by (simp add: zoom_def)

text \<open>Inversion: what a program that returned must have done.\<close>

lemma bindM_InrE:
  assumes "bindM m f s = (Inr y, u)"
  obtains x t where "m s = (Inr x, t)" and "f x t = (Inr y, u)"
  using assms by (auto simp: bindM_def split: prod.splits sum.splits)

lemma bindM_InlE:
  assumes "bindM m f s = (Inl e, u)"
  obtains (first) "m s = (Inl e, u)"
    | (second) x t where "m s = (Inr x, t)" and "f x t = (Inl e, u)"
  using assms by (auto simp: bindM_def split: prod.splits sum.splits)

section \<open>Invariants of programs\<close>

text \<open>
  A result after which the program goes on: a normal return, or a fault that is unwound to a
  handler.  \<open>keeps P m\<close>: a state that satisfies \<open>P\<close> still does when \<open>m\<close> is left with such a
  result.  The rules follow the combinators, so an invariant of an operation is proved by the
  shape of its definition.
\<close>

fun live :: "'a result \<Rightarrow> bool" where
  "live (Inr x) = True"
| "live (Inl f) = unwinds f"

definition keeps :: "('s \<Rightarrow> bool) \<Rightarrow> ('s, 'a) prog \<Rightarrow> bool" where
  "keeps P m \<longleftrightarrow> (\<forall>s q t. P s \<longrightarrow> m s = (q, t) \<longrightarrow> live q \<longrightarrow> P t)"

named_theorems keeps_intros "introduction rules for keeps"

lemma keepsI [intro?]: "(\<And>s q t. P s \<Longrightarrow> m s = (q, t) \<Longrightarrow> live q \<Longrightarrow> P t) \<Longrightarrow> keeps P m"
  by (simp add: keeps_def)

lemma keepsD: "keeps P m \<Longrightarrow> P s \<Longrightarrow> m s = (q, t) \<Longrightarrow> live q \<Longrightarrow> P t"
  by (simp add: keeps_def)

lemma keeps_ret [keeps_intros]: "keeps P (ret x)"
  by (simp add: keeps_def)

lemma keeps_raise [keeps_intros]: "keeps P (raise e)"
  by (simp add: keeps_def)

lemma keeps_liftE [keeps_intros]: "keeps P (liftE r)"
  by (simp add: keeps_def)

lemma keeps_getM [keeps_intros]: "keeps P (getM f)"
  by (simp add: keeps_def)

lemma keeps_modifyM [keeps_intros]: "(\<And>s. P s \<Longrightarrow> P (f s)) \<Longrightarrow> keeps P (modifyM f)"
  by (auto simp: keeps_def)

lemma keeps_bindM [keeps_intros]:
  assumes "keeps P m" and "\<And>x. keeps P (f x)"
  shows "keeps P (bindM m f)"
proof
  fix s q t assume "P s" and run: "bindM m f s = (q, t)" and "live q"
  obtain r u where m: "m s = (r, u)" by fastforce
  show "P t"
  proof (cases r)
    case (Inl e)
    with m run \<open>live q\<close> \<open>P s\<close> show ?thesis using keepsD [OF assms(1)] by (auto simp: bindM_def)
  next
    case (Inr x)
    with m \<open>P s\<close> have "P u" using keepsD [OF assms(1)] by auto
    with m run Inr \<open>live q\<close> show ?thesis using keepsD [OF assms(2)] by (auto simp: bindM_def)
  qed
qed

lemma keeps_thenM [keeps_intros]: "keeps P m \<Longrightarrow> keeps P k \<Longrightarrow> keeps P (thenM m k)"
  by (simp add: thenM_def keeps_bindM)

lemma keeps_if [keeps_intros]: "keeps P m \<Longrightarrow> keeps P k \<Longrightarrow> keeps P (if b then m else k)"
  by simp

lemma keeps_catchM [keeps_intros]:
  assumes "keeps P m" and "\<And>e. keeps P (h e)"
  shows "keeps P (catchM m h)"
proof
  fix s q t assume "P s" and run: "catchM m h s = (q, t)" and "live q"
  obtain r u where m: "m s = (r, u)" by fastforce
  show "P t"
  proof (cases "\<exists>e. r = Inl (Exn e)")
    case True
    then obtain e where e: "r = Inl (Exn e)" by blast
    with m \<open>P s\<close> have "P u" using keepsD [OF assms(1)] by auto
    with m run e \<open>live q\<close> show ?thesis using keepsD [OF assms(2)] by (auto simp: catchM_def)
  next
    case False
    with m run have "(q, t) = (r, u)" by (auto simp: catchM_def split: sum.splits fault.splits)
    with m \<open>P s\<close> \<open>live q\<close> show ?thesis using keepsD [OF assms(1)] by auto
  qed
qed

lemma keeps_finallyM [keeps_intros]:
  assumes "keeps P m" and "\<And>s. P s \<Longrightarrow> P (d s)"
  shows "keeps P (finallyM m d)"
proof
  fix s q t assume "P s" and run: "finallyM m d s = (q, t)" and "live q"
  obtain r u where m: "m s = (r, u)" by fastforce
  with run \<open>live q\<close> have "r = q" "t = d u" by (auto simp: finallyM_def split: sum.splits)
  with m \<open>P s\<close> \<open>live q\<close> show "P t" using keepsD [OF assms(1)] assms(2) by auto
qed

lemma keeps_zoom [keeps_intros]:
  assumes "keeps Q p" and "\<And>s. P s \<Longrightarrow> Q (get s)" and "\<And>s t. P s \<Longrightarrow> Q t \<Longrightarrow> P (put t s)"
  shows "keeps P (zoom get put p)"
proof
  fix s q t assume "P s" and run: "zoom get put p s = (q, t)" and "live q"
  obtain r u where p: "p (get s) = (r, u)" by fastforce
  with \<open>P s\<close> run \<open>live q\<close> have "Q u" using keepsD [OF assms(1)] assms(2) by (auto simp: zoom_def)
  with p run \<open>P s\<close> show "P t" using assms(3) by (auto simp: zoom_def)
qed

section \<open>Invariants of transition systems\<close>

text \<open>
  The concurrent parts of the server are step relations.  The locale states once what an
  inductive invariant gives; the components interpret it with their own relation.
\<close>

inductive reach :: "'s \<Rightarrow> ('s \<Rightarrow> 's \<Rightarrow> bool) \<Rightarrow> 's \<Rightarrow> bool"
  for s0 :: 's and step :: "'s \<Rightarrow> 's \<Rightarrow> bool" where
  reach_init: "reach s0 step s0"
| reach_step: "reach s0 step s \<Longrightarrow> step s t \<Longrightarrow> reach s0 step t"

lemma reach_trans: "reach s step t \<Longrightarrow> reach s0 step s \<Longrightarrow> reach s0 step t"
  by (induction rule: reach.induct) (auto intro: reach_step)

text \<open>Running a schedule: a list of events of a system whose steps are computed.\<close>

fun run_schedule :: "('e \<Rightarrow> 's \<Rightarrow> 's option) \<Rightarrow> 'e list \<Rightarrow> 's \<Rightarrow> 's option" where
  "run_schedule f [] s = Some s"
| "run_schedule f (e # es) s = (case f e s of None \<Rightarrow> None | Some t \<Rightarrow> run_schedule f es t)"

lemma run_schedule_append:
  "run_schedule f (es @ fs) s = (case run_schedule f es s of None \<Rightarrow> None | Some t \<Rightarrow> run_schedule f fs t)"
  by (induction es arbitrary: s) (auto split: option.splits)

lemma run_schedule_keeps:
  assumes "\<And>e s t. P s \<Longrightarrow> f e s = Some t \<Longrightarrow> Q e \<Longrightarrow> P t"
    and "run_schedule f es s = Some t" and "P s" and "\<forall>e \<in> set es. Q e"
  shows "P t"
  using assms(2-4)
proof (induction es arbitrary: s)
  case (Cons e es)
  then obtain u where "f e s = Some u" "run_schedule f es u = Some t" by (auto split: option.splits)
  with Cons assms(1) [of s e u] show ?case by simp
qed simp

lemma run_schedule_reach:
  assumes "\<And>e s t. f e s = Some t \<Longrightarrow> step s t"
    and "run_schedule f es s = Some t" and "reach s0 step s"
  shows "reach s0 step t"
  using assms(2,3)
proof (induction es arbitrary: s)
  case (Cons e es)
  then obtain u where "f e s = Some u" "run_schedule f es u = Some t" by (auto split: option.splits)
  with Cons assms(1) show ?case by (blast intro: reach_step)
qed simp

locale invariant_system =
  fixes init :: "'s \<Rightarrow> bool"
    and step :: "'s \<Rightarrow> 's \<Rightarrow> bool"
    and inv :: "'s \<Rightarrow> bool"
  assumes inv_init: "init s \<Longrightarrow> inv s"
    and inv_step: "step s t \<Longrightarrow> inv s \<Longrightarrow> inv t"
begin

lemma reachable_inv:
  assumes "init s0" and "reach s0 step s"
  shows "inv s"
  using assms(2)
proof (induction rule: reach.induct)
  case reach_init
  show ?case using assms(1) by (rule inv_init)
next
  case (reach_step s t)
  then show ?case by (blast intro: inv_step)
qed

end

text \<open>A system in which every step that changes the state uses up some of a finite amount of work.\<close>

locale ranked_system = invariant_system init step inv
  for init :: "'s \<Rightarrow> bool" and step :: "'s \<Rightarrow> 's \<Rightarrow> bool" and inv :: "'s \<Rightarrow> bool" +
  fixes work :: "'s \<Rightarrow> nat"
  assumes work_step: "step s t \<Longrightarrow> inv s \<Longrightarrow> t \<noteq> s \<Longrightarrow> work t < work s"
begin

lemma no_endless_change:
  assumes "init (f 0)"
  shows "\<exists>i. step (f i) (f (Suc i)) \<longrightarrow> f (Suc i) = f i"
proof (rule ccontr)
  assume "\<nexists>i. step (f i) (f (Suc i)) \<longrightarrow> f (Suc i) = f i"
  then have run: "step (f i) (f (Suc i))" "f (Suc i) \<noteq> f i" for i by blast+
  have inv: "inv (f i)" for i
    using assms run(1) by (induction i) (auto intro: inv_init inv_step)
  have "work (f i) + i \<le> work (f 0)" for i
  proof (induction i)
    case (Suc i)
    with work_step [OF run(1) inv run(2), of i] show ?case by simp
  qed simp
  from this [of "Suc (work (f 0))"] show False by simp
qed

end

text \<open>
  A detailed system whose steps, seen through a function on its states, are steps of an abstract
  system or change nothing that the abstract system sees.
\<close>

locale refined_system = invariant_system init step inv
  for init :: "'s \<Rightarrow> bool" and step :: "'s \<Rightarrow> 's \<Rightarrow> bool" and inv :: "'s \<Rightarrow> bool" +
  fixes astep :: "'a \<Rightarrow> 'a \<Rightarrow> bool" and abs_of :: "'s \<Rightarrow> 'a"
  assumes simulated: "step s t \<Longrightarrow> inv s \<Longrightarrow> astep (abs_of s) (abs_of t) \<or> abs_of t = abs_of s"
begin

lemma reach_abstract:
  assumes "init s0" and "reach s0 step s"
  shows "reach (abs_of s0) astep (abs_of s)"
  using assms(2)
proof (induction rule: reach.induct)
  case (reach_step s t)
  have "inv s" using reachable_inv [OF assms(1)] reach_step by blast
  with simulated reach_step show ?case by (metis reach.reach_step)
qed (rule reach.reach_init)

lemma reach_abstract_from:
  assumes "init s0" and "reach s0 step s" and "reach s step t"
  shows "reach (abs_of s) astep (abs_of t)"
  using assms(3)
proof (induction rule: reach.induct)
  case (reach_step t u)
  have "inv t" using reachable_inv [OF assms(1) reach_trans [OF _ assms(2)]] reach_step by blast
  with simulated reach_step show ?case by (metis reach.reach_step)
qed (rule reach.reach_init)

end

section \<open>Text\<close>

text \<open>\<open>std::to_string\<close> on natural numbers and integers, in base ten.\<close>

fun show_nat :: "nat \<Rightarrow> string" where
  "show_nat n = (if n < 10 then [char_of (48 + n)] else show_nat (n div 10) @ [char_of (48 + n mod 10)])"

declare show_nat.simps [simp del]

definition show_int :: "int \<Rightarrow> string" where
  "show_int i = (if i < 0 then CHR ''-'' # show_nat (nat (- i)) else show_nat (nat i))"

lemma show_nat_length_le:
  "n < 10 ^ k \<Longrightarrow> 0 < k \<Longrightarrow> length (show_nat n) \<le> k"
proof (induction k arbitrary: n)
  case 0
  then show ?case by simp
next
  case (Suc k)
  show ?case
  proof (cases "n < 10")
    case True
    then show ?thesis by (subst show_nat.simps) simp
  next
    case False
    with Suc.prems have "0 < k" by (cases k) auto
    moreover have "n div 10 < 10 ^ k"
      using Suc.prems(1) by (simp add: less_mult_imp_div_less mult.commute)
    ultimately have "length (show_nat (n div 10)) \<le> k" by (rule Suc.IH[rotated])
    with False show ?thesis by (subst show_nat.simps) simp
  qed
qed

lemma show_nat_nonempty: "show_nat n \<noteq> []"
  by (subst show_nat.simps) simp

text \<open>The characters of a decimal number.\<close>

definition is_digit :: "char \<Rightarrow> bool" where
  "is_digit c \<longleftrightarrow> 48 \<le> (of_char c :: nat) \<and> (of_char c :: nat) \<le> 57"

definition digit_value :: "char \<Rightarrow> nat" where
  "digit_value c = of_char c - 48"

lemma digit_char [simp]:
  assumes "d < 10"
  shows "is_digit (char_of (48 + d))" "digit_value (char_of (48 + d)) = d"
  using assms by (simp_all add: is_digit_def digit_value_def)

lemma show_nat_digit:
  assumes "is_digit c"
  shows "show_nat (digit_value c) = [c]" "digit_value c < 10"
proof -
  show "digit_value c < 10" using assms unfolding is_digit_def digit_value_def by linarith
  moreover have "48 + digit_value c = of_char c" using assms by (simp add: is_digit_def digit_value_def)
  ultimately show "show_nat (digit_value c) = [c]" by (subst show_nat.simps) simp
qed

lemma show_nat_extend:
  assumes "0 < n" and "is_digit c"
  shows "show_nat (10 * n + digit_value c) = show_nat n @ [c]"
proof -
  have "digit_value c < 10" "48 + digit_value c = of_char c"
    using assms(2) unfolding is_digit_def digit_value_def by linarith+
  then show ?thesis using assms(1) by (subst show_nat.simps) simp
qed

end
