(* ===== verification/Cpp_Memory.thy ===== *)
theory Cpp_Memory
  imports Mb_Prelude
begin

text \<open>
  The part of the C++ abstract machine the sources depend on: \<open>char\<close> bytes and the platform's
  choice of their sign, conversions between integer widths, \<open>std::string\<close> as a list of
  characters, byte arrays with checked access, pointers into them, and little-endian storage of
  multi-byte integers (the byte order of the ARM and x86 targets).

  An access outside an array is the fault \<open>Undefined\<close>.  A \<open>const char*\<close> of the sources points
  either to an array of its own (a string literal or the buffer of a \<open>std::string\<close>), or into the
  package buffer of the connection, or nowhere; the datatype \<open>cptr\<close> keeps the three apart, because
  the messages of the protocol alias the package buffer after they have been deserialized.
\<close>

section \<open>Platform\<close>

type_synonym byte = "8 word"

text \<open>
  What the sources leave to the platform and the build: whether plain \<open>char\<close> is signed (it is not
  on the daemon's ARM target and it is on x86), the texts of \<open>strerror\<close>, the directory of the
  bootloader scripts (\<open>DAEMON_SCRIPTS_DIR\<close>), and the byte that \<open>back()\<close> of an empty
  \<open>std::string\<close> reads, which the language leaves undefined.
\<close>

record platform =
  char_signed :: bool
  strerror :: "int \<Rightarrow> string"
  scripts_dir :: string
  back_of_empty :: byte

text \<open>The value of a \<open>char\<close> after integral promotion, and after conversion to a 64-bit \<open>size_t\<close>.\<close>

definition char_val :: "platform \<Rightarrow> byte \<Rightarrow> int" where
  "char_val pf b = (if char_signed pf then sint b else uint b)"

definition size_of_char :: "platform \<Rightarrow> byte \<Rightarrow> nat" where
  "size_of_char pf b = nat (char_val pf b mod 2 ^ 64)"

text \<open>Conversion of an integer to \<open>char\<close> or \<open>uint8_t\<close>: the low eight bits.\<close>

definition char_of_size :: "nat \<Rightarrow> byte" where
  "char_of_size n = word_of_nat n"

section \<open>Strings\<close>

definition byte_of_char :: "char \<Rightarrow> byte" where
  "byte_of_char c = word_of_nat (of_char c)"

definition char_of_byte :: "byte \<Rightarrow> char" where
  "char_of_byte b = char_of (unat b)"

definition to_bytes :: "string \<Rightarrow> byte list" where
  "to_bytes s = map byte_of_char s"

definition of_bytes :: "byte list \<Rightarrow> string" where
  "of_bytes bs = map char_of_byte bs"

text \<open>\<open>s.c_str()\<close>: the characters and the terminating NUL.\<close>

definition c_str :: "string \<Rightarrow> byte list" where
  "c_str s = to_bytes s @ [0]"

section \<open>Exceptions that report a system call\<close>

text \<open>
  \<open>ErrnoException{msg, error}\<close> (Helpers.cpp), and \<open>FEXCEPT(base, ...)\<close>: the class
  \<open>PrefixException<base>\<close> puts the name of the throwing function and a colon before the text.
\<close>

definition mk_ErrnoException :: "platform \<Rightarrow> string \<Rightarrow> int \<Rightarrow> exn" where
  "mk_ErrnoException pf msg err =
     ErrnoException (msg @ '': '' @ ''errno #'' @ show_int err @ '': '' @ strerror pf err) err"

fun GetErrno :: "exn \<Rightarrow> int option" where
  "GetErrno (ErrnoException m e) = Some e"
| "GetErrno _ = None"

fun PrefixException :: "string \<Rightarrow> exn \<Rightarrow> exn" where
  "PrefixException p (RuntimeError m) = RuntimeError (p @ '': '' @ m)"
| "PrefixException p (ErrnoException m e) = ErrnoException (p @ '': '' @ m) e"
| "PrefixException p e = e"

definition throw_errno :: "platform \<Rightarrow> string \<Rightarrow> string \<Rightarrow> int \<Rightarrow> fault" where
  "throw_errno pf func msg err = Exn (PrefixException func (mk_ErrnoException pf msg err))"

definition throw_runtime :: "string \<Rightarrow> string \<Rightarrow> fault" where
  "throw_runtime func msg = Exn (PrefixException func (RuntimeError msg))"

section \<open>Arrays and pointers\<close>

datatype cptr =
    NullPtr
  | Ext "byte list"   \<comment> \<open>the first element of a separate array with this content\<close>
  | Buf int           \<comment> \<open>an offset into the package buffer\<close>

text \<open>Reading \<open>n\<close> bytes from a pointer, given the package buffer.\<close>

fun load :: "byte list \<Rightarrow> cptr \<Rightarrow> nat \<Rightarrow> byte list result" where
  "load buf NullPtr n = (if n = 0 then Inr [] else Inl Undefined)"
| "load buf (Ext bs) n = (if n \<le> length bs then Inr (take n bs) else Inl Undefined)"
| "load buf (Buf i) n =
     (if 0 \<le> i \<and> i + int n \<le> int (length buf) then Inr (take n (drop (nat i) buf)) else Inl Undefined)"

text \<open>\<open>p + k\<close>, and \<open>p[0]\<close>.\<close>

fun ptr_add :: "cptr \<Rightarrow> int \<Rightarrow> cptr" where
  "ptr_add NullPtr k = NullPtr"
| "ptr_add (Ext bs) k = Ext (drop (nat k) bs)"
| "ptr_add (Buf i) k = Buf (i + k)"

definition load_byte :: "byte list \<Rightarrow> cptr \<Rightarrow> byte result" where
  "load_byte buf p = bindE (load buf p 1) (\<lambda>bs. Inr (hd bs))"

text \<open>Writing a list of bytes into the package buffer at an offset.\<close>

definition overwrite :: "'a list \<Rightarrow> nat \<Rightarrow> 'a list \<Rightarrow> 'a list" where
  "overwrite buf i bs = take i buf @ bs @ drop (i + length bs) buf"

definition store :: "byte list \<Rightarrow> int \<Rightarrow> byte list \<Rightarrow> byte list result" where
  "store buf i bs =
     (if 0 \<le> i \<and> i + int (length bs) \<le> int (length buf) then Inr (overwrite buf (nat i) bs)
      else Inl Undefined)"

section \<open>Multi-byte integers in memory\<close>

fun le_bytes :: "nat \<Rightarrow> nat \<Rightarrow> byte list" where
  "le_bytes 0 n = []"
| "le_bytes (Suc k) n = word_of_nat n # le_bytes k (n div 256)"

fun le_nat :: "byte list \<Rightarrow> nat" where
  "le_nat [] = 0"
| "le_nat (b # bs) = unat b + 256 * le_nat bs"

section \<open>Lemmas\<close>

subsection \<open>Characters\<close>

lemma unat_byte_less [simp]: "unat (b :: byte) < 256"
  using unsigned_less [where 'a = nat, of b] by simp

lemma char_val_unsigned [simp]: "\<not> char_signed pf \<Longrightarrow> char_val pf b = int (unat b)"
  by (simp add: char_val_def)

lemma nat_uint_byte_mod [simp]: "nat (uint (b :: byte) mod 18446744073709551616) = unat b"
proof -
  have "uint b < 18446744073709551616"
    using uint_lt2p [of b] by simp
  then show ?thesis by (simp add: mod_pos_pos_trivial)
qed

lemma size_of_char_unsigned [simp]: "\<not> char_signed pf \<Longrightarrow> size_of_char pf b = unat b"
  by (simp add: size_of_char_def)

text \<open>A byte below 128 has the same value whatever the sign of \<open>char\<close>.\<close>

lemma sint_small_byte: "unat (b :: byte) < 128 \<Longrightarrow> sint b = int (unat b)"
proof -
  assume "unat b < 128"
  then have "int (unat b) < 128" by linarith
  then have "uint b < 2 ^ 7" by simp
  moreover have "- (2 ^ 7) \<le> uint b" by (rule order_trans [OF _ uint_ge_0]) simp
  ultimately show ?thesis using signed_take_bit_int_eq_self [of 7 "uint b"] by (simp add: sint_uint)
qed

lemma char_val_small: "unat b < 128 \<Longrightarrow> char_val pf b = int (unat b)"
  by (simp add: char_val_def sint_small_byte)

lemma size_of_char_small: "unat b < 128 \<Longrightarrow> size_of_char pf b = unat b"
  by (simp add: size_of_char_def char_val_small)

lemma unat_char_of_size: "unat (char_of_size n) = n mod 256"
  by (simp add: char_of_size_def unat_of_nat)

lemma unat_char_of_size_less [simp]: "n < 256 \<Longrightarrow> unat (char_of_size n) = n"
  by (simp add: unat_char_of_size)

text \<open>
  The sizes a platform keeps: every byte where \<open>char\<close> is unsigned, the values up to 127 where
  it is signed.  Within them a \<open>char\<close> that holds a size is read back as that size.
\<close>

definition char_limit :: "platform \<Rightarrow> nat" where
  "char_limit pf = (if char_signed pf then 127 else 255)"

lemma char_val_fits [simp]: "unat b \<le> char_limit pf \<Longrightarrow> char_val pf b = int (unat b)"
  by (auto simp: char_limit_def char_val_small split: if_splits)

lemma size_of_char_fits [simp]: "unat b \<le> char_limit pf \<Longrightarrow> size_of_char pf b = unat b"
  by (auto simp: char_limit_def size_of_char_small split: if_splits)

lemma char_limit_le [simp]: "char_limit pf \<le> 255" "127 \<le> char_limit pf"
  by (simp_all add: char_limit_def)

subsection \<open>Strings\<close>

lemma length_to_bytes [simp]: "length (to_bytes s) = length s"
  by (simp add: to_bytes_def)

lemma length_of_bytes [simp]: "length (of_bytes bs) = length bs"
  by (simp add: of_bytes_def)

lemma length_c_str [simp]: "length (c_str s) = Suc (length s)"
  by (simp add: c_str_def)

lemma take_c_str [simp]: "take (length s) (c_str s) = to_bytes s"
  by (simp add: c_str_def)

lemma char_of_byte_of_char [simp]: "char_of_byte (byte_of_char c) = c"
proof -
  have "of_char c < (256 :: nat)" by simp
  then show ?thesis by (simp add: char_of_byte_def byte_of_char_def unat_of_nat)
qed

lemma byte_of_char_of_byte [simp]: "byte_of_char (char_of_byte b) = b"
  by (simp add: char_of_byte_def byte_of_char_def)

lemma of_bytes_to_bytes [simp]: "of_bytes (to_bytes s) = s"
  by (simp add: of_bytes_def to_bytes_def comp_def)

lemma to_bytes_of_bytes [simp]: "to_bytes (of_bytes bs) = bs"
  by (simp add: of_bytes_def to_bytes_def comp_def)

lemma of_bytes_append [simp]: "of_bytes (xs @ ys) = of_bytes xs @ of_bytes ys"
  by (simp add: of_bytes_def)

lemma to_bytes_append [simp]: "to_bytes (xs @ ys) = to_bytes xs @ to_bytes ys"
  by (simp add: to_bytes_def)

subsection \<open>Arrays\<close>

lemma take_append_take_drop: "m \<le> n \<Longrightarrow> take m xs @ take (n - m) (drop m xs) = take n xs"
  by (metis le_add_diff_inverse take_add)

lemma length_overwrite [simp]:
  "i + length bs \<le> length buf \<Longrightarrow> length (overwrite buf i bs) = length buf"
  by (simp add: overwrite_def)

lemma overwrite_take_drop:
  "i + length bs \<le> length buf \<Longrightarrow> take (length bs) (drop i (overwrite buf i bs)) = bs"
  by (simp add: overwrite_def)

lemma overwrite_overwrite_adjacent:
  "i + length bs + length cs \<le> length buf \<Longrightarrow>
   overwrite (overwrite buf i bs) (i + length bs) cs = overwrite buf i (bs @ cs)"
  by (cases bs) (auto simp: overwrite_def min_def add.commute add.left_commute)

lemma overwrite_zero: "overwrite buf 0 bs = bs @ drop (length bs) buf"
  by (simp add: overwrite_def)

lemma overwrite_Nil [simp]: "i \<le> length buf \<Longrightarrow> overwrite buf i [] = buf"
  by (simp add: overwrite_def)

lemma store_InrD: "store buf i bs = Inr buf' \<Longrightarrow> length buf' = length buf"
  by (auto simp: store_def split: if_splits)

lemma store_ok [simp]:
  "i + length bs \<le> length buf \<Longrightarrow> store buf (int i) bs = Inr (overwrite buf i bs)"
  by (simp add: store_def)

lemma load_Buf_ok [simp]:
  "i + n \<le> length buf \<Longrightarrow> load buf (Buf (int i)) n = Inr (take n (drop i buf))"
  by simp

declare load.simps(3) [simp del]

lemma load_c_str [simp]: "load buf (Ext (c_str s)) (length s) = Inr (to_bytes s)"
  by simp

lemma length_load: "load buf p n = Inr bs \<Longrightarrow> length bs = n"
  by (induction buf p n rule: load.induct) (auto simp: load.simps(3) split: if_splits)

text \<open>An array holds a list of bytes at an offset.\<close>

definition holds_at :: "byte list \<Rightarrow> nat \<Rightarrow> byte list \<Rightarrow> bool" where
  "holds_at buf i bs \<longleftrightarrow> i + length bs \<le> length buf \<and> take (length bs) (drop i buf) = bs"

lemma holds_at_overwrite [simp]: "i + length bs \<le> length buf \<Longrightarrow> holds_at (overwrite buf i bs) i bs"
  by (simp add: holds_at_def overwrite_take_drop)

lemma holds_at_append:
  "holds_at buf i (xs @ ys) \<longleftrightarrow> holds_at buf i xs \<and> holds_at buf (i + length xs) ys"
proof
  assume h: "holds_at buf i (xs @ ys)"
  have "take (length xs) (take (length (xs @ ys)) (drop i buf)) = xs"
    using h by (simp add: holds_at_def)
  moreover have "drop (length xs) (take (length (xs @ ys)) (drop i buf)) = ys"
    using h by (simp add: holds_at_def)
  ultimately show "holds_at buf i xs \<and> holds_at buf (i + length xs) ys"
    using h by (simp add: holds_at_def drop_take add.commute)
next
  assume "holds_at buf i xs \<and> holds_at buf (i + length xs) ys"
  then show "holds_at buf i (xs @ ys)"
    by (simp add: holds_at_def take_add add.commute)
qed

lemma holds_at_Cons:
  "holds_at buf i (x # ys) \<longleftrightarrow> holds_at buf i [x] \<and> holds_at buf (Suc i) ys"
  using holds_at_append [of buf i "[x]" ys] by simp

lemma load_holds_at: "holds_at buf i bs \<Longrightarrow> n = length bs \<Longrightarrow> load buf (Buf (int i)) n = Inr bs"
  by (auto simp: holds_at_def)

lemma load_byte_holds_at: "holds_at buf i [b] \<Longrightarrow> load_byte buf (Buf (int i)) = Inr b"
  using load_holds_at [of buf i "[b]" 1] by (simp add: load_byte_def)

lemma holds_at_prefix: "length bs \<le> length buf \<Longrightarrow> take (length bs) buf = bs \<Longrightarrow> holds_at buf 0 bs"
  by (simp add: holds_at_def)

subsection \<open>Multi-byte integers\<close>

lemma length_le_bytes [simp]: "length (le_bytes k n) = k"
  by (induction k arbitrary: n) auto

lemma le_nat_le_bytes: "le_nat (le_bytes k n) = n mod 256 ^ k"
proof (induction k arbitrary: n)
  case 0
  then show ?case by simp
next
  case (Suc k)
  have "n mod 256 ^ Suc k = n mod 256 + 256 * (n div 256 mod 256 ^ k)"
    using mod_mult2_eq [of n 256 "256 ^ k"] by simp
  with Suc show ?case by (simp add: unat_of_nat)
qed

lemma le_bytes_le_nat: "length bs = k \<Longrightarrow> le_bytes k (le_nat bs) = bs"
proof (induction bs arbitrary: k)
  case Nil
  then show ?case by simp
next
  case (Cons b bs)
  have "(unat b + 256 * le_nat bs) div 256 = le_nat bs"
    using unat_byte_less [of b] by simp
  moreover have "(word_of_nat (unat b + 256 * le_nat bs) :: byte) = b"
  proof -
    have "unat (word_of_nat (unat b + 256 * le_nat bs) :: byte) = (unat b + 256 * le_nat bs) mod 256"
      unfolding unat_of_nat by simp
    then show ?thesis
      using unat_byte_less [of b] by (simp add: word_unat_eq_iff del: of_nat_add of_nat_mult)
  qed
  ultimately show ?case using Cons by auto
qed

section \<open>Two platforms\<close>

text \<open>The daemon's target, whose \<open>char\<close> is unsigned, and a desktop client, whose \<open>char\<close> is signed.\<close>

definition arm :: platform where
  "arm = \<lparr>char_signed = False, strerror = (\<lambda>_. ''failure''), scripts_dir = ''/opt/mb'', back_of_empty = 0\<rparr>"

definition x86 :: platform where
  "x86 = arm\<lparr>char_signed := True\<rparr>"

lemma char_limit_platforms [simp]: "char_limit arm = 255" "char_limit x86 = 127"
  by (simp_all add: char_limit_def arm_def x86_def)

end
