(* ===== verification/Sys_IO.thy ===== *)
theory Sys_IO
  imports Cpp_Memory
begin

text \<open>
  The system calls that move bytes (\<open>recv\<close>, \<open>send\<close>, \<open>read\<close>, \<open>write\<close>).  What the kernel does is
  an argument of the model: a script of what successive calls find.  A reading call finds a segment
  of bytes, of which it takes at most what it asked for (an empty segment is the end of the stream),
  an error, or a cancellation of the calling thread; a writing call is told how many bytes are
  accepted.  A call past the end of its script has not returned: the fault \<open>Block\<close>.
\<close>

datatype rx_event = RxData "byte list" | RxErr int | RxCancel

datatype tx_event = TxAccept nat | TxErr int | TxCancel

text \<open>The result \<open>Inl e\<close> is a negative return value with \<open>errno = e\<close>.\<close>

fun script_read :: "nat \<Rightarrow> (rx_event list, int + byte list) prog" where
  "script_read n [] = (Inl Block, [])"
| "script_read n (RxData bs # r) =
     (Inr (Inr (take n bs)), if n < length bs then RxData (drop n bs) # r else r)"
| "script_read n (RxErr e # r) = (Inr (Inl e), r)"
| "script_read n (RxCancel # r) = (Inl Unwind, r)"

fun script_write :: "byte list \<Rightarrow> (tx_event list, int + nat) prog" where
  "script_write bs [] = (Inl Block, [])"
| "script_write bs (TxAccept k # r) = (Inr (Inr (min k (length bs))), r)"
| "script_write bs (TxErr e # r) = (Inr (Inl e), r)"
| "script_write bs (TxCancel # r) = (Inl Unwind, r)"

section \<open>What the scripts deliver\<close>

text \<open>The bytes the peer sent before the first event that is not data.\<close>

fun rx_bytes :: "rx_event list \<Rightarrow> byte list" where
  "rx_bytes (RxData bs # r) = (if bs = [] then [] else bs @ rx_bytes r)"
| "rx_bytes _ = []"

text \<open>The script left when \<open>n\<close> bytes have been taken, and when \<open>n\<close> bytes have been accepted.\<close>

fun rx_drop :: "nat \<Rightarrow> rx_event list \<Rightarrow> rx_event list" where
  "rx_drop n (RxData bs # r) =
     (if n = 0 then RxData bs # r
      else if n < length bs then RxData (drop n bs) # r
      else rx_drop (n - length bs) r)"
| "rx_drop n r = r"

fun tx_after :: "nat \<Rightarrow> tx_event list \<Rightarrow> tx_event list option" where
  "tx_after n (TxAccept k # r) =
     (if n = 0 then Some (TxAccept k # r) else if k = 0 then None else tx_after (n - k) r)"
| "tx_after n r = (if n = 0 then Some r else None)"

lemma tx_after_0 [simp]: "tx_after 0 r = Some r"
  by (cases "(0 :: nat, r)" rule: tx_after.cases) auto

lemma rx_drop_0 [simp]: "rx_drop 0 r = r"
  by (cases "(0 :: nat, r)" rule: rx_drop.cases) auto

lemma rx_bytes_drop:
  "n \<le> length (rx_bytes r) \<Longrightarrow> rx_bytes (rx_drop n r) = drop n (rx_bytes r)"
proof (induction n r rule: rx_drop.induct)
  case (1 n bs r)
  then show ?case by (cases "bs = []") auto
qed auto

lemma rx_drop_rx_drop:
  "n + m \<le> length (rx_bytes r) \<Longrightarrow> rx_drop m (rx_drop n r) = rx_drop (n + m) r"
proof (induction n r rule: rx_drop.induct)
  case (1 n bs r)
  show ?case
  proof (cases "n = 0 \<or> n < length bs")
    case True
    then show ?thesis by (auto simp: add.commute)
  next
    case False
    then have "n - length bs + m = n + m - length bs" by simp
    moreover from False 1(2) have "bs \<noteq> []" by auto
    ultimately show ?thesis using False 1 by simp
  qed
qed auto

lemma loop_progress: "tot < sz \<Longrightarrow> bs \<noteq> [] \<Longrightarrow> sz - (tot + length bs) < sz - tot"
  by (cases bs) auto

text \<open>A call that returns bytes takes at most what it asked for and uses up a part of the script.\<close>

lemma script_read_data:
  assumes "script_read n r = (Inr (Inr bs), r')"
  shows "length bs \<le> n \<and> (0 < n \<and> bs \<noteq> [] \<longrightarrow> rx_bytes r = bs @ rx_bytes r')"
  using assms by (cases "(n, r)" rule: script_read.cases) (auto split: if_splits)

fun rx_size :: "rx_event list \<Rightarrow> nat" where
  "rx_size [] = 0"
| "rx_size (RxData bs # r) = Suc (length bs) + rx_size r"
| "rx_size (_ # r) = Suc (rx_size r)"

lemma script_read_size:
  assumes "script_read n r = (Inr q, r')" and "0 < n"
  shows "rx_size r' < rx_size r"
  using assms by (cases "(n, r)" rule: script_read.cases) (auto split: if_splits)

lemma script_read_size_le: "script_read n r = (q, r') \<Longrightarrow> rx_size r' \<le> rx_size r"
  by (cases "(n, r)" rule: script_read.cases) (auto split: if_splits)

lemma script_read_not_exn:
  "script_read n r = (Inl f, r') \<Longrightarrow> f = Block \<or> f = Unwind"
  by (cases "(n, r)" rule: script_read.cases) auto

lemma script_write_shorter: "script_write bs r = (Inr q, r') \<Longrightarrow> length r' < length r"
  by (cases "(bs, r)" rule: script_write.cases) auto

section \<open>Transfer loops\<close>

text \<open>
  The program repeats short reads and short writes in six places: \<open>RecvToBuffer\<close> and
  \<open>SendFromBuffer\<close> of the transport, \<open>Send\<close> and \<open>Recv\<close> of the port announcement, \<open>ReadToBuf\<close> and
  \<open>WriteFromBuf\<close> of the launch pipe.  What they share: a state that still wants \<open>need s\<close> bytes, and
  one round that moves what one call delivers.  How the kernel cuts the stream does not matter.
\<close>

locale filling_loop =
  fixes loop :: "'s \<Rightarrow> 'r"
    and ok :: "'s \<Rightarrow> bool"
    and need :: "'s \<Rightarrow> nat"
    and src :: "'s \<Rightarrow> rx_event list"
    and take_in :: "byte list \<Rightarrow> rx_event list \<Rightarrow> 's \<Rightarrow> 's"
  assumes round: "\<lbrakk>ok s; 0 < need s; script_read (need s) (src s) = (Inr (Inr bs), r); bs \<noteq> []\<rbrakk>
      \<Longrightarrow> loop s = loop (take_in bs r s)"
    and ok_take: "\<lbrakk>ok s; length bs \<le> need s\<rbrakk> \<Longrightarrow> ok (take_in bs r s)"
    and need_take: "ok s \<Longrightarrow> need (take_in bs r s) = need s - length bs"
    and src_take: "src (take_in bs r s) = r"
    and take_take: "\<lbrakk>ok s; length (bs @ cs) \<le> need s\<rbrakk> \<Longrightarrow>
      take_in cs q (take_in bs r s) = take_in (bs @ cs) q s"
    and take_nothing: "ok s \<Longrightarrow> take_in [] (src s) s = s"
begin

lemma loop_fills:
  assumes "ok s" and "need s \<le> length (rx_bytes (src s))"
  shows "loop s = loop (take_in (take (need s) (rx_bytes (src s))) (rx_drop (need s) (src s)) s)"
  using assms
proof (induction "need s" arbitrary: s rule: less_induct)
  case less
  show ?case
  proof (cases "need s = 0")
    case True
    with less.prems take_nothing show ?thesis by simp
  next
    case False
    let ?n = "need s"
    obtain ds q where src: "src s = RxData ds # q" "ds \<noteq> []"
      using less.prems(2) False by (cases "src s" rule: rx_bytes.cases) (auto split: if_splits)
    let ?bs = "take ?n ds" and ?r = "if ?n < length ds then RxData (drop ?n ds) # q else q"
    let ?t = "take_in ?bs ?r s"
    have read: "loop s = loop ?t"
      using round [of s ?bs ?r] less.prems(1) src False by simp
    have t: "ok ?t" "need ?t = ?n - length ds" "src ?t = ?r"
      using less.prems(1) ok_take [of s ?bs ?r] need_take [of s ?bs ?r] src_take by auto
    have "need ?t < need s" "need ?t \<le> length (rx_bytes (src ?t))"
      using t False src less.prems(2) by (auto simp del: not_gr_zero)
    from less.hyps [OF this(1) t(1) this(2)] have "loop ?t = loop (take_in
        (take (?n - length ds) (rx_bytes ?r)) (rx_drop (?n - length ds) ?r) ?t)"
      using t by simp
    also have "take_in (take (?n - length ds) (rx_bytes ?r)) (rx_drop (?n - length ds) ?r) ?t =
        take_in (?bs @ take (?n - length ds) (rx_bytes ?r)) (rx_drop (?n - length ds) ?r) s"
      using less.prems(1) by (intro take_take) auto
    also have "?bs @ take (?n - length ds) (rx_bytes ?r) = take ?n (rx_bytes (src s))"
      using src by simp
    also have "rx_drop (?n - length ds) ?r = rx_drop ?n (src s)"
      using src False by simp
    finally show ?thesis using read by simp
  qed
qed

end

locale draining_loop =
  fixes loop :: "'s \<Rightarrow> 'r"
    and ok :: "'s \<Rightarrow> bool"
    and need :: "'s \<Rightarrow> nat"
    and room :: "'s \<Rightarrow> tx_event list"
    and give :: "nat \<Rightarrow> tx_event list \<Rightarrow> 's \<Rightarrow> 's"
  assumes round: "\<lbrakk>ok s; 0 < need s; room s = TxAccept k # r; k \<noteq> 0\<rbrakk>
      \<Longrightarrow> loop s = loop (give (min k (need s)) r s)"
    and ok_give: "\<lbrakk>ok s; n \<le> need s\<rbrakk> \<Longrightarrow> ok (give n r s)"
    and need_give: "\<lbrakk>ok s; n \<le> need s\<rbrakk> \<Longrightarrow> need (give n r s) = need s - n"
    and room_give: "room (give n r s) = r"
    and give_give: "\<lbrakk>ok s; n + m \<le> need s\<rbrakk> \<Longrightarrow> give m q (give n r s) = give (n + m) q s"
    and give_nothing: "ok s \<Longrightarrow> give 0 (room s) s = s"
begin

lemma loop_drains:
  assumes "ok s" and "tx_after (need s) (room s) = Some t"
  shows "loop s = loop (give (need s) t s)"
  using assms
proof (induction "need s" arbitrary: s rule: less_induct)
  case less
  show ?case
  proof (cases "need s = 0")
    case True
    with less.prems give_nothing [of s] show ?thesis by simp
  next
    case False
    let ?n = "need s"
    obtain k r where room: "room s = TxAccept k # r" "k \<noteq> 0" "tx_after (?n - k) r = Some t"
      using less.prems(2) False by (cases "(?n, room s)" rule: tx_after.cases) (auto split: if_splits)
    let ?k = "min k ?n" and ?t = "give (min k (need s)) r s"
    have t: "ok ?t" "need ?t = ?n - k" "room ?t = r"
      using less.prems(1) ok_give need_give [of s ?k r] room_give by auto
    have "need ?t < need s" "tx_after (need ?t) (room ?t) = Some t"
      using t False room by (auto simp del: not_gr_zero)
    from less.hyps [OF this(1) t(1) this(2)] have "loop ?t = loop (give (?n - k) t ?t)"
      using t by simp
    also have "give (?n - k) t ?t = give (?k + (?n - k)) t s"
      using less.prems(1) by (intro give_give) auto
    finally show ?thesis
      using round [OF less.prems(1) _ room(1,2)] False by (simp add: min_def split: if_splits)
  qed
qed

end

end
