(* ===== verification/Hw_Utils.thy ===== *)
theory Hw_Utils
  imports Sys_IO
begin

text \<open>
  The hardware access of \<open>Inc/roki-mb-daemon/HwUtils.hpp\<close> and \<open>Src/HwUtils.cpp\<close>, and
  \<open>ClearPort\<close> of \<open>Src/Helpers.cpp\<close>: running a bootloader script in a child process, reading the
  name of the board's port from a pipe, and draining the port.

  The operating system is an argument: the record \<open>world\<close> holds scripts of how successive child
  processes end, what successive \<open>read\<close>, \<open>open\<close> and \<open>pipe\<close> calls return, and records the
  commands that were started and the number of descriptors left open.
\<close>

section \<open>The operating system\<close>

datatype exit_status = Exited byte | Signalled

text \<open>
  What happens in the child: the \<open>errno\<close> of a failed \<open>dup2\<close> or \<open>execl\<close>, or how the script ends.
\<close>

record child =
  dup2_errno :: "int option"
  execl_errno :: "int option"
  script_exit :: exit_status

datatype proc_event =
    ForkError int
  | WaitError int child
  | WaitCancel child      \<comment> \<open>the thread is cancelled while it waits\<close>
  | Waited child

record world =
  procs :: "proc_event list"
  reads :: "rx_event list"
  opens :: "int option list"    \<comment> \<open>\<open>None\<close>: a descriptor; \<open>Some e\<close>: failure with \<open>errno = e\<close>\<close>
  pipes :: "int option list"
  cmds :: "string list"
  fds :: nat

section \<open>Running a script\<close>

text \<open>\<open>ExecuteChildRoutine\<close>: the exit status of the child that runs it.\<close>

definition ExecuteChildRoutine :: "bool \<Rightarrow> child \<Rightarrow> exit_status" where
  "ExecuteChildRoutine redirect ch =
     (if redirect \<and> dup2_errno ch \<noteq> None then Exited 1
      else if execl_errno ch \<noteq> None then Exited 1
      else script_exit ch)"

text \<open>
  \<open>Execute(cmd, outFd, closeFd)\<close>: \<open>redirect\<close> is \<open>outFd != STDOUT_FILENO\<close>.  The descriptor is closed
  after \<open>wait\<close> and before its result is looked at.
\<close>

definition start_child :: "string \<Rightarrow> bool \<Rightarrow> world \<Rightarrow> world" where
  "start_child cmd closeFd w =
     w\<lparr>procs := tl (procs w), cmds := cmds w @ [cmd], fds := (if closeFd then fds w - 1 else fds w)\<rparr>"

definition check_status :: "exit_status \<Rightarrow> (world, unit) prog" where
  "check_status st = (case st of
      Signalled \<Rightarrow> raise (throw_runtime ''Execute'' ''Flashing script terminated abnormally'')
    | Exited c \<Rightarrow>
        if c \<noteq> 0
        then raise (throw_runtime ''Execute''
               (''Flashing script exited with non-zero code '' @ show_nat (unat c)))
        else ret ())"

definition Execute :: "platform \<Rightarrow> string \<Rightarrow> bool \<Rightarrow> bool \<Rightarrow> (world, unit) prog" where
  "Execute pf cmd redirect closeFd w = (case procs w of
      [] \<Rightarrow> (Inl Block, w)
    | ForkError e # r \<Rightarrow>
        (Inl (throw_errno pf ''Execute'' ''Failed to create child process'' e), w\<lparr>procs := r\<rparr>)
    | WaitError e ch # r \<Rightarrow>
        (Inl (throw_errno pf ''Execute'' ''Failed to wait for child'' e), start_child cmd closeFd w)
    | WaitCancel ch # r \<Rightarrow> (Inl Unwind, start_child cmd False w)
    | Waited ch # r \<Rightarrow> check_status (ExecuteChildRoutine redirect ch) (start_child cmd closeFd w))"

definition PYTHON_RUN :: "platform \<Rightarrow> string \<Rightarrow> string" where
  "PYTHON_RUN pf script = ''python3 '' @ scripts_dir pf @ script @ '' ''"

definition ChipReset :: "platform \<Rightarrow> (world, unit) prog" where
  "ChipReset pf = Execute pf (PYTHON_RUN pf ''BootloaderReset.py'') False False"

definition BootloaderFlash :: "platform \<Rightarrow> string \<Rightarrow> (world, unit) prog" where
  "BootloaderFlash pf firmware =
     Execute pf (PYTHON_RUN pf ''BootloaderFlash.py'' @ firmware) False False"

definition BootloaderStart :: "platform \<Rightarrow> (world, unit) prog" where
  "BootloaderStart pf = Execute pf (PYTHON_RUN pf ''BootloaderStart.py'') False False"

section \<open>Reading a string from a descriptor\<close>

definition sys_read :: "nat \<Rightarrow> (world, int + byte list) prog" where
  "sys_read n = zoom reads (\<lambda>r. reads_update (\<lambda>_. r)) (script_read n)"

definition FILLSTRINGFROMFD_BUFSIZE :: nat where
  "FILLSTRINGFROMFD_BUFSIZE = 64"

text \<open>
  \<open>dst.insert(dst.back(), buf)\<close>: the last character of \<open>dst\<close>, converted to \<open>size_t\<close>, is taken as
  the position; the characters inserted are those of \<open>buf\<close> before the first NUL.
\<close>

definition insert_at_back :: "platform \<Rightarrow> string \<Rightarrow> byte list \<Rightarrow> string result" where
  "insert_at_back pf dst buf =
     (let pos = size_of_char pf (if dst = [] then back_of_empty pf else byte_of_char (last dst)) in
      if length dst < pos
      then Inl (Exn (OutOfRange (''basic_string::insert: __pos (which is '' @ show_nat pos @
             '') > this->size() (which is '' @ show_nat (length dst) @ '')'')))
      else Inr (take pos dst @ of_bytes (takeWhile (\<lambda>b. b \<noteq> 0) buf) @ drop pos dst))"

text \<open>The loop, with the local array \<open>buf\<close> of one byte more than \<open>FILLSTRINGFROMFD_BUFSIZE\<close>.\<close>

function FillLoop :: "platform \<Rightarrow> byte list \<Rightarrow> nat \<Rightarrow> string \<Rightarrow> (world, string) prog" where
  "FillLoop pf buf nRead dst w =
     (case sys_read (FILLSTRINGFROMFD_BUFSIZE + 1) w of
        (Inl f, w) \<Rightarrow> (Inl f, w)
      | (Inr (Inl e), w) \<Rightarrow> (Inl (throw_errno pf ''FillStringFromFd'' ''read() failed'' e), w)
      | (Inr (Inr bs), w) \<Rightarrow>
          if bs = [] then (Inr dst, w)
          else (case store (overwrite buf 0 bs) (int (nRead + length bs)) [0] of
              Inl f \<Rightarrow> (Inl f, w)
            | Inr b \<Rightarrow> (case insert_at_back pf dst b of
                  Inl f \<Rightarrow> (Inl f, w)
                | Inr d \<Rightarrow> FillLoop pf b (nRead + length bs) d w)))"
  by pat_completeness auto

lemma sys_read_size:
  assumes "sys_read n w = (Inr q, w')" and "0 < n"
  shows "rx_size (reads w') < rx_size (reads w)"
  using assms script_read_size [of n "reads w" q]
  by (auto simp: sys_read_def zoom_def split: prod.splits)

termination FillLoop
  by (relation "measure (\<lambda>(pf, buf, nRead, dst, w). rx_size (reads w))")
    (auto dest!: sym [of "(_, _)"] intro!: sys_read_size)

declare FillLoop.simps [simp del]

definition FillStringFromFd :: "platform \<Rightarrow> string \<Rightarrow> (world, string) prog" where
  "FillStringFromFd pf dst = FillLoop pf (replicate (FILLSTRINGFROMFD_BUFSIZE + 1) 0) 0 dst"

definition close_fd :: "world \<Rightarrow> world" where
  "close_fd w = w\<lparr>fds := fds w - 1\<rparr>"

text \<open>\<open>pipe(pipeFd)\<close>\<close>

definition sys_pipe :: "(world, int option) prog" where
  "sys_pipe w = (case pipes w of
      [] \<Rightarrow> (Inl Block, w)
    | Some e # r \<Rightarrow> (Inr (Some e), w\<lparr>pipes := r\<rparr>)
    | None # r \<Rightarrow> (Inr None, w\<lparr>pipes := r, fds := fds w + 2\<rparr>))"

definition BootloaderFind :: "platform \<Rightarrow> (world, string) prog" where
  "BootloaderFind pf =
     bindM sys_pipe (\<lambda>err. case err of
        Some e \<Rightarrow> raise (throw_errno pf ''BootloaderFind'' ''Failed to create pipe'' e)
      | None \<Rightarrow>
          thenM (Execute pf (PYTHON_RUN pf ''BootloaderFind.py'') True True)
         (bindM (FillStringFromFd pf '''') (\<lambda>dst.
          thenM (modifyM close_fd) (ret dst))))"

section \<open>Draining the port\<close>

text \<open>\<open>ClearPort\<close>; its \<open>DescriptorWrapper\<close> closes the descriptor on every way out.\<close>

function ClearLoop :: "platform \<Rightarrow> (world, unit) prog" where
  "ClearLoop pf w = (case sys_read 256 w of
      (Inl f, w) \<Rightarrow> (Inl f, w)
    | (Inr (Inl e), w) \<Rightarrow> (Inl (Exn (mk_ErrnoException pf ''read()'' e)), w)
    | (Inr (Inr bs), w) \<Rightarrow> if bs = [] then (Inr (), w) else ClearLoop pf w)"
  by pat_completeness auto

termination ClearLoop
  by (relation "measure (\<lambda>(pf, w). rx_size (reads w))")
    (auto dest!: sym [of "(_, _)"] intro!: sys_read_size)

declare ClearLoop.simps [simp del]

definition ClearPort :: "platform \<Rightarrow> string \<Rightarrow> (world, unit) prog" where
  "ClearPort pf path w = (case opens w of
      [] \<Rightarrow> (Inl Block, w)
    | Some e # r \<Rightarrow> (Inl (Exn (mk_ErrnoException pf ''open()'' e)), w\<lparr>opens := r\<rparr>)
    | None # r \<Rightarrow> finallyM (ClearLoop pf) close_fd (w\<lparr>opens := r, fds := fds w + 1\<rparr>))"

section \<open>Lemmas\<close>

subsection \<open>Scripts\<close>

definition child_ok :: "bool \<Rightarrow> child \<Rightarrow> bool" where
  "child_ok redirect ch \<longleftrightarrow> ExecuteChildRoutine redirect ch = Exited 0"

lemma Execute_ok:
  "procs w = Waited ch # r \<Longrightarrow> child_ok redirect ch \<Longrightarrow>
   Execute pf cmd redirect closeFd w = (Inr (), start_child cmd closeFd w)"
  by (simp add: Execute_def child_ok_def check_status_def)

text \<open>\<open>Execute\<close> returns normally only when a child was waited for and its script exited with 0.\<close>

lemma Execute_InrD:
  assumes "Execute pf cmd redirect closeFd w = (Inr u, w')"
  shows "\<exists>ch r. procs w = Waited ch # r \<and> child_ok redirect ch \<and> w' = start_child cmd closeFd w"
  using assms
  by (auto simp: Execute_def check_status_def child_ok_def
      split: list.splits proc_event.splits exit_status.splits if_splits)

text \<open>It ends in no other way than by returning, an exception, a cancellation or blocking.\<close>

lemma Execute_InlD:
  assumes "Execute pf cmd redirect closeFd w = (Inl f, w')"
  shows "(\<exists>e. f = Exn e) \<or> f = Unwind \<or> f = Block"
  using assms
  by (auto simp: Execute_def check_status_def throw_errno_def throw_runtime_def
      split: list.splits proc_event.splits exit_status.splits if_splits)

text \<open>It starts at most the one command it was given.\<close>

lemma Execute_cmds:
  "Execute pf cmd redirect closeFd w = (r, w') \<Longrightarrow> cmds w' = cmds w \<or> cmds w' = cmds w @ [cmd]"
  by (auto simp: Execute_def check_status_def start_child_def
      split: list.splits proc_event.splits exit_status.splits if_splits)

lemma Execute_io_frame:
  "Execute pf cmd redirect closeFd w = (r, w') \<Longrightarrow> reads w' = reads w \<and> opens w' = opens w \<and> pipes w' = pipes w"
  by (auto simp: Execute_def check_status_def start_child_def
      split: list.splits proc_event.splits exit_status.splits if_splits)

subsection \<open>Reading a string\<close>

lemma sys_read_data [simp]:
  "reads w = RxData bs # r \<Longrightarrow> sys_read n w = (Inr (Inr (take n bs)),
     w\<lparr>reads := (if n < length bs then RxData (drop n bs) # r else r)\<rparr>)"
  by (simp add: sys_read_def zoom_def)

lemma takeWhile_c_string:
  "0 \<notin> set bs \<Longrightarrow> takeWhile (\<lambda>b. b \<noteq> 0) (bs @ 0 # rest) = (bs :: byte list)"
  by (induction bs) auto

text \<open>
  Output of at most 64 bytes that arrives at once, as a pipe delivers it after the writer has
  exited, is returned as it is.
\<close>

lemma FillStringFromFd_single:
  assumes "back_of_empty pf = 0" and "reads w = RxData bs # RxData [] # r"
    and "bs \<noteq> []" and "length bs \<le> 64" and "0 \<notin> set bs"
  shows "FillStringFromFd pf [] w = (Inr (of_bytes bs), w\<lparr>reads := r\<rparr>)"
proof -
  let ?buf = "replicate 65 0 :: byte list"
  let ?b = "overwrite (overwrite ?buf 0 bs) (length bs) [0]"
  have st: "store (overwrite ?buf 0 bs) (int (length bs)) [0] = Inr ?b"
    using assms(4) by (simp add: store_def)
  have "?b = bs @ 0 # drop (length bs + 1) ?buf"
    using assms(4) overwrite_overwrite_adjacent [of 0 bs "[0]" ?buf] by (simp add: overwrite_zero)
  then have tw: "takeWhile (\<lambda>b. b \<noteq> 0) ?b = bs"
    using takeWhile_c_string [OF assms(5)] by simp
  have "size_of_char pf 0 = 0" using size_of_char_small [of 0 pf] by simp
  then have ins: "insert_at_back pf [] ?b = Inr (of_bytes bs)"
    using assms(1) tw by (simp add: insert_at_back_def)
  have fin: "FillLoop pf ?b (length bs) (of_bytes bs) (w\<lparr>reads := RxData [] # r\<rparr>) =
      (Inr (of_bytes bs), w\<lparr>reads := r\<rparr>)"
    by (subst FillLoop.simps) simp
  show ?thesis
    using assms(2-4) st ins fin
    unfolding FillStringFromFd_def FILLSTRINGFROMFD_BUFSIZE_def
    by (subst FillLoop.simps) (simp add: FILLSTRINGFROMFD_BUFSIZE_def)
qed

text \<open>A read that fills the local array makes the loop write its NUL behind the array.\<close>

lemma FillStringFromFd_overrun:
  assumes "reads w = RxData bs # r" and "65 \<le> length bs"
  shows "fst (FillStringFromFd pf dst w) = Inl Undefined"
proof -
  have "bs \<noteq> []" "length (take 65 bs) = 65" using assms(2) by auto
  moreover have "store (overwrite (replicate 65 0) 0 (take 65 bs)) 65 [0] = Inl Undefined"
    using assms(2) by (simp add: store_def)
  ultimately show ?thesis
    using assms unfolding FillStringFromFd_def FILLSTRINGFROMFD_BUFSIZE_def
    by (subst FillLoop.simps) (simp add: FILLSTRINGFROMFD_BUFSIZE_def min_def)
qed

subsection \<open>Draining\<close>

lemma ClearLoop_data:
  "reads w = RxData bs # r \<Longrightarrow> bs \<noteq> [] \<Longrightarrow> ClearLoop pf w =
   ClearLoop pf (w\<lparr>reads := (if 256 < length bs then RxData (drop 256 bs) # r else r)\<rparr>)"
  by (subst ClearLoop.simps) simp

text \<open>A segment of any length is drained.\<close>

lemma ClearLoop_segment:
  "reads w = RxData bs # r \<Longrightarrow> bs \<noteq> [] \<Longrightarrow> ClearLoop pf w = ClearLoop pf (w\<lparr>reads := r\<rparr>)"
proof (induction "length bs" arbitrary: w bs rule: less_induct)
  case less
  show ?case
  proof (cases "256 < length bs")
    case False
    with less.prems show ?thesis by (simp add: ClearLoop_data)
  next
    case True
    let ?w = "w\<lparr>reads := RxData (drop 256 bs) # r\<rparr>"
    have "ClearLoop pf ?w = ClearLoop pf (?w\<lparr>reads := r\<rparr>)"
      using True less.prems by (intro less.hyps [of "drop 256 bs"]) auto
    with True less.prems show ?thesis by (simp add: ClearLoop_data)
  qed
qed

lemma ClearLoop_ok:
  assumes "\<forall>bs \<in> set segs. bs \<noteq> []" and "reads w = map RxData segs @ RxData [] # r"
  shows "ClearLoop pf w = (Inr (), w\<lparr>reads := r\<rparr>)"
  using assms
proof (induction segs arbitrary: w)
  case Nil
  then show ?case by (subst ClearLoop.simps) simp
next
  case (Cons bs segs)
  then have "ClearLoop pf w = ClearLoop pf (w\<lparr>reads := map RxData segs @ RxData [] # r\<rparr>)"
    by (intro ClearLoop_segment) auto
  with Cons show ?case by simp
qed

text \<open>\<open>ClearPort\<close> leaves no descriptor behind, and touches nothing but the scripts.\<close>

lemma ClearLoop_frame:
  "ClearLoop pf w = (q, w') \<Longrightarrow>
   fds w' = fds w \<and> procs w' = procs w \<and> opens w' = opens w \<and> pipes w' = pipes w \<and> cmds w' = cmds w"
proof (induction pf w rule: ClearLoop.induct)
  case (1 pf w)
  obtain a v where rd: "sys_read 256 w = (a, v)" by fastforce
  then have v: "fds v = fds w" "procs v = procs w" "opens v = opens w" "pipes v = pipes w" "cmds v = cmds w"
    by (auto simp: sys_read_def zoom_def split: prod.splits)
  show ?case
  proof (cases "\<exists>bs. a = Inr (Inr bs) \<and> bs \<noteq> []")
    case False
    with "1.prems" rd v show ?thesis
      by (subst (asm) ClearLoop.simps) (auto split: sum.splits if_splits)
  next
    case True
    then obtain bs where bs: "a = Inr (Inr bs)" "bs \<noteq> []" by blast
    with "1.prems" rd have "ClearLoop pf v = (q, w')"
      by (subst (asm) ClearLoop.simps) simp
    from "1.IH" [OF rd [symmetric] bs(1) refl bs(2) this] v show ?thesis by simp
  qed
qed

lemma ClearPort_ok:
  assumes "opens w = None # o'" and "\<forall>bs \<in> set segs. bs \<noteq> []"
    and "reads w = map RxData segs @ RxData [] # r"
  shows "ClearPort pf path w = (Inr (), w\<lparr>opens := o', reads := r\<rparr>)"
  using ClearLoop_ok [OF assms(2), of "w\<lparr>opens := o', fds := fds w + 1\<rparr>" r pf] assms(1,3)
  by (simp add: ClearPort_def finallyM_def close_fd_def)

lemma ClearPort_frame:
  assumes "ClearPort pf path w = (q, w')"
  shows "procs w' = procs w \<and> cmds w' = cmds w \<and> pipes w' = pipes w \<and>
    ((\<exists>x. q = Inr x) \<or> (\<exists>e. q = Inl (Exn e)) \<longrightarrow> fds w' = fds w)"
  using assms
  by (auto simp: ClearPort_def finallyM_def close_fd_def
      split: list.splits option.splits prod.splits sum.splits dest!: ClearLoop_frame)

section \<open>Properties\<close>

text \<open>An operating system for the concrete runs.\<close>

definition quiet_world :: world where
  "quiet_world = \<lparr>procs = [], reads = [], opens = [], pipes = [], cmds = [], fds = 3\<rparr>"

definition exits_with :: "byte \<Rightarrow> proc_event" where
  "exits_with c = Waited \<lparr>dup2_errno = None, execl_errno = None, script_exit = Exited c\<rparr>"

text \<open>
  C27: \<open>Execute\<close> returns normally exactly when the child it forked was waited for, its output could be
  redirected, the shell could be started, and the script exited with code 0; the command was then
  started, once.
\<close>

theorem Execute_returns_iff:
  "fst (Execute pf cmd redirect closeFd w) = Inr () \<longleftrightarrow>
   (\<exists>ch r. procs w = Waited ch # r \<and> (redirect \<longrightarrow> dup2_errno ch = None) \<and> execl_errno ch = None \<and>
      script_exit ch = Exited 0 \<and> cmds (snd (Execute pf cmd redirect closeFd w)) = cmds w @ [cmd])"
proof
  assume "fst (Execute pf cmd redirect closeFd w) = Inr ()"
  then obtain ch r where "procs w = Waited ch # r" "child_ok redirect ch"
    using Execute_InrD [of pf cmd redirect closeFd w "()"] by (metis prod.collapse)
  with Execute_ok [OF this, of pf cmd closeFd] show "\<exists>ch r. procs w = Waited ch # r \<and>
      (redirect \<longrightarrow> dup2_errno ch = None) \<and> execl_errno ch = None \<and>
      script_exit ch = Exited 0 \<and> cmds (snd (Execute pf cmd redirect closeFd w)) = cmds w @ [cmd]"
    by (auto simp: child_ok_def ExecuteChildRoutine_def start_child_def split: if_splits)
next
  assume "\<exists>ch r. procs w = Waited ch # r \<and> (redirect \<longrightarrow> dup2_errno ch = None) \<and> execl_errno ch = None \<and>
      script_exit ch = Exited 0 \<and> cmds (snd (Execute pf cmd redirect closeFd w)) = cmds w @ [cmd]"
  then obtain ch r where "procs w = Waited ch # r" "child_ok redirect ch"
    by (auto simp: child_ok_def ExecuteChildRoutine_def)
  with Execute_ok [OF this, of pf cmd closeFd] show "fst (Execute pf cmd redirect closeFd w) = Inr ()" by simp
qed

theorem Execute_returns_iff_witness:
  "fst (Execute arm ''true'' True False (quiet_world\<lparr>procs := [exits_with 0]\<rparr>)) = Inr () \<and>
   fst (Execute arm ''false'' True False (quiet_world\<lparr>procs := [exits_with 3]\<rparr>)) \<noteq> Inr ()"
  using Execute_returns_iff [of arm "''true''" True False "quiet_world\<lparr>procs := [exits_with 0]\<rparr>"]
    Execute_returns_iff [of arm "''false''" True False "quiet_world\<lparr>procs := [exits_with 3]\<rparr>"]
    Execute_ok [of "quiet_world\<lparr>procs := [exits_with 0]\<rparr>"]
  by (auto simp: exits_with_def Execute_def check_status_def ExecuteChildRoutine_def start_child_def)



text \<open>
  When the script of \<open>BootloaderFind\<close> prints 65 bytes or more before the pipe is read, the read
  fills the local array and the terminating NUL is written behind it.
\<close>

lemma BootloaderFind_overruns:
  assumes "pipes w = None # ps" and "procs w = Waited ch # r" and "child_ok True ch"
    and "reads w = RxData bs # rs" and "65 \<le> length bs"
  shows "fst (BootloaderFind pf w) = Inl Undefined"
proof -
  let ?w2 = "start_child (PYTHON_RUN pf ''BootloaderFind.py'') True (w\<lparr>pipes := ps, fds := fds w + 2\<rparr>)"
  have "Execute pf (PYTHON_RUN pf ''BootloaderFind.py'') True True (w\<lparr>pipes := ps, fds := fds w + 2\<rparr>) = (Inr (), ?w2)"
    by (rule Execute_ok [where r = r]) (use assms(2,3) in simp_all)
  moreover have "fst (FillStringFromFd pf [] ?w2) = Inl Undefined"
    using assms(4,5) by (intro FillStringFromFd_overrun) (simp_all add: start_child_def)
  ultimately show ?thesis
    using assms(1)
    by (auto simp: BootloaderFind_def sys_pipe_def thenM_def bindM_def split: prod.splits)
qed

text \<open>
  When \<open>fork\<close> fails in \<open>BootloaderFind\<close>, the exception leaves both ends of the pipe open: the
  process has two descriptors more than before.
\<close>

lemma BootloaderFind_leaks:
  assumes "pipes w = None # ps" and "procs w = ForkError e # r"
  shows "\<exists>w'. BootloaderFind pf w = (Inl (throw_errno pf ''Execute'' ''Failed to create child process'' e), w') \<and>
    fds w' = fds w + 2"
  using assms by (simp add: BootloaderFind_def sys_pipe_def Execute_def thenM_def bindM_def)

text \<open>
  \<open>ClearPort\<close> discards everything the device holds, in segments of any size, until the end of the
  stream, and closes the descriptor it opened.
\<close>

lemma ClearPort_drains:
  assumes "opens w = None # o'" and "\<forall>bs \<in> set segs. bs \<noteq> []"
    and "reads w = map RxData segs @ RxData [] # r"
  shows "ClearPort pf path w = (Inr (), w\<lparr>opens := o', reads := r\<rparr>)"
  using ClearPort_ok [OF assms] .


end
