(* ===== verification/Firmware_FSM.thy ===== *)
theory Firmware_FSM
  imports Hw_Utils
begin

text \<open>
  The firmware state machine of \<open>Inc/roki-mb-daemon/FirmwareFSM.hpp\<close> and \<open>Src/FirmwareFSM.cpp\<close>: the
  four states, the transition routine that every hardware operation goes through, and the object
  with its constructor.  The object's mutex is not a field here: this theory runs one operation at
  a time, and \<open>Handler_Threads\<close> splits the operations where the code takes and releases the mutex.
\<close>

section \<open>States and messages\<close>

datatype FWState = Boot | Running | Transition | Fault

fun StateToStr :: "FWState \<Rightarrow> string" where
  "StateToStr Boot = ''Boot''"
| "StateToStr Running = ''Running''"
| "StateToStr Fault = ''Fault''"
| "StateToStr Transition = ''Transition''"

text \<open>
  \<open>FSMException::ComposeMsg\<close>.  With no expected state, \<open>expected.size() - 1\<close> wraps around and the
  loop leaves the vector.
\<close>

definition ComposeMsg :: "string \<Rightarrow> FWState \<Rightarrow> FWState list \<Rightarrow> string result" where
  "ComposeMsg operation got expected =
     (if expected = [] then Inl Undefined
      else Inr (''Inappropriate state for operation \"'' @ operation @ ''\": '' @
        ''Got '' @ StateToStr got @ '','' @ '' Expected one of: '' @
        concat (map (\<lambda>e. StateToStr e @ '', '') (butlast expected)) @ StateToStr (last expected)))"

section \<open>The object\<close>

record fsm =
  State :: FWState
  RoutineName :: string
  MbPort :: string
  OS :: world

record TransitionRoutine =
  rName :: string
  Action :: "(world, unit) prog"
  ExpectedStates :: "FWState list"
  FinalState :: FWState

definition Routines_Empty :: string where
  "Routines_Empty = ''Nothing''"

definition SetState :: "FWState \<Rightarrow> fsm \<Rightarrow> fsm" where
  "SetState st s = s\<lparr>State := st, RoutineName := Routines_Empty\<rparr>"

definition CheckState :: "fsm \<Rightarrow> FWState list \<Rightarrow> bool" where
  "CheckState s expected =
     foldl (\<lambda>passed required. if passed then True else State s = required) False expected"

text \<open>The locked section at the start of \<open>DoTransition\<close>: the new state when the check passed.\<close>

definition enter_transition :: "TransitionRoutine \<Rightarrow> fsm \<Rightarrow> fsm" where
  "enter_transition r s = s\<lparr>State := Transition, RoutineName := rName r\<rparr>"

text \<open>
  The rest of \<open>DoTransition\<close>: the deferred \<open>SetState\<close> runs with \<open>Fault\<close> unless the action returned.
\<close>

definition run_action :: "TransitionRoutine \<Rightarrow> (fsm, unit) prog" where
  "run_action r s = (case Action r (OS s) of
      (Inr u, w) \<Rightarrow> (Inr (), SetState (FinalState r) (s\<lparr>OS := w\<rparr>))
    | (Inl f, w) \<Rightarrow> (Inl f, if unwinds f then SetState Fault (s\<lparr>OS := w\<rparr>) else s\<lparr>OS := w\<rparr>))"

definition DoTransition :: "TransitionRoutine \<Rightarrow> (fsm, unit) prog" where
  "DoTransition r = bindM (getM (\<lambda>s. CheckState s (ExpectedStates r))) (\<lambda>stateOk.
     if stateOk then thenM (modifyM (enter_transition r)) (run_action r)
     else bindM (getM State) (\<lambda>st.
          bindM (liftE (ComposeMsg (rName r) st (ExpectedStates r))) (\<lambda>msg.
          raise (Exn (FSMException msg)))))"

definition GetState :: "fsm \<Rightarrow> FWState" where
  "GetState s = State s"

definition GetPort :: "fsm \<Rightarrow> string" where
  "GetPort s = MbPort s"

definition GetStateDescription :: "fsm \<Rightarrow> string" where
  "GetStateDescription s = (if State s = Transition then RoutineName s else StateToStr (State s))"

section \<open>The operations\<close>

definition ResetChip_routine :: "platform \<Rightarrow> TransitionRoutine" where
  "ResetChip_routine pf = \<lparr>rName = ''Chip reset'', Action = ChipReset pf,
     ExpectedStates = [Boot, Running, Fault], FinalState = Boot\<rparr>"

definition FlashBootlader_routine :: "platform \<Rightarrow> string \<Rightarrow> TransitionRoutine" where
  "FlashBootlader_routine pf firmware = \<lparr>rName = ''Firmware flashing'',
     Action = BootloaderFlash pf firmware, ExpectedStates = [Boot], FinalState = Boot\<rparr>"

definition StartFirmware_routine :: "platform \<Rightarrow> TransitionRoutine" where
  "StartFirmware_routine pf = \<lparr>rName = ''Firmware starting'', Action = BootloaderStart pf,
     ExpectedStates = [Boot], FinalState = Running\<rparr>"

definition ResetChip :: "platform \<Rightarrow> (fsm, unit) prog" where
  "ResetChip pf = DoTransition (ResetChip_routine pf)"

definition FlashBootlader :: "platform \<Rightarrow> string \<Rightarrow> (fsm, unit) prog" where
  "FlashBootlader pf firmware = DoTransition (FlashBootlader_routine pf firmware)"

definition StartFirmware :: "platform \<Rightarrow> (fsm, unit) prog" where
  "StartFirmware pf = DoTransition (StartFirmware_routine pf)"

text \<open>The constructor, on the members as the initializer list leaves them.\<close>

definition fsm_init :: "world \<Rightarrow> fsm" where
  "fsm_init w = \<lparr>State = Boot, RoutineName = Routines_Empty, MbPort = [], OS = w\<rparr>"

definition FirmwareFSM_body :: "platform \<Rightarrow> (fsm, unit) prog" where
  "FirmwareFSM_body pf = thenM (ResetChip pf)
     (bindM (zoom OS (\<lambda>w. OS_update (\<lambda>_. w)) (BootloaderFind pf)) (\<lambda>port.
      modifyM (MbPort_update (\<lambda>_. port))))"

definition FirmwareFSM_new :: "platform \<Rightarrow> world \<Rightarrow> unit result \<times> fsm" where
  "FirmwareFSM_new pf w = FirmwareFSM_body pf (fsm_init w)"

section \<open>Lemmas\<close>

lemma CheckState_eq: "CheckState s expected \<longleftrightarrow> State s \<in> set expected"
proof -
  have "foldl (\<lambda>passed required. if passed then True else State s = required) b expected
      \<longleftrightarrow> b \<or> State s \<in> set expected" for b
    by (induction expected arbitrary: b) auto
  then show ?thesis by (simp add: CheckState_def)
qed

text \<open>The three outcomes of a transition.\<close>

lemma DoTransition_illegal:
  assumes "State s \<notin> set (ExpectedStates r)" and "ExpectedStates r \<noteq> []"
  shows "\<exists>msg. ComposeMsg (rName r) (State s) (ExpectedStates r) = Inr msg \<and>
    DoTransition r s = (Inl (Exn (FSMException msg)), s)"
  using assms by (simp add: DoTransition_def bindM_def CheckState_eq ComposeMsg_def)

lemma DoTransition_success:
  assumes "State s \<in> set (ExpectedStates r)" and "Action r (OS s) = (Inr u, w)"
  shows "DoTransition r s = (Inr (), SetState (FinalState r) (s\<lparr>OS := w\<rparr>))"
  using assms
  by (simp add: DoTransition_def bindM_def thenM_def CheckState_eq run_action_def
      enter_transition_def SetState_def)

lemma DoTransition_failure:
  assumes "State s \<in> set (ExpectedStates r)" and "Action r (OS s) = (Inl f, w)" and "unwinds f"
  shows "DoTransition r s = (Inl f, SetState Fault (s\<lparr>OS := w\<rparr>))"
  using assms
  by (simp add: DoTransition_def bindM_def thenM_def CheckState_eq run_action_def
      enter_transition_def SetState_def)

lemma DoTransition_hangs:
  assumes "State s \<in> set (ExpectedStates r)" and "Action r (OS s) = (Inl f, w)" and "\<not> unwinds f"
  shows "DoTransition r s = (Inl f, (enter_transition r s)\<lparr>OS := w\<rparr>)"
  using assms
  by (simp add: DoTransition_def bindM_def thenM_def CheckState_eq run_action_def enter_transition_def)

text \<open>An object no operation is running on.\<close>

definition fsm_idle :: "fsm \<Rightarrow> bool" where
  "fsm_idle s \<longleftrightarrow> State s \<noteq> Transition \<and> RoutineName s = Routines_Empty"

text \<open>The routines of the three operations, and what they have in common.\<close>

inductive fsm_routine :: "platform \<Rightarrow> TransitionRoutine \<Rightarrow> bool" for pf where
  reset: "fsm_routine pf (ResetChip_routine pf)"
| flash: "fsm_routine pf (FlashBootlader_routine pf firmware)"
| start: "fsm_routine pf (StartFirmware_routine pf)"

lemmas routine_defs = ResetChip_routine_def FlashBootlader_routine_def StartFirmware_routine_def

lemmas operation_defs = ResetChip_def FlashBootlader_def StartFirmware_def

lemma fsm_routine_facts:
  assumes "fsm_routine pf r"
  shows "ExpectedStates r \<noteq> []" and "Transition \<notin> set (ExpectedStates r)"
    and "FinalState r \<noteq> Transition" and "FinalState r \<noteq> Fault"
    and "\<exists>cmd. Action r = Execute pf cmd False False"
  using assms
  by (induction rule: fsm_routine.induct)
    (auto simp: routine_defs ChipReset_def BootloaderFlash_def BootloaderStart_def)

text \<open>
  Whatever the operating system answers, an operation that returns or throws leaves an idle
  object: either in the state it was in, when the operation was refused, or in the final state of
  its routine, or in \<open>Fault\<close>.
\<close>

lemma DoTransition_idle:
  assumes "fsm_routine pf r" and "fsm_idle s" and "DoTransition r s = (q, t)" and "q \<noteq> Inl Block"
  shows "fsm_idle t \<and> (State t = State s \<or> State t = FinalState r \<or> State t = Fault)"
proof (cases "State s \<in> set (ExpectedStates r)")
  case False
  then show ?thesis
    using DoTransition_illegal [OF False fsm_routine_facts(1) [OF assms(1)]] assms(2,3) by auto
next
  case True
  obtain cmd where act: "Action r = Execute pf cmd False False"
    using fsm_routine_facts(5) [OF assms(1)] by blast
  obtain p w where run: "Action r (OS s) = (p, w)" by fastforce
  show ?thesis
  proof (cases p)
    case (Inr u)
    with DoTransition_success [OF True, of u w] run assms(3) fsm_routine_facts(3) [OF assms(1)]
    show ?thesis by (auto simp: fsm_idle_def SetState_def)
  next
    case (Inl f)
    with run act have f: "(\<exists>e. f = Exn e) \<or> f = Unwind \<or> f = Block"
      using Execute_InlD by metis
    show ?thesis
    proof (cases "unwinds f")
      case True
      then show ?thesis
        using DoTransition_failure [OF \<open>State s \<in> _\<close>, of f w] run Inl assms(3)
        by (auto simp: fsm_idle_def SetState_def)
    next
      case False
      with f have "f = Block" by auto
      with DoTransition_hangs [OF \<open>State s \<in> _\<close>, of f w] run Inl False assms(3,4)
      show ?thesis by simp
    qed
  qed
qed

text \<open>The outcomes of an operation that is left, for the components that call it.\<close>

lemma DoTransition_outcomes:
  assumes "fsm_routine pf r" and "fsm_idle s" and "DoTransition r s = (q, t)" and "live q"
  obtains (completed) "q = Inr ()" "State s \<in> set (ExpectedStates r)" "State t = FinalState r" "fsm_idle t"
      "MbPort t = MbPort s"
    | (fault) f where "q = Inl f" "State s \<in> set (ExpectedStates r)" "State t = Fault" "fsm_idle t"
      "MbPort t = MbPort s"
    | (refused) msg where "q = Inl (Exn (FSMException msg))" "State s \<notin> set (ExpectedStates r)" "t = s"
proof (cases "State s \<in> set (ExpectedStates r)")
  case False
  with DoTransition_illegal [OF False fsm_routine_facts(1) [OF assms(1)]] assms(3) refused
  show thesis by auto
next
  case True
  obtain p w where run: "Action r (OS s) = (p, w)" by fastforce
  show thesis
  proof (cases p)
    case (Inr u)
    with DoTransition_success [OF True, of u w] run assms(3) fsm_routine_facts(3) [OF assms(1)] True
    show thesis by (intro completed) (auto simp: fsm_idle_def SetState_def)
  next
    case (Inl f)
    show thesis
    proof (cases "unwinds f")
      case unw: True
      with DoTransition_failure [OF True, of f w] run Inl assms(3) True
      show thesis by (intro fault [of f]) (auto simp: fsm_idle_def SetState_def)
    next
      case False
      with DoTransition_hangs [OF True, of f w] run Inl assms(3,4) show thesis by simp
    qed
  qed
qed

section \<open>Properties\<close>

text \<open>An object in a given state, on a given operating system.\<close>

definition fsm_at :: "FWState \<Rightarrow> world \<Rightarrow> fsm" where
  "fsm_at st w = (fsm_init w)\<lparr>State := st\<rparr>"

lemma fsm_idle_at [simp]: "fsm_idle (fsm_at st w) \<longleftrightarrow> st \<noteq> Transition"
  by (simp add: fsm_idle_def fsm_at_def fsm_init_def)

text \<open>
  C13: A hardware operation in a state that does not allow it is refused with an \<open>FSMException\<close> that
  names the operation, the state and the states it needs; nothing of the object changes and no
  script is started.
\<close>

theorem operation_refused:
  assumes "fsm_routine pf r" and "State s \<notin> set (ExpectedStates r)"
  shows "\<exists>msg. ComposeMsg (rName r) (State s) (ExpectedStates r) = Inr msg \<and>
    DoTransition r s = (Inl (Exn (FSMException msg)), s)"
  using DoTransition_illegal [OF assms(2) fsm_routine_facts(1) [OF assms(1)]] .

theorem operation_refused_witness:
  "DoTransition (FlashBootlader_routine arm ''fw.hex'') (fsm_at Running quiet_world) =
    (Inl (Exn (FSMException ''Inappropriate state for operation \"Firmware flashing\": Got Running, Expected one of: Boot'')),
     fsm_at Running quiet_world)"
  using operation_refused [OF fsm_routine.flash, of "fsm_at Running quiet_world" arm "''fw.hex''"]
  by (auto simp: FlashBootlader_routine_def fsm_at_def ComposeMsg_def)

text \<open>
  C12: A hardware operation that is allowed runs its script; when the script succeeds, the object is in
  the operation's final state, and when anything goes wrong (also a cancellation of the thread), it
  is in \<open>Fault\<close>; in both cases no operation is marked as running.
\<close>

theorem operation_outcome:
  assumes "fsm_routine pf r" and "State s \<in> set (ExpectedStates r)" and "Action r (OS s) = (q, w)" and "live q"
  shows "DoTransition r s = (q, s\<lparr>OS := w, State := (if q = Inr () then FinalState r else Fault),
    RoutineName := Routines_Empty\<rparr>)"
proof (cases q)
  case (Inr u)
  with DoTransition_success [OF assms(2), of u w] assms(3) show ?thesis by (simp add: SetState_def)
next
  case (Inl f)
  with DoTransition_failure [OF assms(2), of f w] assms(3,4) show ?thesis by (simp add: SetState_def)
qed

theorem operation_outcome_witness:
  "State (snd (DoTransition (StartFirmware_routine arm) (fsm_at Boot (quiet_world\<lparr>procs := [exits_with 0]\<rparr>)))) = Running \<and>
   State (snd (DoTransition (StartFirmware_routine arm) (fsm_at Boot (quiet_world\<lparr>procs := [exits_with 1]\<rparr>)))) = Fault"
proof -
  let ?w = "\<lambda>c. quiet_world\<lparr>procs := [exits_with c]\<rparr>" and ?r = "StartFirmware_routine arm"
  have ok: "State (fsm_at Boot w) \<in> set (ExpectedStates ?r)" "OS (fsm_at Boot w) = w" for w
    by (simp_all add: StartFirmware_routine_def fsm_at_def fsm_init_def)
  obtain q0 w0 where 0: "Action ?r (?w 0) = (q0, w0)" by fastforce
  obtain q1 w1 where 1: "Action ?r (?w 1) = (q1, w1)" by fastforce
  have "q0 = Inr ()" "\<exists>e. q1 = Inl (Exn e)"
    using 0 1 by (auto simp: StartFirmware_routine_def BootloaderStart_def Execute_def exits_with_def
        check_status_def ExecuteChildRoutine_def throw_runtime_def)
  with operation_outcome [OF fsm_routine.start ok(1), of "?w 0" q0 w0] 0
    operation_outcome [OF fsm_routine.start ok(1), of "?w 1" q1 w1] 1 ok(2)
  show ?thesis by (auto simp: StartFirmware_routine_def)
qed

text \<open>
  The state machine never sticks in \<open>Transition\<close>: whatever the operating system answers, an
  operation that comes back leaves the object idle, in the state it was in, in the operation's
  final state, or in \<open>Fault\<close>.
\<close>

lemma operation_leaves_idle:
  assumes "fsm_routine pf r" and "fsm_idle s" and "DoTransition r s = (q, t)" and "q \<noteq> Inl Block"
  shows "fsm_idle t \<and> (State t = State s \<or> State t = FinalState r \<or> State t = Fault)"
  using DoTransition_idle [OF assms] .


end
