(* ===== verification/RPC_Defs.thy ===== *)
theory RPC_Defs
  imports Cpp_Memory
begin

text \<open>
  The protocol definitions of \<open>Inc/roki-mb-daemon/RPCDefs.hpp\<close> and \<open>Src/RPCDefs.cpp\<close>: the procedure
  identifiers, the four message structures and their serialization into the package buffer.

  A message structure holds pointers, as in the source: a message about to be sent points at the
  caller's strings, a message that was deserialized points into the package buffer.  \<open>Serialize\<close>
  writes into the buffer at an offset and \<open>Deserialize\<close> reads from a pointer; both move the
  pointer by a \<open>char\<close> (\<open>ptr += GetPackedSize()\<close>), so a platform with signed \<open>char\<close> moves it
  backwards for sizes over 127.  The locale \<open>message_codec\<close> is the contract the transport relies
  on; each message type interprets it.
\<close>

section \<open>Procedure identifiers\<close>

datatype procedure =
    Flash | Start | Connect | Disconnect | Reset | GetStatus | Shutdown | Ping
  | DebugThrow | DebugBlock

instantiation procedure :: enum
begin

definition enum_procedure :: "procedure list" where
  "enum_procedure = [Flash, Start, Connect, Disconnect, Reset, GetStatus, Shutdown, Ping, DebugThrow, DebugBlock]"

definition enum_all_procedure :: "(procedure \<Rightarrow> bool) \<Rightarrow> bool" where
  "enum_all_procedure P \<longleftrightarrow> list_all P enum_class.enum"

definition enum_ex_procedure :: "(procedure \<Rightarrow> bool) \<Rightarrow> bool" where
  "enum_ex_procedure P \<longleftrightarrow> list_ex P enum_class.enum"

lemma all_procedures: "(p :: procedure) \<in> set enum_class.enum"
  by (cases p) (simp_all add: enum_procedure_def)

instance
proof
  show "(UNIV :: procedure set) = set enum_class.enum"
    using all_procedures by auto
  show "distinct (enum_class.enum :: procedure list)"
    by (simp add: enum_procedure_def)
  show "enum_class.enum_all P = Ball (UNIV :: procedure set) P" "enum_class.enum_ex P = Bex (UNIV :: procedure set) P" for P
    using all_procedures by (auto simp: enum_all_procedure_def enum_ex_procedure_def list_all_iff list_ex_iff)
qed

end

definition Error_ID :: byte where
  "Error_ID = 0"

fun ID :: "procedure \<Rightarrow> byte" where
  "ID Flash = 1"
| "ID Start = 2"
| "ID Connect = 3"
| "ID Disconnect = 4"
| "ID Reset = 5"
| "ID GetStatus = 8"
| "ID Shutdown = 9"
| "ID Ping = 10"
| "ID DebugThrow = 11"
| "ID DebugBlock = 12"

definition ToStr :: "platform \<Rightarrow> byte \<Rightarrow> string result" where
  "ToStr pf i =
     (if i = Error_ID then Inr ''Error''
      else if i = ID Flash then Inr ''Flash''
      else if i = ID Start then Inr ''Start''
      else if i = ID Connect then Inr ''Connect''
      else if i = ID Disconnect then Inr ''Disconnect''
      else if i = ID Reset then Inr ''Reset''
      else if i = ID GetStatus then Inr ''GetStatus''
      else if i = ID Shutdown then Inr ''Shutdown''
      else if i = ID Ping then Inr ''Ping''
      else if i = ID DebugThrow then Inr ''DebugThrow''
      else if i = ID DebugBlock then Inr ''DebugBlock''
      else Inl (Exn (RuntimeError (''Unknown procedure id: '' @ show_int (char_val pf i)))))"

section \<open>Message structures\<close>

record msg_string =
  Data :: cptr
  Size :: byte

record msg_user =
  Name :: msg_string
  PID :: "32 word"

record msg_status =
  Description :: msg_string
  Acquired :: bool
  User :: msg_user

section \<open>Sizes\<close>

definition Empty_GetPackedSize :: "unit \<Rightarrow> byte" where
  "Empty_GetPackedSize m = 0"

definition String_GetPackedSize :: "msg_string \<Rightarrow> byte" where
  "String_GetPackedSize m = Size m + 1"

definition UserData_GetPackedSize :: "msg_user \<Rightarrow> byte" where
  "UserData_GetPackedSize m = String_GetPackedSize (Name m) + 4"

definition ChipStatus_GetPackedSize :: "msg_status \<Rightarrow> byte" where
  "ChipStatus_GetPackedSize m =
     String_GetPackedSize (Description m) + 1 + UserData_GetPackedSize (User m)"

section \<open>Serialization\<close>

definition Empty_Serialize :: "platform \<Rightarrow> byte list \<Rightarrow> int \<Rightarrow> unit \<Rightarrow> byte list result" where
  "Empty_Serialize pf buf p m = Inr buf"

definition String_Serialize :: "platform \<Rightarrow> byte list \<Rightarrow> int \<Rightarrow> msg_string \<Rightarrow> byte list result" where
  "String_Serialize pf buf p m =
     (if char_val pf (Size m) < 255 then
        bindE (store buf p [Size m]) (\<lambda>buf.
        bindE (load buf (Data m) (size_of_char pf (Size m))) (\<lambda>bs.
        store buf (p + 1) bs))
      else Inl Assert)"

definition UserData_Serialize :: "platform \<Rightarrow> byte list \<Rightarrow> int \<Rightarrow> msg_user \<Rightarrow> byte list result" where
  "UserData_Serialize pf buf p m =
     bindE (String_Serialize pf buf p (Name m)) (\<lambda>buf.
     store buf (p + char_val pf (String_GetPackedSize (Name m))) (le_bytes 4 (unat (PID m))))"

definition ChipStatus_Serialize :: "platform \<Rightarrow> byte list \<Rightarrow> int \<Rightarrow> msg_status \<Rightarrow> byte list result" where
  "ChipStatus_Serialize pf buf p m =
     bindE (String_Serialize pf buf p (Description m)) (\<lambda>buf.
     let q = p + char_val pf (String_GetPackedSize (Description m)) in
     bindE (store buf q [if Acquired m then 1 else 0]) (\<lambda>buf.
     UserData_Serialize pf buf (q + 1) (User m)))"

section \<open>Deserialization\<close>

definition Empty_Deserialize :: "platform \<Rightarrow> byte list \<Rightarrow> cptr \<Rightarrow> unit result" where
  "Empty_Deserialize pf buf p = (if p = NullPtr then Inl Assert else Inr ())"

definition String_Deserialize :: "platform \<Rightarrow> byte list \<Rightarrow> cptr \<Rightarrow> msg_string result" where
  "String_Deserialize pf buf p =
     (if p = NullPtr then Inl Assert
      else bindE (load_byte buf p) (\<lambda>n. Inr \<lparr>Data = ptr_add p 1, Size = n\<rparr>))"

definition UserData_Deserialize :: "platform \<Rightarrow> byte list \<Rightarrow> cptr \<Rightarrow> msg_user result" where
  "UserData_Deserialize pf buf p =
     bindE (String_Deserialize pf buf p) (\<lambda>name.
     bindE (load buf (ptr_add p (char_val pf (String_GetPackedSize name))) 4) (\<lambda>bs.
     Inr \<lparr>Name = name, PID = word_of_nat (le_nat bs)\<rparr>))"

text \<open>A byte that is neither 0 nor 1 is no value of type \<open>bool\<close>: reading it is undefined.\<close>

definition ChipStatus_Deserialize :: "platform \<Rightarrow> byte list \<Rightarrow> cptr \<Rightarrow> msg_status result" where
  "ChipStatus_Deserialize pf buf p =
     bindE (String_Deserialize pf buf p) (\<lambda>descr.
     let q = ptr_add p (char_val pf (String_GetPackedSize descr)) in
     bindE (load_byte buf q) (\<lambda>b.
     if b \<noteq> 0 \<and> b \<noteq> 1 then Inl Undefined
     else bindE (UserData_Deserialize pf buf (ptr_add q 1)) (\<lambda>user.
     Inr \<lparr>Description = descr, Acquired = (b = 1), User = user\<rparr>)))"

text \<open>
  \<open>ToCxxStr\<close>: a copy of the characters.  A negative \<open>char\<close> as the size converts to more than
  \<open>max_size()\<close>, and the string constructor throws.
\<close>

definition ToCxxStr :: "platform \<Rightarrow> byte list \<Rightarrow> msg_string \<Rightarrow> string result" where
  "ToCxxStr pf buf m =
     (if Data m = NullPtr then Inl (throw_runtime ''ToCxxStr'' ''String data is not defined'')
      else if 2 ^ 63 \<le> size_of_char pf (Size m) then Inl (Exn (LengthError ''basic_string::_M_create''))
      else bindE (load buf (Data m) (size_of_char pf (Size m))) (\<lambda>bs. Inr (of_bytes bs)))"

section \<open>The contract of a message type\<close>

text \<open>
  \<open>enc v\<close> is the byte string a message with content \<open>v\<close> occupies in a package, \<open>msg_of v\<close> the
  structure a caller fills in to send it, \<open>view\<close> the content read back through the pointers of a
  structure that was deserialized.  Within the sizes the platform's \<open>char\<close> keeps, the packed size
  is the length of the encoding, \<open>Serialize\<close> writes exactly the encoding, and \<open>Deserialize\<close>
  applied to a buffer that holds the encoding gives a structure with the same content.
\<close>

locale message_codec =
  fixes packed :: "'m \<Rightarrow> byte"
    and serialize :: "platform \<Rightarrow> byte list \<Rightarrow> int \<Rightarrow> 'm \<Rightarrow> byte list result"
    and deserialize :: "platform \<Rightarrow> byte list \<Rightarrow> cptr \<Rightarrow> 'm result"
    and enc :: "'v \<Rightarrow> byte list"
    and msg_of :: "'v \<Rightarrow> 'm"
    and view :: "platform \<Rightarrow> byte list \<Rightarrow> 'm \<Rightarrow> 'v result"
  assumes packed_enc: "length (enc v) \<le> char_limit pf \<Longrightarrow> packed (msg_of v) = char_of_size (length (enc v))"
    and serialize_enc: "length (enc v) \<le> char_limit pf \<Longrightarrow> i + length (enc v) \<le> length buf \<Longrightarrow>
      serialize pf buf (int i) (msg_of v) = Inr (overwrite buf i (enc v))"
    and deserialize_enc: "length (enc v) \<le> char_limit pf \<Longrightarrow> holds_at buf i (enc v) \<Longrightarrow>
      \<exists>m. deserialize pf buf (Buf (int i)) = Inr m \<and> view pf buf m = Inr v"
begin

text \<open>What was serialized is read back, also on a peer whose \<open>char\<close> has another sign.\<close>

lemma serialize_deserialize:
  assumes "length (enc v) \<le> char_limit pf" and "length (enc v) \<le> char_limit pf'"
    and "i + length (enc v) \<le> length buf"
  shows "\<exists>buf' m. serialize pf buf (int i) (msg_of v) = Inr buf' \<and>
    deserialize pf' buf' (Buf (int i)) = Inr m \<and> view pf' buf' m = Inr v"
proof -
  from assms have "holds_at (overwrite buf i (enc v)) i (enc v)" by simp
  with assms show ?thesis
    using serialize_enc deserialize_enc by blast
qed

text \<open>Two contents with the same encoding are equal.\<close>

lemma enc_inject:
  assumes "enc v = enc w" and "length (enc v) \<le> char_limit pf"
  shows "v = w"
proof -
  let ?buf = "enc v"
  have h: "holds_at ?buf 0 (enc v)" by (simp add: holds_at_def)
  obtain m where m: "deserialize pf ?buf (Buf (int 0)) = Inr m" "view pf ?buf m = Inr v"
    using deserialize_enc [OF assms(2) h] by blast
  obtain n where n: "deserialize pf ?buf (Buf (int 0)) = Inr n" "view pf ?buf n = Inr w"
    using deserialize_enc [of w pf ?buf 0] assms h by metis
  from m n show ?thesis by simp
qed

end

section \<open>The message types meet the contract\<close>

definition enc_empty :: "unit \<Rightarrow> byte list" where
  "enc_empty v = []"

definition enc_string :: "string \<Rightarrow> byte list" where
  "enc_string s = char_of_size (length s) # to_bytes s"

definition enc_user :: "string \<times> 32 word \<Rightarrow> byte list" where
  "enc_user v = enc_string (fst v) @ le_bytes 4 (unat (snd v))"

definition enc_status :: "string \<times> bool \<times> string \<times> 32 word \<Rightarrow> byte list" where
  "enc_status v = enc_string (fst v) @ [if fst (snd v) then 1 else 0] @ enc_user (snd (snd v))"

text \<open>Filling in a structure: \<open>Data = s.c_str(); Size = s.size();\<close>\<close>

definition msg_of_string :: "string \<Rightarrow> msg_string" where
  "msg_of_string s = \<lparr>Data = Ext (c_str s), Size = char_of_size (length s)\<rparr>"

definition msg_of_user :: "string \<times> 32 word \<Rightarrow> msg_user" where
  "msg_of_user v = \<lparr>Name = msg_of_string (fst v), PID = snd v\<rparr>"

definition msg_of_status :: "string \<times> bool \<times> string \<times> 32 word \<Rightarrow> msg_status" where
  "msg_of_status v = \<lparr>Description = msg_of_string (fst v), Acquired = fst (snd v),
     User = msg_of_user (snd (snd v))\<rparr>"

definition view_user :: "platform \<Rightarrow> byte list \<Rightarrow> msg_user \<Rightarrow> (string \<times> 32 word) result" where
  "view_user pf buf m = bindE (ToCxxStr pf buf (Name m)) (\<lambda>n. Inr (n, PID m))"

definition view_status ::
    "platform \<Rightarrow> byte list \<Rightarrow> msg_status \<Rightarrow> (string \<times> bool \<times> string \<times> 32 word) result" where
  "view_status pf buf m = bindE (ToCxxStr pf buf (Description m)) (\<lambda>d.
     bindE (view_user pf buf (User m)) (\<lambda>u. Inr (d, Acquired m, u)))"

lemma length_enc_string [simp]: "length (enc_string s) = Suc (length s)"
  by (simp add: enc_string_def)

lemma length_enc_user [simp]: "length (enc_user v) = length (fst v) + 5"
  by (simp add: enc_user_def)

lemma length_enc_status [simp]:
  "length (enc_status v) = length (fst v) + length (fst (snd (snd v))) + 7"
  by (simp add: enc_status_def)

lemma packed_msg_of_string [simp]: "String_GetPackedSize (msg_of_string s) = char_of_size (Suc (length s))"
  by (simp add: String_GetPackedSize_def msg_of_string_def char_of_size_def)

text \<open>The exact conditions of the string step, with every branch, for the other message types.\<close>

lemma String_Serialize_ok [simp]:
  assumes "length s < char_limit pf" and "i + Suc (length s) \<le> length buf"
  shows "String_Serialize pf buf (int i) (msg_of_string s) = Inr (overwrite buf i (enc_string s))"
proof -
  have l: "length s < 255" using assms(1) char_limit_le(1) [of pf] by linarith
  then have sz: "unat (char_of_size (length s)) = length s" by simp
  have fits: "unat (char_of_size (length s)) \<le> char_limit pf" using assms(1) sz by simp
  have b: "store buf (int i) [char_of_size (length s)] = Inr (overwrite buf i [char_of_size (length s)])"
    using assms(2) by simp
  have c: "store (overwrite buf i [char_of_size (length s)]) (int i + 1) (to_bytes s) =
      Inr (overwrite buf i (enc_string s))"
    using assms(2) store_ok [of "Suc i" "to_bytes s" "overwrite buf i [char_of_size (length s)]"]
      overwrite_overwrite_adjacent [of i "[char_of_size (length s)]" "to_bytes s" buf]
    by (simp add: enc_string_def add.commute)
  have v: "char_val pf (char_of_size (length s)) = int (length s)"
    using char_val_fits [OF fits] sz by simp
  have w: "size_of_char pf (char_of_size (length s)) = length s"
    using size_of_char_fits [OF fits] sz by simp
  show ?thesis using l b c v w by (simp add: String_Serialize_def msg_of_string_def)
qed

lemma char_val_Suc_length:
  "length s < char_limit pf \<Longrightarrow> char_val pf (char_of_size (Suc (length s))) = int (Suc (length s))"
proof -
  assume a: "length s < char_limit pf"
  then have "Suc (length s) < 256" using char_limit_le(1) [of pf] by linarith
  then have "unat (char_of_size (Suc (length s))) = Suc (length s)" by simp
  with a show ?thesis using char_val_fits [of "char_of_size (Suc (length s))" pf] by simp
qed

lemma UserData_Serialize_ok [simp]:
  assumes "length (fst v) < char_limit pf" and "i + length (enc_user v) \<le> length buf"
  shows "UserData_Serialize pf buf (int i) (msg_of_user v) = Inr (overwrite buf i (enc_user v))"
proof -
  let ?buf = "overwrite buf i (enc_string (fst v))"
  have "store ?buf (int (i + Suc (length (fst v)))) (le_bytes 4 (unat (snd v))) =
      Inr (overwrite buf i (enc_user v))"
    using assms(2) overwrite_overwrite_adjacent [of i "enc_string (fst v)" "le_bytes 4 (unat (snd v))" buf]
    by (simp add: enc_user_def del: of_nat_add of_nat_Suc)
  then show ?thesis
    using assms char_val_Suc_length [of "fst v" pf]
    by (simp add: UserData_Serialize_def msg_of_user_def add_ac)
qed

lemma ChipStatus_Serialize_ok [simp]:
  assumes "length (fst v) < char_limit pf" and "length (fst (snd (snd v))) < char_limit pf"
    and "i + length (enc_status v) \<le> length buf"
  shows "ChipStatus_Serialize pf buf (int i) (msg_of_status v) = Inr (overwrite buf i (enc_status v))"
proof -
  let ?d = "enc_string (fst v)" and ?a = "[if fst (snd v) then 1 else 0 :: byte]"
  let ?q = "i + Suc (length (fst v))"
  have 1: "store (overwrite buf i ?d) (int ?q) ?a = Inr (overwrite buf i (?d @ ?a))"
    using assms(3) overwrite_overwrite_adjacent [of i ?d ?a buf]
    by (simp del: of_nat_add of_nat_Suc)
  have 2: "UserData_Serialize pf (overwrite buf i (?d @ ?a)) (int (Suc ?q)) (msg_of_user (snd (snd v))) =
      Inr (overwrite buf i (enc_status v))"
    using assms(2,3) overwrite_overwrite_adjacent [of i "?d @ ?a" "enc_user (snd (snd v))" buf]
    by (simp add: enc_status_def del: of_nat_add of_nat_Suc)
  show ?thesis
    using assms 1 2 char_val_Suc_length [of "fst v" pf]
    by (simp add: ChipStatus_Serialize_def msg_of_status_def add_ac Let_def)
qed

lemma String_Deserialize_ok:
  assumes "length s < char_limit pf" and "holds_at buf i (enc_string s)"
  shows "\<exists>m. String_Deserialize pf buf (Buf (int i)) = Inr m \<and>
    ToCxxStr pf buf m = Inr s \<and> char_val pf (String_GetPackedSize m) = int (Suc (length s))"
proof -
  let ?n = "char_of_size (length s)"
  let ?m = "\<lparr>Data = Buf (int i + 1), Size = ?n\<rparr>"
  have l: "length s < 255" using assms(1) char_limit_le(1) [of pf] by linarith
  then have sz: "unat ?n = length s" by simp
  have h: "holds_at buf i [?n]" "holds_at buf (Suc i) (to_bytes s)"
    using assms(2) holds_at_Cons [of buf i ?n "to_bytes s"] by (simp_all add: enc_string_def)
  have 1: "String_Deserialize pf buf (Buf (int i)) = Inr ?m"
    using load_byte_holds_at [OF h(1)] by (simp add: String_Deserialize_def)
  have w: "size_of_char pf ?n = length s" using size_of_char_fits [of ?n pf] assms(1) sz by simp
  have 2: "ToCxxStr pf buf ?m = Inr s"
    using l w load_holds_at [OF h(2), of "length s"] by (simp add: ToCxxStr_def add.commute)
  have 3: "String_GetPackedSize ?m = char_of_size (Suc (length s))"
    by (simp add: String_GetPackedSize_def char_of_size_def)
  show ?thesis using 1 2 3 char_val_Suc_length [OF assms(1)] by metis
qed

lemma UserData_Deserialize_ok:
  assumes "length (fst v) < char_limit pf" and "holds_at buf i (enc_user v)"
  shows "\<exists>m. UserData_Deserialize pf buf (Buf (int i)) = Inr m \<and> view_user pf buf m = Inr v"
proof -
  have h: "holds_at buf i (enc_string (fst v))"
    "holds_at buf (i + Suc (length (fst v))) (le_bytes 4 (unat (snd v)))"
    using assms(2) holds_at_append [of buf i "enc_string (fst v)"] by (simp_all add: enc_user_def)
  obtain m where m: "String_Deserialize pf buf (Buf (int i)) = Inr m" "ToCxxStr pf buf m = Inr (fst v)"
    "char_val pf (String_GetPackedSize m) = int (Suc (length (fst v)))"
    using String_Deserialize_ok [OF assms(1) h(1)] by blast
  have "load buf (Buf (int i + int (Suc (length (fst v))))) 4 = Inr (le_bytes 4 (unat (snd v)))"
    using load_holds_at [OF h(2), of 4] by (simp add: add_ac)
  moreover have "(word_of_nat (le_nat (le_bytes 4 (unat (snd v)))) :: 32 word) = snd v"
    using unsigned_less [where 'a = nat, of "snd v"] by (simp add: le_nat_le_bytes)
  ultimately show ?thesis
    using m by (cases v) (simp add: UserData_Deserialize_def view_user_def)
qed

lemma ChipStatus_Deserialize_ok:
  assumes "length (fst v) < char_limit pf" and "length (fst (snd (snd v))) < char_limit pf"
    and "holds_at buf i (enc_status v)"
  shows "\<exists>m. ChipStatus_Deserialize pf buf (Buf (int i)) = Inr m \<and> view_status pf buf m = Inr v"
proof -
  let ?q = "i + Suc (length (fst v))" and ?b = "if fst (snd v) then 1 else 0 :: byte"
  have h: "holds_at buf i (enc_string (fst v))" "holds_at buf ?q [?b]"
    "holds_at buf (Suc ?q) (enc_user (snd (snd v)))"
    using assms(3) holds_at_append [of buf i "enc_string (fst v)"]
      holds_at_Cons [of buf ?q ?b "enc_user (snd (snd v))"]
    by (simp_all add: enc_status_def)
  obtain m where m: "String_Deserialize pf buf (Buf (int i)) = Inr m" "ToCxxStr pf buf m = Inr (fst v)"
    "char_val pf (String_GetPackedSize m) = int (Suc (length (fst v)))"
    using String_Deserialize_ok [OF assms(1) h(1)] by blast
  have b: "load_byte buf (Buf (int i + int (Suc (length (fst v))))) = Inr ?b"
    using load_byte_holds_at [OF h(2)] by (simp only: of_nat_add)
  obtain u where u: "UserData_Deserialize pf buf (Buf (int i + int (Suc (length (fst v))) + 1)) = Inr u"
    "view_user pf buf u = Inr (snd (snd v))"
    using UserData_Deserialize_ok [OF assms(2) h(3)] by (metis of_nat_add of_nat_Suc add.commute add.assoc)
  show ?thesis
    using m b u by (cases v) (auto simp: ChipStatus_Deserialize_def view_status_def Let_def)
qed

interpretation empty_codec: message_codec Empty_GetPackedSize Empty_Serialize Empty_Deserialize
  enc_empty "\<lambda>v. v" "\<lambda>pf buf m. Inr m"
  by unfold_locales
    (simp_all add: Empty_GetPackedSize_def Empty_Serialize_def Empty_Deserialize_def enc_empty_def
      char_of_size_def)

interpretation string_codec: message_codec String_GetPackedSize String_Serialize String_Deserialize
  enc_string msg_of_string ToCxxStr
proof unfold_locales
  fix v pf buf i
  assume "length (enc_string v) \<le> char_limit pf" and "holds_at buf i (enc_string v)"
  then show "\<exists>m. String_Deserialize pf buf (Buf (int i)) = Inr m \<and> ToCxxStr pf buf m = Inr v"
    using String_Deserialize_ok [of v pf buf i] by auto
qed simp_all

lemma packed_msg_of_user [simp]:
  "UserData_GetPackedSize (msg_of_user v) = char_of_size (length (fst v) + 5)"
  by (simp add: UserData_GetPackedSize_def msg_of_user_def char_of_size_def add_ac)

lemma packed_msg_of_status [simp]:
  "ChipStatus_GetPackedSize (msg_of_status v) =
   char_of_size (length (fst v) + length (fst (snd (snd v))) + 7)"
  by (simp add: ChipStatus_GetPackedSize_def msg_of_status_def char_of_size_def add_ac)

interpretation user_codec: message_codec UserData_GetPackedSize UserData_Serialize UserData_Deserialize
  enc_user msg_of_user view_user
  using UserData_Deserialize_ok by unfold_locales auto

interpretation status_codec: message_codec ChipStatus_GetPackedSize ChipStatus_Serialize
  ChipStatus_Deserialize enc_status msg_of_status view_status
  using ChipStatus_Deserialize_ok by unfold_locales auto

end
