(* ===== verification/Handler_Impl.thy ===== *)
theory Handler_Impl
  imports Firmware_FSM RPC_Defs
begin

text \<open>
  The request handlers of \<open>Inc/roki-mb-daemon/HandlerImpl.hpp\<close>, \<open>Src/HandlerImpl.cpp\<close> and
  \<open>Src/HandlerMock.cpp\<close>, and the interface \<open>IHandler\<close> of \<open>Server.hpp\<close> they implement.

  The interface is a record of functions over the handler's state, one per procedure of
  \<open>Procedures.list\<close>; a response is an option, \<open>None\<close> for a null \<open>unique_ptr\<close>.  Requests that hold
  pointers are read in the package buffer, which is an argument of the call.
\<close>

section \<open>The interface\<close>

record 'h IHandler =
  iGetStatus :: "('h, msg_status option) prog"
  iFlash :: "byte list \<Rightarrow> msg_string \<Rightarrow> ('h, unit option) prog"
  iStart :: "('h, unit option) prog"
  iReset :: "('h, unit option) prog"
  iConnect :: "byte list \<Rightarrow> msg_user \<Rightarrow> ('h, msg_string option) prog"
  iDisconnect :: "('h, unit option) prog"

section \<open>HandlerImpl\<close>

record handler =
  Firmware :: fsm
  hAcquired :: bool
  hUserName :: string
  hUserPid :: "32 word"

definition with_firmware :: "(fsm, 'a) prog \<Rightarrow> (handler, 'a) prog" where
  "with_firmware = zoom Firmware (\<lambda>f. Firmware_update (\<lambda>_. f))"

definition with_os :: "(world, 'a) prog \<Rightarrow> (handler, 'a) prog" where
  "with_os m = with_firmware (zoom OS (\<lambda>w. OS_update (\<lambda>_. w)) m)"

definition HandlerImpl_GetStatus :: "(handler, msg_status option) prog" where
  "HandlerImpl_GetStatus = getM (\<lambda>h. Some (msg_of_status
     (GetStateDescription (Firmware h), hAcquired h, hUserName h, hUserPid h)))"

definition acquired_msg :: "string \<Rightarrow> string \<Rightarrow> 32 word \<Rightarrow> string" where
  "acquired_msg procName user pid =
     ''Can'' @ [CHR 0x27] @ ''t do '' @ procName @ '': Port is acquired by '' @ user @
     '' at PID '' @ show_int (sint pid)"

definition EnsureNotAcquired :: "string \<Rightarrow> (handler, unit) prog" where
  "EnsureNotAcquired procName = bindM (getM (\<lambda>h. h)) (\<lambda>h.
     if hAcquired h
     then raise (Exn (RuntimeError (acquired_msg procName (hUserName h) (hUserPid h))))
     else ret ())"

definition HandlerImpl_Flash :: "platform \<Rightarrow> byte list \<Rightarrow> msg_string \<Rightarrow> (handler, unit option) prog" where
  "HandlerImpl_Flash pf mem path =
     thenM (EnsureNotAcquired ''Flash'')
    (bindM (liftE (ToCxxStr pf mem path)) (\<lambda>firmware.
     thenM (with_firmware (FlashBootlader pf firmware)) (ret (Some ()))))"

definition HandlerImpl_Start :: "platform \<Rightarrow> (handler, unit option) prog" where
  "HandlerImpl_Start pf = thenM (with_firmware (StartFirmware pf)) (ret (Some ()))"

definition HandlerImpl_Reset :: "platform \<Rightarrow> (handler, unit option) prog" where
  "HandlerImpl_Reset pf =
     thenM (EnsureNotAcquired ''Reset'')
    (thenM (with_firmware (ResetChip pf)) (ret (Some ())))"

definition HandlerImpl_Connect :: "platform \<Rightarrow> byte list \<Rightarrow> msg_user \<Rightarrow> (handler, msg_string option) prog" where
  "HandlerImpl_Connect pf mem userData =
     thenM (EnsureNotAcquired ''Connect'')
    (bindM (getM (\<lambda>h. GetState (Firmware h))) (\<lambda>st.
     if st \<noteq> Running
     then raise (Exn (RuntimeError (''Can'' @ [CHR 0x27] @ ''t connect: firmware is not started'')))
     else bindM (getM (\<lambda>h. GetPort (Firmware h))) (\<lambda>path.
          thenM (with_os (ClearPort pf path))
         (bindM (liftE (ToCxxStr pf mem (Name userData))) (\<lambda>user.
          thenM (modifyM (\<lambda>h. h\<lparr>hUserName := user, hUserPid := PID userData, hAcquired := True\<rparr>))
         (ret (Some (msg_of_string path))))))))"

definition HandlerImpl_Disconnect :: "(handler, unit option) prog" where
  "HandlerImpl_Disconnect = bindM (getM hAcquired) (\<lambda>acq.
     if \<not> acq then raise (Exn (RuntimeError ''Port is not acquired''))
     else thenM (modifyM (hAcquired_update (\<lambda>_. False))) (ret (Some ())))"

definition HandlerImpl :: "platform \<Rightarrow> handler IHandler" where
  "HandlerImpl pf = \<lparr>iGetStatus = HandlerImpl_GetStatus, iFlash = HandlerImpl_Flash pf,
     iStart = HandlerImpl_Start pf, iReset = HandlerImpl_Reset pf,
     iConnect = HandlerImpl_Connect pf, iDisconnect = HandlerImpl_Disconnect\<rparr>"

text \<open>The constructor: the members' initializers, the firmware object built first.\<close>

definition HandlerImpl_new :: "platform \<Rightarrow> world \<Rightarrow> unit result \<times> handler" where
  "HandlerImpl_new pf w = (case FirmwareFSM_new pf w of (r, f) \<Rightarrow>
     (r, \<lparr>Firmware = f, hAcquired = False, hUserName = [], hUserPid = - 1\<rparr>))"

section \<open>HandlerMock\<close>

text \<open>Every procedure of the mock is \<open>return {};\<close>.\<close>

definition HandlerMock :: "'h IHandler" where
  "HandlerMock = \<lparr>iGetStatus = ret None, iFlash = (\<lambda>mem path. ret None), iStart = ret None,
     iReset = ret None, iConnect = (\<lambda>mem user. ret None), iDisconnect = ret None\<rparr>"

section \<open>The invariant of the handler\<close>

text \<open>
  Between two requests no hardware routine is running, and the port is held only while the
  firmware runs.
\<close>

definition handler_inv :: "handler \<Rightarrow> bool" where
  "handler_inv h \<longleftrightarrow> fsm_idle (Firmware h) \<and> (hAcquired h \<longrightarrow> State (Firmware h) = Running)"

lemma with_firmware_apply:
  "m (Firmware h) = (r, f) \<Longrightarrow> with_firmware m h = (r, h\<lparr>Firmware := f\<rparr>)"
  by (simp add: with_firmware_def zoom_def)

lemma with_os_apply:
  "m (OS (Firmware h)) = (r, w) \<Longrightarrow> with_os m h = (r, h\<lparr>Firmware := (Firmware h)\<lparr>OS := w\<rparr>\<rparr>)"
  by (simp add: with_os_def with_firmware_def zoom_def)

lemma EnsureNotAcquired_free [simp]: "\<not> hAcquired h \<Longrightarrow> EnsureNotAcquired p h = (Inr (), h)"
  by (simp add: EnsureNotAcquired_def bindM_def)

lemma EnsureNotAcquired_held [simp]:
  "hAcquired h \<Longrightarrow> EnsureNotAcquired p h =
   (Inl (Exn (RuntimeError (acquired_msg p (hUserName h) (hUserPid h)))), h)"
  by (simp add: EnsureNotAcquired_def bindM_def)

section \<open>What the handler promises: port arbitration\<close>

text \<open>
  The abstract view: who holds the port, and the state of the chip.  One step per kind of outcome
  of a request.
\<close>

type_synonym user = "string \<times> 32 word"

record arbiter =
  holder :: "user option"
  chip :: FWState

datatype arb_event = Granted user | Released | Flashed | Started | WasReset | Observed | Failed

inductive arb_step :: "arbiter \<Rightarrow> arb_event \<Rightarrow> arbiter \<Rightarrow> bool" where
  granted: "holder a = None \<Longrightarrow> chip a = Running \<Longrightarrow> arb_step a (Granted u) (a\<lparr>holder := Some u\<rparr>)"
| released: "holder a = Some u \<Longrightarrow> arb_step a Released (a\<lparr>holder := None\<rparr>)"
| flashed: "holder a = None \<Longrightarrow> chip a = Boot \<Longrightarrow> arb_step a Flashed a"
| started: "holder a = None \<Longrightarrow> chip a = Boot \<Longrightarrow> arb_step a Started (a\<lparr>chip := Running\<rparr>)"
| was_reset: "holder a = None \<Longrightarrow> chip a \<noteq> Transition \<Longrightarrow> arb_step a WasReset (a\<lparr>chip := Boot\<rparr>)"
| observed: "arb_step a Observed a"
| refused: "arb_step a Failed a"
| hw_fault: "holder a = None \<Longrightarrow> chip a \<noteq> Transition \<Longrightarrow> arb_step a Failed (a\<lparr>chip := Fault\<rparr>)"

inductive_simps arb_step_iffs:
  "arb_step a (Granted u) b"
  "arb_step a Released b"
  "arb_step a Flashed b"
  "arb_step a Started b"
  "arb_step a WasReset b"
  "arb_step a Observed b"
  "arb_step a Failed b"

text \<open>A request as the server hands it to the interface.\<close>

datatype request =
    RGetStatus
  | RFlash "byte list" msg_string
  | RStart
  | RReset
  | RConnect "byte list" msg_user
  | RDisconnect

fun handle :: "'h IHandler \<Rightarrow> request \<Rightarrow> ('h, unit) prog" where
  "handle I RGetStatus = thenM (iGetStatus I) (ret ())"
| "handle I (RFlash mem path) = thenM (iFlash I mem path) (ret ())"
| "handle I RStart = thenM (iStart I) (ret ())"
| "handle I RReset = thenM (iReset I) (ret ())"
| "handle I (RConnect mem user) = thenM (iConnect I mem user) (ret ())"
| "handle I RDisconnect = thenM (iDisconnect I) (ret ())"

text \<open>Serving a list of requests until one of them does not come back.\<close>

fun serve :: "(request \<Rightarrow> ('h, unit) prog) \<Rightarrow> (request \<Rightarrow> unit result \<Rightarrow> 'h \<Rightarrow> 'e) \<Rightarrow>
    request list \<Rightarrow> 'h \<Rightarrow> 'e list \<times> 'h" where
  "serve call event [] h = ([], h)"
| "serve call event (rq # rqs) h =
     (case call rq h of (q, h1) \<Rightarrow>
        if live q then (case serve call event rqs h1 of (es, h2) \<Rightarrow> (event rq q h1 # es, h2))
        else ([], h1))"

text \<open>
  Exclusive use of the port, on the events alone: no second grant before a release, no release
  without a grant, and no hardware operation completes while the port is held.
\<close>

fun exclusive :: "bool \<Rightarrow> arb_event list \<Rightarrow> bool" where
  "exclusive held [] = True"
| "exclusive held (Granted u # es) = (\<not> held \<and> exclusive True es)"
| "exclusive held (Released # es) = (held \<and> exclusive False es)"
| "exclusive held (Observed # es) = exclusive held es"
| "exclusive held (Failed # es) = exclusive held es"
| "exclusive held (e # es) = (\<not> held \<and> exclusive held es)"

locale port_arbiter =
  fixes call :: "request \<Rightarrow> ('h, unit) prog"
    and event :: "request \<Rightarrow> unit result \<Rightarrow> 'h \<Rightarrow> arb_event"
    and inv :: "'h \<Rightarrow> bool"
    and arb :: "'h \<Rightarrow> arbiter"
  assumes call_inv: "inv h \<Longrightarrow> call rq h = (q, h') \<Longrightarrow> live q \<Longrightarrow> inv h'"
    and call_step: "inv h \<Longrightarrow> call rq h = (q, h') \<Longrightarrow> live q \<Longrightarrow> arb_step (arb h) (event rq q h') (arb h')"
begin

lemma serve_exclusive:
  "inv h \<Longrightarrow> serve call event rqs h = (es, h') \<Longrightarrow> exclusive (holder (arb h) \<noteq> None) es"
proof (induction rqs arbitrary: h es h')
  case Nil
  then show ?case by simp
next
  case (Cons rq rqs)
  obtain q h1 where run: "call rq h = (q, h1)" by fastforce
  show ?case
  proof (cases "live q")
    case False
    with Cons.prems(2) run show ?thesis by simp
  next
    case True
    obtain fs h2 where rest: "serve call event rqs h1 = (fs, h2)" by fastforce
    with Cons.prems(2) run True have es: "es = event rq q h1 # fs" by simp
    have "exclusive (holder (arb h1) \<noteq> None) fs"
      using Cons.IH [OF call_inv [OF Cons.prems(1) run True] rest] .
    moreover have "arb_step (arb h) (event rq q h1) (arb h1)"
      using call_step [OF Cons.prems(1) run True] .
    ultimately show ?thesis unfolding es
      by (cases "event rq q h1") (auto simp: arb_step_iffs)
  qed
qed

end

section \<open>HandlerImpl keeps the promise\<close>

definition arb_of :: "handler \<Rightarrow> arbiter" where
  "arb_of h = \<lparr>holder = (if hAcquired h then Some (hUserName h, hUserPid h) else None),
     chip = State (Firmware h)\<rparr>"

fun handler_event :: "request \<Rightarrow> unit result \<Rightarrow> handler \<Rightarrow> arb_event" where
  "handler_event rq (Inl f) h = Failed"
| "handler_event RGetStatus (Inr u) h = Observed"
| "handler_event (RFlash mem path) (Inr u) h = Flashed"
| "handler_event RStart (Inr u) h = Started"
| "handler_event RReset (Inr u) h = WasReset"
| "handler_event (RConnect mem user) (Inr u) h = Granted (hUserName h, hUserPid h)"
| "handler_event RDisconnect (Inr u) h = Released"

text \<open>One hardware operation of the handler, which needs the port to be free.\<close>

lemma firmware_step:
  assumes "handler_inv h" and "fsm_routine pf r" and "\<not> hAcquired h"
    and "with_firmware (DoTransition r) h = (q, h')" and "live q"
  shows "handler_inv h' \<and> \<not> hAcquired h' \<and>
    ((\<exists>f. q = Inl f) \<and> arb_step (arb_of h) Failed (arb_of h') \<or>
     q = Inr () \<and> State (Firmware h) \<in> set (ExpectedStates r) \<and>
       arb_of h' = (arb_of h)\<lparr>chip := FinalState r\<rparr>)"
proof -
  obtain g where g: "DoTransition r (Firmware h) = (q, g)" and h': "h' = h\<lparr>Firmware := g\<rparr>"
    using assms(4) with_firmware_apply by (cases "DoTransition r (Firmware h)") fastforce
  have idle: "fsm_idle (Firmware h)" using assms(1) by (simp add: handler_inv_def)
  have chip: "chip (arb_of h) \<noteq> Transition" using idle by (simp add: arb_of_def fsm_idle_def)
  have free: "holder (arb_of h) = None" using assms(3) by (simp add: arb_of_def)
  from assms(2) idle g assms(5) show ?thesis
  proof (cases rule: DoTransition_outcomes)
    case completed
    then show ?thesis using h' assms(3) by (auto simp: handler_inv_def arb_of_def)
  next
    case (fault f)
    then have "arb_of h' = (arb_of h)\<lparr>chip := Fault\<rparr>" using h' by (simp add: arb_of_def)
    with fault show ?thesis using h' assms(3) arb_step.hw_fault [OF free chip]
      by (auto simp: handler_inv_def)
  next
    case (refused msg)
    then show ?thesis using h' assms(1,3) by (auto simp: arb_step.refused)
  qed
qed

text \<open>The requests, without the response they build.\<close>

lemma thenM_ret_unit: "thenM (thenM m (ret x)) (ret ()) = (m :: ('s, unit) prog)"
  by (rule ext) (auto simp: thenM_def bindM_def split: prod.splits sum.splits)

lemma handle_Start: "handle (HandlerImpl pf) RStart = with_firmware (DoTransition (StartFirmware_routine pf))"
  by (simp add: HandlerImpl_def HandlerImpl_Start_def StartFirmware_def thenM_ret_unit)

lemma handle_held:
  assumes "hAcquired h"
  shows "\<exists>e. handle (HandlerImpl pf) RReset h = (Inl (Exn e), h)"
    and "\<exists>e. handle (HandlerImpl pf) (RFlash mem path) h = (Inl (Exn e), h)"
    and "\<exists>e. handle (HandlerImpl pf) (RConnect mem user) h = (Inl (Exn e), h)"
  using assms
  by (simp_all add: HandlerImpl_def HandlerImpl_Reset_def HandlerImpl_Flash_def HandlerImpl_Connect_def
      thenM_def bindM_def)

lemma handle_Reset_free:
  assumes "\<not> hAcquired h"
  shows "handle (HandlerImpl pf) RReset h = with_firmware (DoTransition (ResetChip_routine pf)) h"
proof -
  have "handle (HandlerImpl pf) RReset h =
      thenM (thenM (with_firmware (DoTransition (ResetChip_routine pf))) (ret (Some ()))) (ret ()) h"
    using assms by (simp add: HandlerImpl_def HandlerImpl_Reset_def ResetChip_def thenM_def bindM_def)
  then show ?thesis by (simp only: thenM_ret_unit)
qed

lemma handle_Flash_free:
  assumes "\<not> hAcquired h"
  shows "handle (HandlerImpl pf) (RFlash mem path) h = (case ToCxxStr pf mem path of
      Inl f \<Rightarrow> (Inl f, h)
    | Inr firmware \<Rightarrow> with_firmware (DoTransition (FlashBootlader_routine pf firmware)) h)"
proof (cases "ToCxxStr pf mem path")
  case (Inl f)
  then show ?thesis
    using assms by (simp add: HandlerImpl_def HandlerImpl_Flash_def thenM_def bindM_def)
next
  case (Inr fw)
  then have "handle (HandlerImpl pf) (RFlash mem path) h =
      thenM (thenM (with_firmware (DoTransition (FlashBootlader_routine pf fw))) (ret (Some ()))) (ret ()) h"
    using assms
    by (simp add: HandlerImpl_def HandlerImpl_Flash_def FlashBootlader_def thenM_def bindM_def)
  with Inr show ?thesis by (simp only: thenM_ret_unit sum.case)
qed

text \<open>\<open>Connect\<close> on a free port: the three ways it can end that let the handler go on.\<close>

lemma handle_Connect_free:
  assumes "\<not> hAcquired h" and "handle (HandlerImpl pf) (RConnect mem user) h = (q, h')" and "live q"
  shows "(\<exists>f w. q = Inl f \<and> h' = h\<lparr>Firmware := (Firmware h)\<lparr>OS := w\<rparr>\<rparr>) \<or>
    State (Firmware h) = Running \<and> q = Inr () \<and>
    (\<exists>w name. ToCxxStr pf mem (Name user) = Inr name \<and> h' = h\<lparr>Firmware := (Firmware h)\<lparr>OS := w\<rparr>,
       hUserName := name, hUserPid := PID user, hAcquired := True\<rparr>)"
proof (cases "State (Firmware h) = Running")
  case False
  then show ?thesis using assms
    by (auto simp: HandlerImpl_def HandlerImpl_Connect_def thenM_def bindM_def GetState_def
        intro!: exI [of _ "OS (Firmware h)"])
next
  case True
  obtain p w where clear: "ClearPort pf (GetPort (Firmware h)) (OS (Firmware h)) = (p, w)" by fastforce
  then have "with_os (ClearPort pf (GetPort (Firmware h))) h =
      (p, h\<lparr>Firmware := (Firmware h)\<lparr>OS := w\<rparr>\<rparr>)" by (rule with_os_apply)
  then show ?thesis using assms True
    by (auto simp: HandlerImpl_def HandlerImpl_Connect_def thenM_def bindM_def GetState_def
        split: sum.splits)
qed

lemma handle_Disconnect:
  "handle (HandlerImpl pf) RDisconnect h =
   (if hAcquired h then (Inr (), h\<lparr>hAcquired := False\<rparr>)
    else (Inl (Exn (RuntimeError ''Port is not acquired'')), h))"
  by (simp add: HandlerImpl_def HandlerImpl_Disconnect_def thenM_def bindM_def)

lemma handle_GetStatus: "handle (HandlerImpl pf) RGetStatus h = (Inr (), h)"
  by (simp add: HandlerImpl_def HandlerImpl_GetStatus_def thenM_def bindM_def)

declare handle.simps [simp del]

lemma arb_of_OS [simp]: "arb_of (h\<lparr>Firmware := (Firmware h)\<lparr>OS := w\<rparr>\<rparr>) = arb_of h"
  by (simp add: arb_of_def)

lemma handler_inv_OS [simp]: "handler_inv (h\<lparr>Firmware := (Firmware h)\<lparr>OS := w\<rparr>\<rparr>) = handler_inv h"
  by (simp add: handler_inv_def fsm_idle_def)

text \<open>A held port makes every request fail but the status and the release.\<close>

lemma handle_refused:
  assumes "handler_inv h" and "hAcquired h" and "rq \<noteq> RGetStatus" and "rq \<noteq> RDisconnect"
  shows "\<exists>e. handle (HandlerImpl pf) rq h = (Inl (Exn e), h)"
proof (cases rq)
  case RStart
  have "State (Firmware h) = Running" using assms(1,2) by (simp add: handler_inv_def)
  then obtain msg where "DoTransition (StartFirmware_routine pf) (Firmware h) =
      (Inl (Exn (FSMException msg)), Firmware h)"
    using DoTransition_illegal [of "Firmware h" "StartFirmware_routine pf"]
    by (auto simp: StartFirmware_routine_def)
  then show ?thesis using RStart by (simp add: handle_Start with_firmware_apply)
qed (use assms handle_held in auto)

text \<open>Each request takes an abstract step and keeps the invariant.\<close>

lemma handle_step_free:
  assumes inv: "handler_inv h" and run: "handle (HandlerImpl pf) rq h = (q, h')" and "live q"
    and free: "\<not> hAcquired h"
  shows "handler_inv h' \<and> arb_step (arb_of h) (handler_event rq q h') (arb_of h')"
proof -
  note fw = firmware_step [OF inv _ free _ \<open>live q\<close>]
  show ?thesis
  proof (cases rq)
    case (RFlash mem path)
    show ?thesis
    proof (cases "ToCxxStr pf mem path")
      case (Inr p)
      then have "with_firmware (DoTransition (FlashBootlader_routine pf p)) h = (q, h')"
        using RFlash run free by (simp add: handle_Flash_free)
      from fw [OF fsm_routine.flash this] RFlash free show ?thesis
        by (auto simp: FlashBootlader_routine_def arb_step_iffs arb_of_def)
    qed (use RFlash run free inv in \<open>auto simp: handle_Flash_free arb_step_iffs\<close>)
  next
    case RStart
    with run have "with_firmware (DoTransition (StartFirmware_routine pf)) h = (q, h')"
      by (simp add: handle_Start)
    from fw [OF fsm_routine.start this] RStart free show ?thesis
      by (auto simp: StartFirmware_routine_def arb_step_iffs arb_of_def)
  next
    case RReset
    with run free have "with_firmware (DoTransition (ResetChip_routine pf)) h = (q, h')"
      by (simp add: handle_Reset_free)
    from fw [OF fsm_routine.reset this] RReset free show ?thesis
      by (auto simp: ResetChip_routine_def arb_step_iffs arb_of_def)
  next
    case (RConnect mem user)
    with handle_Connect_free [OF free] run \<open>live q\<close> inv free show ?thesis
      by (fastforce simp: arb_step_iffs arb_of_def handler_inv_def fsm_idle_def)
  qed (use run inv free in \<open>auto simp: handle_Disconnect handle_GetStatus arb_step_iffs\<close>)
qed

lemma handle_step:
  assumes inv: "handler_inv h" and run: "handle (HandlerImpl pf) rq h = (q, h')" and "live q"
  shows "handler_inv h' \<and> arb_step (arb_of h) (handler_event rq q h') (arb_of h')"
proof (cases "hAcquired h")
  case True
  show ?thesis
  proof (cases "rq = RGetStatus \<or> rq = RDisconnect")
    case True
    with run inv \<open>hAcquired h\<close> show ?thesis
      by (auto simp: handle_Disconnect handle_GetStatus arb_step_iffs arb_of_def handler_inv_def)
  next
    case False
    then obtain e where "handle (HandlerImpl pf) rq h = (Inl (Exn e), h)"
      using handle_refused [OF inv \<open>hAcquired h\<close>] by blast
    with run inv show ?thesis by (auto simp: arb_step_iffs)
  qed
qed (rule handle_step_free [OF inv run \<open>live q\<close>])

interpretation handler_arbiter: port_arbiter "handle (HandlerImpl pf)" handler_event handler_inv arb_of
  for pf
  using handle_step by unfold_locales blast+

text \<open>A handler that was built starts in the invariant, with the port free.\<close>

lemma HandlerImpl_new_inv:
  assumes "HandlerImpl_new pf w = (Inr u, h)"
  shows "handler_inv h \<and> \<not> hAcquired h \<and> State (Firmware h) = Boot"
proof -
  let ?r = "ResetChip_routine pf"
  from assms have fsm: "FirmwareFSM_body pf (fsm_init w) = (Inr u, Firmware h)" and "\<not> hAcquired h"
    by (auto simp: HandlerImpl_new_def FirmwareFSM_new_def split: prod.splits)
  obtain p f where run: "DoTransition ?r (fsm_init w) = (p, f)" by fastforce
  have "fsm_idle (fsm_init w)" by (simp add: fsm_idle_def fsm_init_def)
  moreover from fsm run have "p = Inr ()"
    by (cases p) (auto simp: FirmwareFSM_body_def ResetChip_def thenM_def bindM_def)
  ultimately have "fsm_idle f \<and> State f = Boot"
    using DoTransition_outcomes [OF fsm_routine.reset _ run] by (auto simp: ResetChip_routine_def)
  moreover from fsm run \<open>p = Inr ()\<close> have "\<exists>w' port. Firmware h = f\<lparr>OS := w', MbPort := port\<rparr>"
    by (auto simp: FirmwareFSM_body_def ResetChip_def thenM_def bindM_def zoom_def
        split: prod.splits sum.splits dest!: sym [where t = "Firmware h"])
  ultimately show ?thesis using \<open>\<not> hAcquired h\<close> by (auto simp: handler_inv_def fsm_idle_def)
qed

section \<open>Properties\<close>

text \<open>A board that boots, starts and answers, and the handlers the examples run on.\<close>

definition good_board :: world where
  "good_board = quiet_world\<lparr>procs := replicate 8 (exits_with 0), pipes := [None], opens := [None, None],
     reads := [RxData (to_bytes ''/dev/ttyS0''), RxData [], RxData []]\<rparr>"

definition handler_at :: "FWState \<Rightarrow> user option \<Rightarrow> world \<Rightarrow> handler" where
  "handler_at st u w = \<lparr>Firmware = fsm_at st w, hAcquired = (u \<noteq> None),
     hUserName = (case u of None \<Rightarrow> [] | Some v \<Rightarrow> fst v), hUserPid = (case u of None \<Rightarrow> - 1 | Some v \<Rightarrow> snd v)\<rparr>"

lemma handler_inv_at [simp]:
  "handler_inv (handler_at st u w) \<longleftrightarrow> st \<noteq> Transition \<and> (u \<noteq> None \<longrightarrow> st = Running)"
  by (auto simp: handler_inv_def handler_at_def) (simp_all add: fsm_at_def)

lemma hAcquired_at [simp]: "hAcquired (handler_at st u w) \<longleftrightarrow> u \<noteq> None"
  by (simp add: handler_at_def)

text \<open>
  C5: Each request to the handler, with the operating system and the request's content arbitrary,
  takes one step of the abstract port arbiter: the port is granted only when it is free and the
  firmware runs, released only when it is held, the chip is flashed, started or reset only while
  the port is free, and a failing request changes nothing or puts the chip into \<open>Fault\<close>.
\<close>

theorem request_takes_arbiter_step:
  assumes "handler_inv h" and "handle (HandlerImpl pf) rq h = (q, h')" and "live q"
  shows "handler_inv h' \<and> arb_step (arb_of h) (handler_event rq q h') (arb_of h')"
  using handle_step [OF assms] .

theorem request_takes_arbiter_step_witness:
  "arb_step (arb_of (handler_at Running (Some (''me'', 7)) quiet_world)) Released
     (arb_of (handler_at Running (Some (''me'', 7)) quiet_world\<lparr>hAcquired := False\<rparr>))"
  using request_takes_arbiter_step [of "handler_at Running (Some (''me'', 7)) quiet_world" arm RDisconnect "Inr ()"]
  by (simp add: handle_Disconnect)

text \<open>
  C4: Over any sequence of requests, one at a time, the use of the port is exclusive: between two
  grants there is a release, no release comes without a grant, and no flash, start or reset
  completes while the port is held.
\<close>

theorem requests_exclusive:
  assumes "handler_inv h" and "serve (handle (HandlerImpl pf)) handler_event rqs h = (es, h')"
  shows "exclusive (hAcquired h) es"
  using handler_arbiter.serve_exclusive [OF assms] by (cases "hAcquired h") (simp_all add: arb_of_def)

theorem requests_exclusive_witness:
  "fst (serve (handle (HandlerImpl arm)) handler_event [RReset, RDisconnect, RReset]
     (handler_at Running (Some (''me'', 7)) good_board)) = [Failed, Released, WasReset] \<and>
   exclusive True [Failed, Released, WasReset]"
proof -
  let ?h = "handler_at Running (Some (''me'', 7)) good_board"
  let ?run = "serve (handle (HandlerImpl arm)) handler_event [RReset, RDisconnect, RReset] ?h"
  have es: "fst ?run = [Failed, Released, WasReset]" by code_simp
  have "exclusive (hAcquired ?h) (fst ?run)"
    by (rule requests_exclusive [where h' = "snd ?run" and pf = arm and rqs = "[RReset, RDisconnect, RReset]"])
      (simp, rule prod.collapse [symmetric])
  with es show ?thesis by simp
qed

text \<open>
  C17: While the port is held, every request but the status and the release fails with an exception
  and changes nothing: no script is started and the chip is not touched.
\<close>

theorem held_port_refuses:
  assumes "handler_inv h" and "hAcquired h" and "rq \<noteq> RGetStatus" and "rq \<noteq> RDisconnect"
  shows "\<exists>e. handle (HandlerImpl pf) rq h = (Inl (Exn e), h)"
  using handle_refused [OF assms] .

theorem held_port_refuses_witness:
  "\<exists>e. handle (HandlerImpl arm) RReset (handler_at Running (Some (''me'', 7)) good_board) =
    (Inl (Exn e), handler_at Running (Some (''me'', 7)) good_board)"
  using held_port_refuses [of "handler_at Running (Some (''me'', 7)) good_board" RReset arm] by simp

text \<open>
  A handler whose construction succeeds (the chip was reset and its port was found) starts with
  the port free and the chip in \<open>Boot\<close>, in the handler's invariant.
\<close>

lemma new_handler_is_free:
  assumes "HandlerImpl_new pf w = (Inr u, h)"
  shows "handler_inv h \<and> \<not> hAcquired h \<and> State (Firmware h) = Boot"
  using HandlerImpl_new_inv [OF assms] .

lemma good_board_boots: "fst (HandlerImpl_new arm good_board) = Inr ()"
  by code_simp


end
