(* ===== verification/RPC_Provider.thy ===== *)
theory RPC_Provider
  imports RPC_Defs Sys_IO
begin

text \<open>
  The transport of \<open>Inc/roki-mb-daemon/RPC.hpp\<close> and \<open>Src/RPC.cpp\<close>: packages of a one-byte
  procedure id, a one-byte size and the payload, sent and received through a fixed buffer of 256
  bytes that is shared by both directions.

  The kernel side of the connection is an argument: the scripts of \<open>Sys_IO\<close> say what successive
  \<open>recv\<close> calls find and what successive \<open>send\<close> calls accept.
\<close>

section \<open>The connection\<close>

record conn =
  rx :: "rx_event list"
  tx :: "tx_event list"
  sent :: "byte list"

text \<open>\<open>recv(fd, p, n, 0)\<close> and \<open>send(fd, p, n, 0)\<close> on the connection.\<close>

definition sys_recv :: "nat \<Rightarrow> (conn, int + byte list) prog" where
  "sys_recv n = zoom rx (\<lambda>r. rx_update (\<lambda>_. r)) (script_read n)"

definition sys_send :: "byte list \<Rightarrow> (conn, int + nat) prog" where
  "sys_send bs c = (case script_write bs (tx c) of (r, t) \<Rightarrow>
     (r, c\<lparr>tx := t, sent := sent c @ (case r of Inr (Inr k) \<Rightarrow> take k bs | _ \<Rightarrow> [])\<rparr>))"

section \<open>RPCProvider\<close>

definition BufSize :: nat where
  "BufSize = 256"

record MsgHeader =
  hOk :: bool
  hMsg :: string
  hProcId :: byte
  hData :: cptr
  hSize :: byte

record rpc =
  Conn :: conn
  Buffer :: "byte list"
  ErrCode :: byte

text \<open>The loops of \<open>RecvToBuffer\<close> and \<open>SendFromBuffer\<close> from an intermediate \<open>total\<close>.\<close>

function RecvLoop :: "platform \<Rightarrow> nat \<Rightarrow> nat \<Rightarrow> (rpc, unit) prog" where
  "RecvLoop pf sz tot s =
     (if tot < sz then
        (case sys_recv (sz - tot) (Conn s) of
           (Inl f, c) \<Rightarrow> (Inl f, s\<lparr>Conn := c\<rparr>)
         | (Inr (Inl e), c) \<Rightarrow>
             (Inl (throw_errno pf ''RecvToBuffer'' ''Failed to recv()'' e), s\<lparr>Conn := c\<rparr>)
         | (Inr (Inr bs), c) \<Rightarrow>
             if bs = [] then (Inl (throw_runtime ''RecvToBuffer'' ''Connection closed''), s\<lparr>Conn := c\<rparr>)
             else (case store (Buffer s) (int tot) bs of
                 Inl f \<Rightarrow> (Inl f, s\<lparr>Conn := c\<rparr>)
               | Inr b \<Rightarrow> RecvLoop pf sz (tot + length bs) (s\<lparr>Conn := c, Buffer := b\<rparr>)))
      else (Inr (), s))"
  by pat_completeness auto
termination
  by (relation "measure (\<lambda>(pf, sz, tot, s). sz - tot)") (auto intro: loop_progress)

function SendLoop :: "platform \<Rightarrow> nat \<Rightarrow> nat \<Rightarrow> (rpc, unit) prog" where
  "SendLoop pf sz tot s =
     (if tot < sz then
        (case load (Buffer s) (Buf (int tot)) (sz - tot) of
           Inl f \<Rightarrow> (Inl f, s)
         | Inr bs \<Rightarrow> (case sys_send bs (Conn s) of
             (Inl f, c) \<Rightarrow> (Inl f, s\<lparr>Conn := c\<rparr>)
           | (Inr (Inl e), c) \<Rightarrow>
               (Inl (throw_errno pf ''SendFromBuffer'' ''Failed to send()'' e), s\<lparr>Conn := c\<rparr>)
           | (Inr (Inr k), c) \<Rightarrow>
               if k = 0 then (Inl Assert, s\<lparr>Conn := c\<rparr>)
               else SendLoop pf sz (tot + k) (s\<lparr>Conn := c\<rparr>)))
      else (Inr (), s))"
  by pat_completeness auto
termination
  by (relation "measure (\<lambda>(pf, sz, tot, s). sz - tot)") auto

declare RecvLoop.simps [simp del] SendLoop.simps [simp del]

definition RecvToBuffer :: "platform \<Rightarrow> nat \<Rightarrow> (rpc, unit) prog" where
  "RecvToBuffer pf sz = RecvLoop pf sz 0"

definition SendFromBuffer :: "platform \<Rightarrow> nat \<Rightarrow> (rpc, unit) prog" where
  "SendFromBuffer pf sz = SendLoop pf sz 0"

text \<open>\<open>Buffer[i] = b\<close> and a \<open>memcpy\<close> into the buffer.\<close>

definition put_bytes :: "int \<Rightarrow> byte list \<Rightarrow> (rpc, unit) prog" where
  "put_bytes i bs s = (case store (Buffer s) i bs of
      Inl f \<Rightarrow> (Inl f, s) | Inr b \<Rightarrow> (Inr (), s\<lparr>Buffer := b\<rparr>))"

text \<open>
  \<open>PackMsg<MsgT>\<close>: the template is instantiated with the packed size of the message and its
  serializer.
\<close>

definition PackMsg ::
    "byte \<Rightarrow> byte \<Rightarrow> (byte list \<Rightarrow> int \<Rightarrow> byte list result) \<Rightarrow> (rpc, unit) prog" where
  "PackMsg procId msgSz serialize =
     thenM (put_bytes 0 [procId])
    (thenM (put_bytes 1 [msgSz])
    (\<lambda>s. case serialize (Buffer s) 2 of
        Inl f \<Rightarrow> (Inl f, s) | Inr b \<Rightarrow> (Inr (), s\<lparr>Buffer := b\<rparr>)))"

definition PackError :: "platform \<Rightarrow> string \<Rightarrow> (rpc, unit) prog" where
  "PackError pf msg =
     (if 255 < length msg
      then raise (throw_runtime ''PackError'' ''Message to big to fit inside package'')
      else bindM (getM ErrCode) (\<lambda>code.
        thenM (put_bytes 0 [code])
       (thenM (put_bytes 1 [char_of_size (length msg)])
       (thenM (put_bytes 2 (to_bytes msg))
       (SendFromBuffer pf (length msg + 2))))))"

definition RecvPackage :: "platform \<Rightarrow> (rpc, MsgHeader) prog" where
  "RecvPackage pf =
     thenM (RecvToBuffer pf 2)
    (bindM (getM (\<lambda>s. (Buffer s ! 0, Buffer s ! 1, ErrCode s))) (\<lambda>(procId, sz, code).
     let ok = (char_val pf procId \<noteq> uint code) in
     thenM (RecvToBuffer pf (unat sz))
    (bindM (getM Buffer) (\<lambda>buf.
     ret \<lparr>hOk = ok, hMsg = (if ok then ''OK'' else of_bytes (take (unat sz) buf)),
          hProcId = procId, hData = Buf 0, hSize = sz\<rparr>))))"

definition SendPackage :: "platform \<Rightarrow> (rpc, unit) prog" where
  "SendPackage pf = bindM (getM (\<lambda>s. Buffer s ! 1)) (\<lambda>b.
     SendFromBuffer pf (nat ((char_val pf b + 2) mod 2 ^ 64)))"

definition RPCProvider_new :: "conn \<Rightarrow> byte list \<Rightarrow> byte \<Rightarrow> rpc" where
  "RPCProvider_new c garbage code = \<lparr>Conn = c, Buffer = garbage, ErrCode = code\<rparr>"

text \<open>The buffer is a \<open>std::array<char, BufSize>\<close>.\<close>

definition rpc_wf :: "rpc \<Rightarrow> bool" where
  "rpc_wf s \<longleftrightarrow> length (Buffer s) = BufSize"

section \<open>The loops\<close>

text \<open>
  \<open>RecvToBuffer\<close> returns exactly when the peer has sent enough, and then the buffer holds the next
  bytes of the stream: how the kernel cut the stream into segments does not matter.
\<close>

lemma RecvLoop_round:
  assumes "tot < sz" and "sz \<le> length (Buffer s)"
    and "script_read (sz - tot) (rx (Conn s)) = (Inr (Inr bs), r)" and "bs \<noteq> []"
  shows "RecvLoop pf sz tot s = RecvLoop pf sz (tot + length bs)
    (s\<lparr>Conn := (Conn s)\<lparr>rx := r\<rparr>, Buffer := overwrite (Buffer s) tot bs\<rparr>)"
proof -
  have "tot + length bs \<le> length (Buffer s)" using assms(1,2) script_read_data [OF assms(3)] by auto
  with assms show ?thesis by (subst RecvLoop.simps) (simp add: sys_recv_def zoom_def)
qed

interpretation recv_loop: filling_loop "\<lambda>(tot, s). RecvLoop pf sz tot s"
  "\<lambda>(tot, s). tot \<le> sz \<and> sz \<le> length (Buffer s)" "\<lambda>(tot, s). sz - tot" "\<lambda>(tot, s). rx (Conn s)"
  "\<lambda>bs r (tot, s). (tot + length bs, s\<lparr>Conn := (Conn s)\<lparr>rx := r\<rparr>, Buffer := overwrite (Buffer s) tot bs\<rparr>)"
  for pf sz
  by unfold_locales (auto simp: RecvLoop_round overwrite_overwrite_adjacent)

lemma RecvLoop_ok:
  assumes "tot \<le> sz" and "sz \<le> length (Buffer s)"
    and "sz - tot \<le> length (rx_bytes (rx (Conn s)))"
  shows "RecvLoop pf sz tot s = (Inr (), s\<lparr>
     Conn := (Conn s)\<lparr>rx := rx_drop (sz - tot) (rx (Conn s))\<rparr>,
     Buffer := overwrite (Buffer s) tot (take (sz - tot) (rx_bytes (rx (Conn s))))\<rparr>)"
  using recv_loop.loop_fills [of sz "(tot, s)" pf] assms by (simp add: RecvLoop.simps min_def)

text \<open>
  \<open>SendFromBuffer\<close> puts the prefix of the buffer on the wire, in whatever pieces the kernel
  accepts it.
\<close>

lemma SendLoop_round:
  assumes "tot < sz" and "sz \<le> length (Buffer s)" and "tx (Conn s) = TxAccept k # r" and "k \<noteq> 0"
  shows "SendLoop pf sz tot s = SendLoop pf sz (tot + min k (sz - tot)) (s\<lparr>Conn := (Conn s)\<lparr>tx := r,
    sent := sent (Conn s) @ take (min k (sz - tot)) (drop tot (Buffer s))\<rparr>\<rparr>)"
proof -
  have "min (length (Buffer s) - tot) (sz - tot) = sz - tot" using assms by simp
  with assms show ?thesis by (subst SendLoop.simps) (auto simp: sys_send_def min_def)
qed

interpretation send_loop: draining_loop "\<lambda>(tot, s). SendLoop pf sz tot s"
  "\<lambda>(tot, s). tot \<le> sz \<and> sz \<le> length (Buffer s)" "\<lambda>(tot, s). sz - tot" "\<lambda>(tot, s). tx (Conn s)"
  "\<lambda>n r (tot, s). (tot + n, s\<lparr>Conn := (Conn s)\<lparr>tx := r, sent := sent (Conn s) @ take n (drop tot (Buffer s))\<rparr>\<rparr>)"
  for pf sz
  by unfold_locales (auto simp: SendLoop_round take_add add.commute)

lemma SendLoop_ok:
  assumes "tot \<le> sz" and "sz \<le> length (Buffer s)" and "tx_after (sz - tot) (tx (Conn s)) = Some t"
  shows "SendLoop pf sz tot s = (Inr (), s\<lparr>Conn := (Conn s)\<lparr>tx := t,
     sent := sent (Conn s) @ take (sz - tot) (drop tot (Buffer s))\<rparr>\<rparr>)"
  using send_loop.loop_drains [of sz "(tot, s)" t pf] assms by (simp add: SendLoop.simps)

text \<open>No read of at most the buffer's size leaves the buffer, whatever the peer and the kernel do.\<close>

lemma RecvLoop_in_bounds:
  assumes "sz \<le> length (Buffer s)" and "tot \<le> sz"
  shows "fst (RecvLoop pf sz tot s) \<noteq> Inl Undefined \<and> fst (RecvLoop pf sz tot s) \<noteq> Inl Assert"
  using assms
proof (induction pf sz tot s rule: RecvLoop.induct)
  case (1 pf sz tot s)
  show ?case
  proof (cases "tot < sz")
    case False
    then show ?thesis by (simp add: RecvLoop.simps)
  next
    case True
    obtain r c where rec: "sys_recv (sz - tot) (Conn s) = (r, c)" by fastforce
    show ?thesis
    proof (cases "\<exists>bs. r = Inr (Inr bs) \<and> bs \<noteq> []")
      case False
      then show ?thesis
        using True rec
        by (subst (1 2) RecvLoop.simps)
          (auto simp: sys_recv_def zoom_def throw_errno_def throw_runtime_def
            split: sum.splits prod.splits dest!: script_read_not_exn)
    next
      case ex: True
      then obtain bs where bs: "r = Inr (Inr bs)" "bs \<noteq> []" by blast
      have "length bs \<le> sz - tot"
        using rec bs by (auto simp: sys_recv_def zoom_def split: prod.splits dest!: script_read_data)
      then have fit: "tot + length bs \<le> sz" using True by simp
      then have st: "store (Buffer s) (int tot) bs = Inr (overwrite (Buffer s) tot bs)"
        using "1.prems" by simp
      have "RecvLoop pf sz tot s =
          RecvLoop pf sz (tot + length bs) (s\<lparr>Conn := c, Buffer := overwrite (Buffer s) tot bs\<rparr>)"
        using True rec bs st by (subst RecvLoop.simps) simp
      with 1(1) [OF True _ _ _ bs(2) st] fit rec bs "1.prems" show ?thesis by simp
    qed
  qed
qed

lemma RecvLoop_frame:
  "RecvLoop pf sz tot s = (r, t) \<Longrightarrow> length (Buffer t) = length (Buffer s) \<and> ErrCode t = ErrCode s
     \<and> tx (Conn t) = tx (Conn s) \<and> sent (Conn t) = sent (Conn s)"
proof (induction pf sz tot s rule: RecvLoop.induct)
  case (1 pf sz tot s)
  obtain q c where rec: "sys_recv (sz - tot) (Conn s) = (q, c)" by fastforce
  then have c: "tx c = tx (Conn s)" "sent c = sent (Conn s)"
    by (auto simp: sys_recv_def zoom_def split: prod.splits)
  show ?case
  proof (cases "\<exists>bs b. tot < sz \<and> q = Inr (Inr bs) \<and> bs \<noteq> [] \<and> store (Buffer s) (int tot) bs = Inr b")
    case False
    with "1.prems" rec c show ?thesis
      by (subst (asm) RecvLoop.simps) (auto split: if_splits sum.splits)
  next
    case True
    then obtain bs b where b: "tot < sz" "q = Inr (Inr bs)" "bs \<noteq> []" "store (Buffer s) (int tot) bs = Inr b"
      by blast
    from "1.prems" rec b have "RecvLoop pf sz (tot + length bs) (s\<lparr>Conn := c, Buffer := b\<rparr>) = (r, t)"
      by (subst (asm) RecvLoop.simps) simp
    from "1.IH" [OF b(1) rec [symmetric] b(2) refl b(3,4) this] c store_InrD [OF b(4)]
    show ?thesis by simp
  qed
qed

section \<open>Packages\<close>

text \<open>A package on the wire.\<close>

definition package :: "byte \<Rightarrow> byte list \<Rightarrow> byte list" where
  "package i payload = i # char_of_size (length payload) # payload"

lemma length_package [simp]: "length (package i p) = length p + 2"
  by (simp add: package_def)

lemma put_bytes_ok:
  "i + length bs \<le> length (Buffer s) \<Longrightarrow>
   put_bytes (int i) bs s = (Inr (), s\<lparr>Buffer := overwrite (Buffer s) i bs\<rparr>)"
  by (simp add: put_bytes_def)

lemmas put_bytes_012 = put_bytes_ok [of 0, simplified] put_bytes_ok [of 1, simplified]
  put_bytes_ok [of 2, simplified]

text \<open>The two header bytes and the payload, written one after the other, are the package.\<close>

lemma overwrite_package:
  assumes "length p + 2 \<le> length buf"
  shows "overwrite (overwrite (overwrite buf 0 [i]) (Suc 0) [char_of_size (length p)]) 2 p =
    overwrite buf 0 (package i p)"
proof -
  have "overwrite (overwrite buf 0 [i]) (Suc 0) [char_of_size (length p)] =
      overwrite buf 0 [i, char_of_size (length p)]"
    using overwrite_overwrite_adjacent [of 0 "[i]" "[char_of_size (length p)]" buf] assms by simp
  moreover have "overwrite (overwrite buf 0 [i, char_of_size (length p)]) 2 p = overwrite buf 0 (package i p)"
    using overwrite_overwrite_adjacent [of 0 "[i, char_of_size (length p)]" p buf] assms
    by (simp add: package_def numeral_2_eq_2)
  ultimately show ?thesis by simp
qed

lemma holds_at_package_size:
  "holds_at buf 0 (package i p) \<Longrightarrow> buf ! 0 = i \<and> buf ! 1 = char_of_size (length p) \<and>
   take (length p + 2) buf = package i p"
  by (cases buf; cases "tl buf") (auto simp: holds_at_def package_def)

text \<open>\<open>SendPackage\<close> sends the package the buffer holds, when its size is one \<open>char\<close> keeps.\<close>

lemma SendPackage_ok:
  assumes "holds_at (Buffer s) 0 (package i p)" and "length p \<le> char_limit pf"
    and "tx_after (length p + 2) (tx (Conn s)) = Some t"
  shows "SendPackage pf s =
    (Inr (), s\<lparr>Conn := (Conn s)\<lparr>tx := t, sent := sent (Conn s) @ package i p\<rparr>\<rparr>)"
proof -
  have l: "length p < 256" using assms(2) char_limit_le(1) [of pf] by linarith
  then have "char_val pf (char_of_size (length p)) = int (length p)"
    using assms(2) char_val_fits [of "char_of_size (length p)" pf] by simp
  then have n: "nat ((char_val pf (char_of_size (length p)) + 2) mod 2 ^ 64) = length p + 2"
    using l by simp
  have fit: "length p + 2 \<le> length (Buffer s)" using assms(1) by (simp add: holds_at_def)
  have b: "Buffer s ! 1 = char_of_size (length p)" "take (length p + 2) (Buffer s) = package i p"
    using holds_at_package_size [OF assms(1)] by simp_all
  have "SendPackage pf s = SendFromBuffer pf (length p + 2) s"
    using b(1) n by (simp add: SendPackage_def bindM_def)
  also have "\<dots> = (Inr (), s\<lparr>Conn := (Conn s)\<lparr>tx := t, sent := sent (Conn s) @ package i p\<rparr>\<rparr>)"
    using SendLoop_ok [of 0 "length p + 2" s t pf] fit assms(3) b(2) by (simp add: SendFromBuffer_def)
  finally show ?thesis .
qed

text \<open>\<open>RecvPackage\<close> takes exactly one package off the stream.\<close>

definition header_of :: "platform \<Rightarrow> byte \<Rightarrow> byte \<Rightarrow> byte list \<Rightarrow> MsgHeader" where
  "header_of pf code i p =
     (let ok = (char_val pf i \<noteq> uint code) in
      \<lparr>hOk = ok, hMsg = (if ok then ''OK'' else of_bytes p), hProcId = i, hData = Buf 0,
       hSize = char_of_size (length p)\<rparr>)"

lemma RecvPackage_ok:
  assumes "rpc_wf s" and "rx_bytes (rx (Conn s)) = package i p @ rest" and "length p \<le> 255"
  shows "\<exists>t. RecvPackage pf s = (Inr (header_of pf (ErrCode s) i p), t) \<and> rpc_wf t \<and>
    ErrCode t = ErrCode s \<and> holds_at (Buffer t) 0 p \<and>
    Conn t = (Conn s)\<lparr>rx := rx_drop (length p + 2) (rx (Conn s))\<rparr>"
proof -
  let ?n = "char_of_size (length p)"
  let ?b = "overwrite (Buffer s) 0 [i, ?n]"
  let ?s = "s\<lparr>Conn := (Conn s)\<lparr>rx := rx_drop 2 (rx (Conn s))\<rparr>, Buffer := ?b\<rparr>"
  let ?t = "?s\<lparr>Conn := (Conn s)\<lparr>rx := rx_drop (length p + 2) (rx (Conn s))\<rparr>, Buffer := overwrite ?b 0 p\<rparr>"
  have buf: "length (Buffer s) = 256" using assms(1) by (simp add: rpc_wf_def BufSize_def)
  have n: "unat ?n = length p" using assms(3) by simp
  have 1: "RecvToBuffer pf 2 s = (Inr (), ?s)"
    using RecvLoop_ok [of 0 2 s pf] buf assms(2) by (simp add: RecvToBuffer_def package_def)
  have bytes: "rx_bytes (rx_drop 2 (rx (Conn s))) = p @ rest"
    using rx_bytes_drop [of 2 "rx (Conn s)"] assms(2) by (simp add: package_def)
  have "rx_drop (length p) (rx_drop 2 (rx (Conn s))) = rx_drop (length p + 2) (rx (Conn s))"
    using rx_drop_rx_drop [of 2 "length p" "rx (Conn s)"] assms(2) by (simp add: add.commute)
  then have 2: "RecvToBuffer pf (unat ?n) ?s = (Inr (), ?t)"
    using RecvLoop_ok [of 0 "length p" ?s pf] buf assms(3) bytes n by (simp add: RecvToBuffer_def)
  have hd: "?b ! 0 = i" "?b ! 1 = ?n" "Buffer ?s ! 0 = i" "Buffer ?s ! 1 = ?n"
    by (simp_all add: overwrite_zero)
  have tk: "take (length p) (overwrite ?b 0 p) = p" by (simp add: overwrite_zero)
  have "RecvPackage pf s = (Inr (header_of pf (ErrCode s) i p), ?t)"
    using 1 2 hd tk n by (simp add: RecvPackage_def thenM_def bindM_def header_of_def Let_def)
  moreover have "rpc_wf ?t" using buf assms(3) by (simp add: rpc_wf_def BufSize_def)
  moreover have "holds_at (Buffer ?t) 0 p"
    using buf assms(3) holds_at_overwrite [of 0 p ?b] by simp
  ultimately show ?thesis by auto
qed

text \<open>\<open>PackError\<close> on every length of text.\<close>

lemma PackError_ok:
  assumes "rpc_wf s" and "length msg \<le> 254" and "tx_after (length msg + 2) (tx (Conn s)) = Some t"
  shows "PackError pf msg s = (Inr (), s\<lparr>
     Conn := (Conn s)\<lparr>tx := t, sent := sent (Conn s) @ package (ErrCode s) (to_bytes msg)\<rparr>,
     Buffer := overwrite (Buffer s) 0 (package (ErrCode s) (to_bytes msg))\<rparr>)"
proof -
  let ?p = "package (ErrCode s) (to_bytes msg)"
  let ?s = "s\<lparr>Buffer := overwrite (Buffer s) 0 ?p\<rparr>"
  have buf: "length (Buffer s) = 256" using assms(1) by (simp add: rpc_wf_def BufSize_def)
  have "SendFromBuffer pf (length msg + 2) ?s =
      (Inr (), ?s\<lparr>Conn := (Conn s)\<lparr>tx := t, sent := sent (Conn s) @ ?p\<rparr>\<rparr>)"
    using SendLoop_ok [of 0 "length msg + 2" ?s t pf] assms(2,3) buf
    by (simp add: SendFromBuffer_def overwrite_zero)
  moreover have "overwrite (overwrite (overwrite (Buffer s) 0 [ErrCode s]) (Suc 0)
      [char_of_size (length msg)]) 2 (to_bytes msg) = overwrite (Buffer s) 0 ?p"
    using overwrite_package [of "to_bytes msg" "Buffer s" "ErrCode s"] assms(2) buf by simp
  ultimately show ?thesis
    using assms(2) buf by (simp add: PackError_def bindM_def thenM_def put_bytes_012)
qed

lemma PackError_long:
  "255 < length msg \<Longrightarrow>
   PackError pf msg s = (Inl (throw_runtime ''PackError'' ''Message to big to fit inside package''), s)"
  by (simp add: PackError_def)

text \<open>The check in \<open>PackError\<close> lets one length through that does not fit.\<close>

lemma PackError_255:
  "rpc_wf s \<Longrightarrow> length msg = 255 \<Longrightarrow> fst (PackError pf msg s) = Inl Undefined"
  by (simp add: PackError_def bindM_def thenM_def put_bytes_012 rpc_wf_def BufSize_def)
    (simp add: put_bytes_def store_def)

text \<open>What the callers of \<open>PackError\<close> do: they call \<open>SendPackage\<close> after it.\<close>

lemma PackError_SendPackage:
  assumes "rpc_wf s" and "length msg \<le> char_limit pf" and "length msg \<le> 254"
    and "tx_after (length msg + 2) (tx (Conn s)) = Some t1"
    and "tx_after (length msg + 2) t1 = Some t2"
  shows "thenM (PackError pf msg) (SendPackage pf) s = (Inr (), s\<lparr>
     Conn := (Conn s)\<lparr>tx := t2, sent := sent (Conn s) @ package (ErrCode s) (to_bytes msg)
        @ package (ErrCode s) (to_bytes msg)\<rparr>,
     Buffer := overwrite (Buffer s) 0 (package (ErrCode s) (to_bytes msg))\<rparr>)"
proof -
  let ?p = "package (ErrCode s) (to_bytes msg)"
  let ?s = "s\<lparr>Conn := (Conn s)\<lparr>tx := t1, sent := sent (Conn s) @ ?p\<rparr>,
     Buffer := overwrite (Buffer s) 0 ?p\<rparr>"
  have "length ?p \<le> length (Buffer s)" using assms(1,3) by (simp add: rpc_wf_def BufSize_def)
  then have "holds_at (Buffer ?s) 0 ?p" using holds_at_overwrite [of 0 ?p "Buffer s"] by simp
  then have "SendPackage pf ?s = (Inr (), ?s\<lparr>Conn := (Conn ?s)\<lparr>tx := t2, sent := sent (Conn ?s) @ ?p\<rparr>\<rparr>)"
    using SendPackage_ok [of ?s "ErrCode s" "to_bytes msg" pf t2] assms(2,5) by simp
  then show ?thesis using PackError_ok [OF assms(1,3,4), of pf] by (simp add: thenM_Inr)
qed

section \<open>Messages over the transport\<close>

context message_codec
begin

lemma PackMsg_enc:
  assumes "rpc_wf s" and "length (enc v) \<le> char_limit pf" and "length (enc v) \<le> 254"
  shows "PackMsg i (packed (msg_of v)) (\<lambda>b p. serialize pf b p (msg_of v)) s =
    (Inr (), s\<lparr>Buffer := overwrite (Buffer s) 0 (package i (enc v))\<rparr>)"
proof -
  let ?b = "overwrite (overwrite (Buffer s) 0 [i]) (Suc 0) [char_of_size (length (enc v))]"
  have buf: "length (Buffer s) = 256" using assms(1) by (simp add: rpc_wf_def BufSize_def)
  have "serialize pf ?b (int 2) (msg_of v) = Inr (overwrite ?b 2 (enc v))"
    using buf assms(2,3) by (intro serialize_enc) auto
  moreover have "overwrite ?b 2 (enc v) = overwrite (Buffer s) 0 (package i (enc v))"
    using overwrite_package [of "enc v" "Buffer s" i] buf assms(3) by simp
  ultimately show ?thesis
    using buf packed_enc [OF assms(2)]
    by (simp add: PackMsg_def thenM_def bindM_def put_bytes_012)
qed

text \<open>
  One message from one end of a connection to the other: the sender packs and sends it, the bytes
  reach the receiver in any segmentation, the receiver takes the package and deserializes it.
\<close>

lemma transport:
  assumes "rpc_wf a" and "rpc_wf b" and "length (enc v) \<le> 254"
    and "length (enc v) \<le> char_limit pf" and "length (enc v) \<le> char_limit pf'"
    and "tx_after (length (enc v) + 2) (tx (Conn a)) = Some ta"
    and "rx_bytes (rx (Conn b)) = package i (enc v) @ rest"
  shows "\<exists>a' b' m. thenM (PackMsg i (packed (msg_of v)) (\<lambda>b p. serialize pf b p (msg_of v)))
        (SendPackage pf) a = (Inr (), a') \<and>
     sent (Conn a') = sent (Conn a) @ package i (enc v) \<and>
     RecvPackage pf' b = (Inr (header_of pf' (ErrCode b) i (enc v)), b') \<and>
     rx_bytes (rx (Conn b')) = rest \<and>
     deserialize pf' (Buffer b') (hData (header_of pf' (ErrCode b) i (enc v))) = Inr m \<and>
     view pf' (Buffer b') m = Inr v"
proof -
  let ?p = "package i (enc v)"
  let ?a = "a\<lparr>Buffer := overwrite (Buffer a) 0 ?p\<rparr>"
  have "holds_at (Buffer ?a) 0 ?p"
    using assms(1,3) by (simp add: rpc_wf_def BufSize_def)
  then have send: "SendPackage pf ?a =
      (Inr (), ?a\<lparr>Conn := (Conn a)\<lparr>tx := ta, sent := sent (Conn a) @ ?p\<rparr>\<rparr>)"
    using SendPackage_ok [of ?a i "enc v" pf ta] assms(4,6) by simp
  obtain b' where b': "RecvPackage pf' b = (Inr (header_of pf' (ErrCode b) i (enc v)), b')"
    "holds_at (Buffer b') 0 (enc v)"
    "Conn b' = (Conn b)\<lparr>rx := rx_drop (length (enc v) + 2) (rx (Conn b))\<rparr>"
    using RecvPackage_ok [OF assms(2,7), of pf'] assms(3) by auto
  then have "rx_bytes (rx (Conn b')) = rest"
    using rx_bytes_drop [of "length (enc v) + 2" "rx (Conn b)"] assms(7) by simp
  moreover obtain m where "deserialize pf' (Buffer b') (Buf 0) = Inr m" "view pf' (Buffer b') m = Inr v"
    using deserialize_enc [OF assms(5) b'(2)] by auto
  ultimately show ?thesis
    using send b'(1) PackMsg_enc [OF assms(1,4,3), of i]
    by (auto simp: thenM_Inr header_of_def Let_def)
qed

end

section \<open>Properties\<close>

text \<open>A provider on a connection, for the concrete runs.\<close>

definition fresh_rpc :: "rx_event list \<Rightarrow> tx_event list \<Rightarrow> rpc" where
  "fresh_rpc r t = RPCProvider_new \<lparr>rx = r, tx = t, sent = []\<rparr> (replicate 256 0) Error_ID"

text \<open>A stream that arrives in two segments, cut after \<open>k\<close> bytes.\<close>

definition in_two :: "nat \<Rightarrow> byte list \<Rightarrow> rx_event list" where
  "in_two k bs = [RxData (take k bs), RxData (drop k bs)]"

lemma rx_bytes_in_two: "0 < k \<Longrightarrow> k < length bs \<Longrightarrow> rx_bytes (in_two k bs) = bs"
  by (cases bs) (auto simp: in_two_def)

lemma fresh_rpc_simps [simp]:
  "rpc_wf (fresh_rpc r t)" "Conn (fresh_rpc r t) = \<lparr>rx = r, tx = t, sent = []\<rparr>" "ErrCode (fresh_rpc r t) = Error_ID"
  by (simp_all add: fresh_rpc_def RPCProvider_new_def rpc_wf_def BufSize_def)

text \<open>
  C11: A status response (description, acquisition flag, user name and PID) that fits into a package
  arrives: whatever pieces \<open>send\<close> accepts and \<open>recv\<close> delivers, the receiver takes exactly this
  package off the stream and reads the same content back through the pointers of the
  deserialized structure, also when the two ends disagree about the sign of \<open>char\<close>.
\<close>

theorem status_transport:
  assumes "rpc_wf a" and "rpc_wf b" and "length (enc_status v) \<le> 254"
    and "length (enc_status v) \<le> char_limit pf" and "length (enc_status v) \<le> char_limit pf'"
    and "tx_after (length (enc_status v) + 2) (tx (Conn a)) = Some ta"
    and "rx_bytes (rx (Conn b)) = package i (enc_status v) @ rest"
  shows "\<exists>a' b' m. thenM (PackMsg i (ChipStatus_GetPackedSize (msg_of_status v))
        (\<lambda>b p. ChipStatus_Serialize pf b p (msg_of_status v))) (SendPackage pf) a = (Inr (), a') \<and>
     sent (Conn a') = sent (Conn a) @ package i (enc_status v) \<and>
     RecvPackage pf' b = (Inr (header_of pf' (ErrCode b) i (enc_status v)), b') \<and>
     rx_bytes (rx (Conn b')) = rest \<and>
     ChipStatus_Deserialize pf' (Buffer b') (hData (header_of pf' (ErrCode b) i (enc_status v))) = Inr m \<and>
     view_status pf' (Buffer b') m = Inr v"
  by (rule status_codec.transport [OF assms])

theorem status_transport_witness:
  "\<exists>a' b' m. thenM (PackMsg 8 (ChipStatus_GetPackedSize (msg_of_status (''Boot'', True, ''me'', 77)))
        (\<lambda>b p. ChipStatus_Serialize arm b p (msg_of_status (''Boot'', True, ''me'', 77)))) (SendPackage arm)
        (fresh_rpc [] [TxAccept 3, TxAccept 200]) = (Inr (), a') \<and>
     sent (Conn a') = package 8 (enc_status (''Boot'', True, ''me'', 77)) \<and>
     RecvPackage x86 (fresh_rpc (in_two 5 (package 8 (enc_status (''Boot'', True, ''me'', 77)))) []) =
       (Inr (header_of x86 Error_ID 8 (enc_status (''Boot'', True, ''me'', 77))), b') \<and>
     ChipStatus_Deserialize x86 (Buffer b')
       (hData (header_of x86 Error_ID 8 (enc_status (''Boot'', True, ''me'', 77)))) = Inr m \<and>
     view_status x86 (Buffer b') m = Inr (''Boot'', True, ''me'', 77)"
  using status_transport [of "fresh_rpc [] [TxAccept 3, TxAccept 200]"
      "fresh_rpc (in_two 5 (package 8 (enc_status (''Boot'', True, ''me'', 77)))) []"
      "(''Boot'', True, ''me'', 77)" arm x86 "[]" 8 "[]"]
  by (auto simp: rx_bytes_in_two)

text \<open>
  C20: \<open>RecvPackage\<close> stays inside the 256 bytes of the buffer and fails no assertion, whatever sizes
  the peer announces and sends, however the kernel delivers it, and wherever the read is cut off.
\<close>

theorem recv_in_bounds:
  assumes "rpc_wf s"
  shows "fst (RecvPackage pf s) \<noteq> Inl Undefined \<and> fst (RecvPackage pf s) \<noteq> Inl Assert"
proof -
  obtain q t where 1: "RecvLoop pf 2 0 s = (q, t)" by fastforce
  have b: "unat (c :: byte) \<le> 256" for c by (rule less_imp_le) (rule unat_byte_less)
  have buf: "length (Buffer s) = 256" "length (Buffer t) = 256"
    using assms RecvLoop_frame [OF 1] by (simp_all add: rpc_wf_def BufSize_def)
  have "q \<noteq> Inl Undefined \<and> q \<noteq> Inl Assert"
    using RecvLoop_in_bounds [of 2 s 0 pf] 1 buf by simp
  moreover have "fst (RecvLoop pf (unat (Buffer t ! 1)) 0 t) \<noteq> Inl Undefined"
    "fst (RecvLoop pf (unat (Buffer t ! 1)) 0 t) \<noteq> Inl Assert"
    using RecvLoop_in_bounds [of "unat (Buffer t ! 1)" t 0 pf] buf b by simp_all
  ultimately show ?thesis
    using 1 by (auto simp: RecvPackage_def RecvToBuffer_def thenM_def bindM_def Let_def
        split: sum.splits prod.splits)
qed

theorem recv_in_bounds_witness:
  "fst (RecvPackage arm (fresh_rpc [RxData (replicate 300 255)] [])) \<noteq> Inl Undefined \<and>
   fst (RecvPackage arm (fresh_rpc [RxData (replicate 300 255)] [])) \<noteq> Inl Assert"
  using recv_in_bounds [of "fresh_rpc [RxData (replicate 300 255)] []" arm] by simp

text \<open>
  \<open>PackError\<close> sends its package itself, and each of its callers calls \<open>SendPackage\<close> after it: the
  same error package goes out twice.
\<close>

lemma error_sent_twice:
  assumes "rpc_wf s" and "length msg \<le> char_limit pf" and "length msg \<le> 254"
    and "tx_after (length msg + 2) (tx (Conn s)) = Some t1"
    and "tx_after (length msg + 2) t1 = Some t2"
  shows "\<exists>s'. thenM (PackError pf msg) (SendPackage pf) s = (Inr (), s') \<and>
    sent (Conn s') = sent (Conn s) @ package (ErrCode s) (to_bytes msg) @ package (ErrCode s) (to_bytes msg)"
  using PackError_SendPackage [OF assms] by simp

text \<open>
  The size check of \<open>PackError\<close> admits a text of 255 characters, whose package has 257 bytes: the
  \<open>memcpy\<close> writes past the 256 bytes of the buffer.
\<close>

lemma error_of_255_overflows:
  assumes "rpc_wf s" and "length msg = 255"
  shows "fst (PackError pf msg s) = Inl Undefined"
  using PackError_255 [OF assms] .


end
