(* ===== verification/Server_Session.thy ===== *)
theory Server_Session
  imports Handler_Impl RPC_Provider
begin

text \<open>
  One client's session in the server of \<open>Src/Server.cpp\<close>: the dispatch of a package to its handler
  (\<open>GenericHandler\<close>, \<open>DispatchPackage\<close>), the server's own procedures, and the request loop of
  \<open>HandlerRoutine\<close> with its guards and its three \<open>catch\<close> clauses.

  The handler is any value of the interface \<open>IHandler\<close>.  What other threads do to this one is an
  argument: \<open>flags\<close> are the values the loop condition reads in \<open>DoShutdown\<close>, a cancellation is an
  event of the connection's scripts or of \<open>naps\<close> (the \<open>sleep_for\<close> of \<open>DebugBlock\<close>).  Log output is
  not modelled.
\<close>

section \<open>The session\<close>

record 'h session =
  Rpc :: rpc
  Hnd :: 'h
  connOk :: bool
  flags :: "bool list"    \<comment> \<open>what successive reads of \<open>DoShutdown\<close> give; \<open>False\<close> past the end\<close>
  naps :: "bool list"     \<comment> \<open>\<open>True\<close>: the thread is cancelled during this sleep\<close>
  kills :: nat            \<comment> \<open>\<open>SIGTERM\<close>s sent to the main thread\<close>

definition on_rpc :: "(rpc, 'a) prog \<Rightarrow> ('h session, 'a) prog" where
  "on_rpc = zoom Rpc (\<lambda>r. Rpc_update (\<lambda>_. r))"

definition on_handler :: "('h, 'a) prog \<Rightarrow> ('h session, 'a) prog" where
  "on_handler = zoom Hnd (\<lambda>h. Hnd_update (\<lambda>_. h))"

section \<open>GenericHandler\<close>

text \<open>The first statement: deserialize the request from the package buffer.\<close>

definition get_request ::
    "(byte list \<Rightarrow> cptr \<Rightarrow> 'm result) \<Rightarrow> MsgHeader \<Rightarrow> ('h session, byte list \<times> 'm) prog" where
  "get_request deserialize hdr =
     bindM (getM (\<lambda>s. Buffer (Rpc s))) (\<lambda>mem.
     bindM (liftE (deserialize mem (hData hdr))) (\<lambda>m. ret (mem, m)))"

text \<open>
  The last statement: \<open>rpc.PackMsg(Proc::ID, *responce)\<close>.  The members of \<open>Empty\<close> do not look at
  the object, so a null pointer to an empty response is packed like any other; a null pointer to a
  response with content is read through.
\<close>

definition pack_empty :: "platform \<Rightarrow> byte \<Rightarrow> unit option \<Rightarrow> ('h session, unit) prog" where
  "pack_empty pf i resp =
     on_rpc (PackMsg i (Empty_GetPackedSize ()) (\<lambda>b p. Empty_Serialize pf b p ()))"

definition pack_string :: "platform \<Rightarrow> byte \<Rightarrow> msg_string option \<Rightarrow> ('h session, unit) prog" where
  "pack_string pf i resp = (case resp of
      None \<Rightarrow> raise Undefined
    | Some m \<Rightarrow> on_rpc (PackMsg i (String_GetPackedSize m) (\<lambda>b p. String_Serialize pf b p m)))"

definition pack_status :: "platform \<Rightarrow> byte \<Rightarrow> msg_status option \<Rightarrow> ('h session, unit) prog" where
  "pack_status pf i resp = (case resp of
      None \<Rightarrow> raise Undefined
    | Some m \<Rightarrow> on_rpc (PackMsg i (ChipStatus_GetPackedSize m) (\<lambda>b p. ChipStatus_Serialize pf b p m)))"

text \<open>The procedures the server implements itself (\<open>OVERRIDE_HANDLER\<close>).\<close>

definition Server_Shutdown :: "('h session, unit option) prog" where
  "Server_Shutdown = thenM (modifyM (\<lambda>s. s\<lparr>kills := Suc (kills s)\<rparr>)) (ret None)"

definition Server_Ping :: "('h session, unit option) prog" where
  "Server_Ping = ret None"

definition Server_DebugBlock :: "('h session, unit option) prog" where
  "Server_DebugBlock s = (case naps s of
      [] \<Rightarrow> (Inr None, s)
    | True # r \<Rightarrow> (Inl Unwind, s\<lparr>naps := r\<rparr>)
    | False # r \<Rightarrow> (Inr None, s\<lparr>naps := r\<rparr>))"

definition Server_DebugThrow :: "('h session, unit option) prog" where
  "Server_DebugThrow = raise (Exn (RuntimeError ''Debug exception''))"

text \<open>\<open>GenericHandler<Proc>\<close> for the procedures with an empty request and an empty response.\<close>

definition empty_handler ::
    "platform \<Rightarrow> byte \<Rightarrow> ('h session, unit option) prog \<Rightarrow> MsgHeader \<Rightarrow> ('h session, unit) prog" where
  "empty_handler pf i body hdr =
     thenM (get_request (Empty_Deserialize pf) hdr) (bindM body (pack_empty pf i))"

fun GenericHandler ::
    "platform \<Rightarrow> 'h IHandler \<Rightarrow> procedure \<Rightarrow> MsgHeader \<Rightarrow> ('h session, unit) prog" where
  "GenericHandler pf I GetStatus hdr =
     thenM (get_request (Empty_Deserialize pf) hdr)
    (bindM (on_handler (iGetStatus I)) (pack_status pf (ID GetStatus)))"
| "GenericHandler pf I Flash hdr =
     bindM (get_request (String_Deserialize pf) hdr) (\<lambda>(mem, path).
     bindM (on_handler (iFlash I mem path)) (pack_empty pf (ID Flash)))"
| "GenericHandler pf I Connect hdr =
     bindM (get_request (UserData_Deserialize pf) hdr) (\<lambda>(mem, user).
     bindM (on_handler (iConnect I mem user)) (pack_string pf (ID Connect)))"
| "GenericHandler pf I Start hdr = empty_handler pf (ID Start) (on_handler (iStart I)) hdr"
| "GenericHandler pf I Reset hdr = empty_handler pf (ID Reset) (on_handler (iReset I)) hdr"
| "GenericHandler pf I Disconnect hdr = empty_handler pf (ID Disconnect) (on_handler (iDisconnect I)) hdr"
| "GenericHandler pf I Shutdown hdr = empty_handler pf (ID Shutdown) Server_Shutdown hdr"
| "GenericHandler pf I Ping hdr = empty_handler pf (ID Ping) Server_Ping hdr"
| "GenericHandler pf I DebugBlock hdr = empty_handler pf (ID DebugBlock) Server_DebugBlock hdr"
| "GenericHandler pf I DebugThrow hdr = empty_handler pf (ID DebugThrow) Server_DebugThrow hdr"

text \<open>The \<open>switch\<close> has no \<open>default\<close>: a package with any other id is left alone.\<close>

definition DispatchPackage ::
    "platform \<Rightarrow> 'h IHandler \<Rightarrow> MsgHeader \<Rightarrow> ('h session, unit) prog" where
  "DispatchPackage pf I hdr =
     (if hProcId hdr = ID GetStatus then GenericHandler pf I GetStatus hdr
      else if hProcId hdr = ID Flash then GenericHandler pf I Flash hdr
      else if hProcId hdr = ID Start then GenericHandler pf I Start hdr
      else if hProcId hdr = ID Reset then GenericHandler pf I Reset hdr
      else if hProcId hdr = ID Connect then GenericHandler pf I Connect hdr
      else if hProcId hdr = ID Disconnect then GenericHandler pf I Disconnect hdr
      else if hProcId hdr = ID Shutdown then GenericHandler pf I Shutdown hdr
      else if hProcId hdr = ID Ping then GenericHandler pf I Ping hdr
      else if hProcId hdr = ID DebugBlock then GenericHandler pf I DebugBlock hdr
      else if hProcId hdr = ID DebugThrow then GenericHandler pf I DebugThrow hdr
      else ret ())"

text \<open>The \<open>switch\<close> is a search in the list of all procedures: the order of its cases is of no account.\<close>

lemma DispatchPackage_search:
  "DispatchPackage pf I hdr = (case find (\<lambda>p. ID p = hProcId hdr) Enum.enum of
      Some p \<Rightarrow> GenericHandler pf I p hdr | None \<Rightarrow> ret ())"
  by (auto simp: DispatchPackage_def enum_procedure_def simp del: GenericHandler.simps)

section \<open>The request loop\<close>

text \<open>\<open>Defer guard{flagSetter}; m; guard.Cancel();\<close>\<close>

definition guarded :: "('h session, 'a) prog \<Rightarrow> ('h session, 'a) prog" where
  "guarded m s = (case m s of
      (Inl f, t) \<Rightarrow> (Inl f, if unwinds f then t\<lparr>connOk := False\<rparr> else t)
    | (Inr x, t) \<Rightarrow> (Inr x, t))"

text \<open>The \<open>try\<close> block: \<open>False\<close> is the \<open>break\<close> after the client's farewell.\<close>

definition try_block :: "platform \<Rightarrow> 'h IHandler \<Rightarrow> ('h session, bool) prog" where
  "try_block pf I =
     bindM (guarded (on_rpc (RecvPackage pf))) (\<lambda>hdr.
     if \<not> hOk hdr then ret False
     else thenM (DispatchPackage pf I hdr)
         (thenM (guarded (on_rpc (SendPackage pf)))
         (ret True)))"

definition send_error :: "platform \<Rightarrow> string \<Rightarrow> ('h session, unit) prog" where
  "send_error pf msg = thenM (on_rpc (PackError pf msg)) (on_rpc (SendPackage pf))"

definition loop_body :: "platform \<Rightarrow> 'h IHandler \<Rightarrow> ('h session, bool) prog" where
  "loop_body pf I s = (case try_block pf I s of
      (Inl (Exn e), t) \<Rightarrow> if connOk t then thenM (send_error pf (what e)) (ret True) t else (Inr False, t)
    | (Inl Unwind, t) \<Rightarrow>
        if connOk t then thenM (send_error pf ''Server closed'') (raise Unwind) t else (Inl Unwind, t)
    | r \<Rightarrow> r)"

text \<open>Reading \<open>DoShutdown\<close>.\<close>

definition read_flag :: "'h session \<Rightarrow> bool \<times> 'h session" where
  "read_flag s = (case flags s of [] \<Rightarrow> (False, s) | b # r \<Rightarrow> (b, s\<lparr>flags := r\<rparr>))"

subsection \<open>What an iteration uses up\<close>

text \<open>
  Only \<open>RecvPackage\<close> reads from the connection, and an iteration that is followed by another one
  has received a package: the loop ends when the script of the connection does.
\<close>

abbreviation pending :: "'h session \<Rightarrow> nat" where
  "pending s \<equiv> rx_size (rx (Conn (Rpc s)))"

definition keeps_pending :: "('h session, 'a) prog \<Rightarrow> bool" where
  "keeps_pending m \<longleftrightarrow> (\<forall>s. pending (snd (m s)) = pending s)"

lemma keeps_pendingD: "keeps_pending m \<Longrightarrow> m s = (r, t) \<Longrightarrow> pending t = pending s"
  by (metis keeps_pending_def snd_conv)

lemma keeps_pending_bindM:
  "keeps_pending m \<Longrightarrow> (\<And>x. keeps_pending (f x)) \<Longrightarrow> keeps_pending (bindM m f)"
  by (auto simp: keeps_pending_def bindM_def split: prod.splits sum.splits) (metis snd_conv)+

lemma keeps_pending_thenM: "keeps_pending m \<Longrightarrow> keeps_pending k \<Longrightarrow> keeps_pending (thenM m k)"
  by (simp add: thenM_def keeps_pending_bindM)

lemma keeps_pending_basic:
  "keeps_pending (ret x)" "keeps_pending (raise f)" "keeps_pending (liftE r)" "keeps_pending (getM g)"
  "keeps_pending (on_handler p)" "keeps_pending Server_Shutdown" "keeps_pending Server_Ping"
  "keeps_pending Server_DebugBlock" "keeps_pending Server_DebugThrow"
  by (auto simp: keeps_pending_def on_handler_def zoom_def Server_Shutdown_def Server_Ping_def
      Server_DebugBlock_def Server_DebugThrow_def thenM_def bindM_def
      split: prod.splits list.splits bool.splits)

lemma SendLoop_rx: "SendLoop pf n k s = (r, t) \<Longrightarrow> rx (Conn t) = rx (Conn s)"
proof (induction pf n k s rule: SendLoop.induct)
  case (1 pf sz tot s)
  show ?case
  proof (cases "\<exists>bs k c. tot < sz \<and> load (Buffer s) (Buf (int tot)) (sz - tot) = Inr bs \<and>
      sys_send bs (Conn s) = (Inr (Inr k), c) \<and> k \<noteq> 0")
    case True
    then obtain bs k c where h: "tot < sz" "load (Buffer s) (Buf (int tot)) (sz - tot) = Inr bs"
      "sys_send bs (Conn s) = (Inr (Inr k), c)" "k \<noteq> 0" by blast
    then have "SendLoop pf sz (tot + k) (s\<lparr>Conn := c\<rparr>) = (r, t)"
      using "1.prems" by (subst (asm) SendLoop.simps) simp
    from "1.IH" [OF h(1,2) h(3) [symmetric] refl refl h(4) this] h(3) show ?thesis
      by (auto simp: sys_send_def split: prod.splits)
  next
    case False
    with "1.prems" show ?thesis
      by (subst (asm) SendLoop.simps) (auto simp: sys_send_def split: prod.splits sum.splits if_splits)
  qed
qed

lemma keeps_pending_rpc:
  "keeps_pending (on_rpc (PackMsg i n f))" "keeps_pending (on_rpc (SendPackage pf))"
  "keeps_pending (on_rpc (PackError pf msg))"
proof -
  have put: "rx (Conn (snd (put_bytes i bs r))) = rx (Conn r)" for i bs r
    by (auto simp: put_bytes_def split: sum.splits)
  have send: "rx (Conn (snd (SendFromBuffer pf n r))) = rx (Conn r)" for n r
    by (metis SendFromBuffer_def SendLoop_rx prod.collapse)
  show "keeps_pending (on_rpc (PackMsg i n f))"
    using put
    by (auto simp: keeps_pending_def on_rpc_def zoom_def PackMsg_def thenM_def bindM_def
        split: prod.splits sum.splits) (metis snd_conv)+
  show "keeps_pending (on_rpc (SendPackage pf))"
    using send
    by (auto simp: keeps_pending_def on_rpc_def zoom_def SendPackage_def bindM_def split: prod.splits)
      (metis snd_conv)
  show "keeps_pending (on_rpc (PackError pf msg))"
    using put send
    by (auto simp: keeps_pending_def on_rpc_def zoom_def PackError_def thenM_def bindM_def
        split: prod.splits sum.splits if_splits) (metis snd_conv)+
qed

lemmas keeps_pending_rules = keeps_pending_bindM keeps_pending_thenM keeps_pending_basic keeps_pending_rpc

lemma keeps_pending_DispatchPackage: "keeps_pending (DispatchPackage pf I hdr)"
proof -
  have pack: "keeps_pending (pack_empty pf i r)" "keeps_pending (pack_string pf i q)"
    "keeps_pending (pack_status pf i u)" for i r q u
    by (auto simp: pack_empty_def pack_string_def pack_status_def split: option.splits
        intro: keeps_pending_rules)
  have req: "keeps_pending (get_request d hdr)" for d :: "byte list \<Rightarrow> cptr \<Rightarrow> 'm result"
    unfolding get_request_def by (intro keeps_pending_rules)
  have emp: "keeps_pending body \<Longrightarrow> keeps_pending (empty_handler pf i body hdr)" for i body
    unfolding empty_handler_def by (intro keeps_pending_rules pack req)
  have "keeps_pending (GenericHandler pf I p hdr)" for p
    by (cases p) (auto split: prod.splits intro!: keeps_pending_rules pack req emp)
  then show ?thesis by (simp add: DispatchPackage_def keeps_pending_basic del: GenericHandler.simps)
qed

lemma keeps_pending_guarded: "keeps_pending m \<Longrightarrow> keeps_pending (guarded m)"
  by (auto simp: keeps_pending_def guarded_def split: prod.splits sum.splits) (metis snd_conv)+

lemma RecvLoop_pending:
  "RecvLoop pf n k s = (r, t) \<Longrightarrow> rx_size (rx (Conn t)) \<le> rx_size (rx (Conn s)) \<and>
   (k < n \<and> r = Inr () \<longrightarrow> rx_size (rx (Conn t)) < rx_size (rx (Conn s)))"
proof (induction pf n k s rule: RecvLoop.induct)
  case (1 pf sz tot s)
  obtain q c where rec: "sys_recv (sz - tot) (Conn s) = (q, c)" by fastforce
  then have le: "rx_size (rx c) \<le> rx_size (rx (Conn s))"
    by (auto simp: sys_recv_def zoom_def split: prod.splits dest: script_read_size_le)
  show ?case
  proof (cases "\<exists>bs b. tot < sz \<and> q = Inr (Inr bs) \<and> bs \<noteq> [] \<and> store (Buffer s) (int tot) bs = Inr b")
    case False
    with "1.prems" rec le show ?thesis
      by (subst (asm) RecvLoop.simps) (auto split: if_splits sum.splits)
  next
    case True
    then obtain bs b where b: "tot < sz" "q = Inr (Inr bs)" "bs \<noteq> []" "store (Buffer s) (int tot) bs = Inr b"
      by blast
    have "rx_size (rx c) < rx_size (rx (Conn s))"
      using rec b(1,2) script_read_size [of "sz - tot" "rx (Conn s)"]
      by (auto simp: sys_recv_def zoom_def split: prod.splits)
    moreover from "1.prems" rec b
    have "RecvLoop pf sz (tot + length bs) (s\<lparr>Conn := c, Buffer := b\<rparr>) = (r, t)"
      by (subst (asm) RecvLoop.simps) simp
    note "1.IH" [OF b(1) rec [symmetric] b(2) refl b(3,4) this]
    ultimately show ?thesis by auto
  qed
qed

lemma RecvPackage_pending:
  assumes "RecvPackage pf s = (Inr hdr, t)"
  shows "rx_size (rx (Conn t)) < rx_size (rx (Conn s))"
proof -
  obtain u where 1: "RecvLoop pf 2 0 s = (Inr (), u)"
    and 2: "\<exists>n q. RecvLoop pf n 0 u = (q, t)"
    using assms
    by (auto simp: RecvPackage_def RecvToBuffer_def thenM_def bindM_def Let_def
        split: prod.splits sum.splits)
  from RecvLoop_pending [OF 1] 2 show ?thesis
    by (auto dest!: RecvLoop_pending)
qed

lemma try_block_pending:
  assumes "try_block pf I s = (r, t)" and "live r" and "connOk t \<or> (\<exists>b. r = Inr b)"
  shows "pending t < pending s"
proof -
  obtain q u where rec: "RecvPackage pf (Rpc s) = (q, u)" by fastforce
  show ?thesis
  proof (cases q)
    case (Inl f)
    with rec have "guarded (on_rpc (RecvPackage pf)) s =
        (Inl f, if unwinds f then s\<lparr>Rpc := u, connOk := False\<rparr> else s\<lparr>Rpc := u\<rparr>)"
      by (simp add: guarded_def on_rpc_def zoom_def)
    with assms show ?thesis by (auto simp: try_block_def bindM_def split: if_splits)
  next
    case (Inr hdr)
    with rec have g: "guarded (on_rpc (RecvPackage pf)) s = (Inr hdr, s\<lparr>Rpc := u\<rparr>)"
      by (simp add: guarded_def on_rpc_def zoom_def)
    let ?k = "thenM (DispatchPackage pf I hdr) (thenM (guarded (on_rpc (SendPackage pf))) (ret True))"
    have "keeps_pending ?k"
      by (intro keeps_pending_thenM keeps_pending_DispatchPackage keeps_pending_guarded
          keeps_pending_rpc keeps_pending_basic)
    then have "keeps_pending (if \<not> hOk hdr then ret False else ?k)"
      by (simp add: keeps_pending_basic)
    moreover have "(if \<not> hOk hdr then ret False else ?k) (s\<lparr>Rpc := u\<rparr>) = (r, t)"
      using assms(1) g by (simp add: try_block_def bindM_def)
    ultimately have "pending t = rx_size (rx (Conn u))"
      using keeps_pendingD by fastforce
    with RecvPackage_pending [of pf "Rpc s" hdr u] rec Inr show ?thesis by simp
  qed
qed

lemma keeps_pending_send_error: "keeps_pending (send_error pf msg)"
  unfolding send_error_def by (intro keeps_pending_thenM keeps_pending_rpc)

lemma loop_body_pending:
  assumes "loop_body pf I s = (Inr True, t)"
  shows "pending t < pending s"
proof -
  obtain r u where run: "try_block pf I s = (r, u)" by fastforce
  show ?thesis
  proof (cases "\<exists>e. r = Inl (Exn e)")
    case True
    then obtain e where e: "r = Inl (Exn e)" by blast
    with assms run have "connOk u" and sent: "thenM (send_error pf (what e)) (ret True) u = (Inr True, t)"
      by (auto simp: loop_body_def split: if_splits)
    have "keeps_pending (thenM (send_error pf (what e)) (ret True))"
      by (intro keeps_pending_thenM keeps_pending_send_error keeps_pending_basic)
    with sent have "pending t = pending u" using keeps_pendingD by blast
    with try_block_pending [OF run] e \<open>connOk u\<close> show ?thesis by simp
  next
    case False
    with assms run have "r = Inr True \<and> u = t"
      by (auto simp: loop_body_def thenM_def bindM_def split: sum.splits fault.splits if_splits prod.splits)
    with try_block_pending [OF run] show ?thesis by auto
  qed
qed

function RequestLoop :: "platform \<Rightarrow> 'h IHandler \<Rightarrow> ('h session, unit) prog" where
  "RequestLoop pf I s = (case read_flag s of
      (True, s) \<Rightarrow> (Inr (), s)
    | (False, s) \<Rightarrow> (case loop_body pf I s of
          (Inr True, t) \<Rightarrow> RequestLoop pf I t
        | (Inr False, t) \<Rightarrow> (Inr (), t)
        | (Inl f, t) \<Rightarrow> (Inl f, t)))"
  by pat_completeness auto

lemma read_flag_pending: "read_flag s = (b, t) \<Longrightarrow> pending t = pending s"
  by (auto simp: read_flag_def split: list.splits)

termination RequestLoop
  by (relation "measure (\<lambda>(pf, I, s). pending s)")
    (auto dest!: sym [of "(_, _)"] loop_body_pending read_flag_pending)

declare RequestLoop.simps [simp del]

section \<open>HandlerRoutine\<close>

text \<open>What \<open>socket.Accept()\<close> gives the thread.\<close>

datatype accept_event = Accepted conn | AcceptError int | AcceptCancel

fun ServerSocket_Accept :: "platform \<Rightarrow> accept_event \<Rightarrow> conn result" where
  "ServerSocket_Accept pf (Accepted c) = Inr c"
| "ServerSocket_Accept pf (AcceptError e) = Inl (throw_errno pf ''Accept'' ''Failed to accept connection'' e)"
| "ServerSocket_Accept pf AcceptCancel = Inl Unwind"

text \<open>
  The routine without the bookkeeping of threads, which is in \<open>Server_Threads\<close>.  \<open>garbage\<close> is the
  uninitialized content of the package buffer.
\<close>

definition HandlerRoutine ::
    "platform \<Rightarrow> 'h IHandler \<Rightarrow> byte list \<Rightarrow> accept_event \<Rightarrow> ('h session, unit) prog" where
  "HandlerRoutine pf I garbage acc s = (case ServerSocket_Accept pf acc of
      Inl (Exn e) \<Rightarrow> (Inr (), s)
    | Inl f \<Rightarrow> (Inl f, s)
    | Inr c \<Rightarrow>
        RequestLoop pf I (s\<lparr>Rpc := RPCProvider_new c garbage Error_ID, connOk := True\<rparr>))"

text \<open>An exception that leaves a thread's start routine ends the process.\<close>

definition thread_result :: "unit result \<Rightarrow> unit result" where
  "thread_result r = (case r of Inl (Exn e) \<Rightarrow> Inl Terminate | _ \<Rightarrow> r)"

end
