(* ===== verification/Session_Spec.thy ===== *)
theory Session_Spec
  imports Server_Session
begin

text \<open>
  What a session does, seen from the client: a specification of the server on values instead of
  buffers and pointers, and the proof that \<open>HandlerRoutine\<close> with \<open>HandlerImpl\<close> implements it on the
  byte stream.

  A command is a procedure with its argument; \<open>exec\<close> runs it on the handler and gives the payload
  of the response; \<open>reply\<close> is the byte string the server answers with.  \<open>exec_all\<close> runs a list of
  commands; it is \<open>None\<close> when a message does not fit into a package or a handler does not come back.
\<close>

section \<open>Commands\<close>

datatype command =
    CGetStatus
  | CFlash string
  | CStart
  | CReset
  | CConnect user
  | CDisconnect
  | CShutdown
  | CPing
  | CDebugBlock
  | CDebugThrow

fun proc_of :: "command \<Rightarrow> procedure" where
  "proc_of CGetStatus = GetStatus"
| "proc_of (CFlash path) = Flash"
| "proc_of CStart = Start"
| "proc_of CReset = Reset"
| "proc_of (CConnect u) = Connect"
| "proc_of CDisconnect = Disconnect"
| "proc_of CShutdown = Shutdown"
| "proc_of CPing = Ping"
| "proc_of CDebugBlock = DebugBlock"
| "proc_of CDebugThrow = DebugThrow"

fun payload_of :: "command \<Rightarrow> byte list" where
  "payload_of (CFlash path) = enc_string path"
| "payload_of (CConnect u) = enc_user u"
| "payload_of c = []"

definition request_bytes :: "command \<Rightarrow> byte list" where
  "request_bytes c = package (ID (proc_of c)) (payload_of c)"

text \<open>The sizes that fit into a package and that \<open>char\<close> keeps.\<close>

definition fits :: "platform \<Rightarrow> 'a list \<Rightarrow> bool" where
  "fits pf p \<longleftrightarrow> length p \<le> char_limit pf \<and> length p \<le> 254"

section \<open>The specification\<close>

fun exec :: "platform \<Rightarrow> command \<Rightarrow> (handler, byte list) prog" where
  "exec pf CGetStatus = getM (\<lambda>h. enc_status
     (GetStateDescription (Firmware h), hAcquired h, hUserName h, hUserPid h))"
| "exec pf (CFlash path) = thenM (EnsureNotAcquired ''Flash'')
     (thenM (with_firmware (FlashBootlader pf path)) (ret []))"
| "exec pf CStart = thenM (with_firmware (StartFirmware pf)) (ret [])"
| "exec pf CReset = thenM (EnsureNotAcquired ''Reset'')
     (thenM (with_firmware (ResetChip pf)) (ret []))"
| "exec pf (CConnect u) = thenM (EnsureNotAcquired ''Connect'')
     (bindM (getM Firmware) (\<lambda>f.
      if State f \<noteq> Running
      then raise (Exn (RuntimeError (''Can'' @ [CHR 0x27] @ ''t connect: firmware is not started'')))
      else thenM (with_os (ClearPort pf (MbPort f)))
          (thenM (modifyM (\<lambda>h. h\<lparr>hUserName := fst u, hUserPid := snd u, hAcquired := True\<rparr>))
          (ret (enc_string (MbPort f))))))"
| "exec pf CDisconnect = bindM (getM hAcquired) (\<lambda>acq.
     if \<not> acq then raise (Exn (RuntimeError ''Port is not acquired''))
     else thenM (modifyM (hAcquired_update (\<lambda>_. False))) (ret []))"
| "exec pf CDebugThrow = raise (Exn (RuntimeError ''Debug exception''))"
| "exec pf c = ret []"

text \<open>A \<open>Shutdown\<close> request raises \<open>SIGTERM\<close> for the main thread, once.\<close>

definition sigterms :: "command \<Rightarrow> nat" where
  "sigterms c = (if c = CShutdown then 1 else 0)"

text \<open>
  The answer: one package with the response, or the error package, twice.
\<close>

fun reply :: "platform \<Rightarrow> command \<Rightarrow> byte list result \<Rightarrow> byte list option" where
  "reply pf c (Inr p) = (if fits pf p then Some (package (ID (proc_of c)) p) else None)"
| "reply pf c (Inl (Exn e)) =
     (if fits pf (what e) then
        Some (package Error_ID (to_bytes (what e)) @ package Error_ID (to_bytes (what e)))
      else None)"
| "reply pf c (Inl f) = None"

fun exec_all :: "platform \<Rightarrow> command list \<Rightarrow> handler \<Rightarrow> (byte list \<times> handler) option" where
  "exec_all pf [] h = Some ([], h)"
| "exec_all pf (c # cs) h =
     (if fits pf (payload_of c) then
        (case exec pf c h of (r, h1) \<Rightarrow> (case reply pf c r of
            None \<Rightarrow> None
          | Some out \<Rightarrow> (case exec_all pf cs h1 of
                None \<Rightarrow> None
              | Some (outs, h2) \<Rightarrow> Some (out @ outs, h2))))
      else None)"

section \<open>One request\<close>

text \<open>A peer that takes everything: each \<open>send\<close> accepts a whole package.\<close>

definition tx_open :: "tx_event list \<Rightarrow> nat \<Rightarrow> bool" where
  "tx_open t n \<longleftrightarrow> n \<le> length t \<and> (\<forall>e \<in> set (take n t). \<exists>k \<ge> 256. e = TxAccept k)"

lemma tx_open_after:
  "tx_open t (Suc n) \<Longrightarrow> 0 < k \<Longrightarrow> k \<le> 256 \<Longrightarrow> \<exists>t'. tx_after k t = Some t' \<and> tx_open t' n"
proof (cases t)
  case (Cons e t')
  assume a: "tx_open t (Suc n)" and k: "0 < k" "k \<le> 256"
  from a Cons obtain m where m: "e = TxAccept m" "256 \<le> m" by (auto simp: tx_open_def)
  have "tx_open t' n" using a Cons by (auto simp: tx_open_def)
  with m Cons k show ?thesis by simp
qed (simp add: tx_open_def)

lemma tx_open_mono: "tx_open t n \<Longrightarrow> m \<le> n \<Longrightarrow> tx_open t m"
  by (auto simp: tx_open_def dest: set_take_subset_set_take [THEN subsetD])

text \<open>The session state the lemmas talk about.\<close>

definition ready :: "'h session \<Rightarrow> bool" where
  "ready s \<longleftrightarrow> rpc_wf (Rpc s) \<and> ErrCode (Rpc s) = Error_ID \<and> connOk s \<and> naps s = []"

text \<open>A package is taken from the stream and dispatched; the response is sent, once.\<close>

lemma loop_body_reply:
  assumes "ready s" and "fits pf p" and "rx_bytes (rx (Conn (Rpc s))) = package (ID c) p @ rest"
    and "\<And>r. rpc_wf r \<Longrightarrow> ErrCode r = Error_ID \<Longrightarrow> holds_at (Buffer r) 0 p \<Longrightarrow>
      \<exists>b. DispatchPackage pf I (header_of pf Error_ID (ID c) p) (s\<lparr>Rpc := r\<rparr>) =
        (Inr (), s\<lparr>Rpc := r\<lparr>Buffer := b\<rparr>, Hnd := h, kills := k\<rparr>) \<and> length b = 256 \<and>
        holds_at b 0 (package (ID c) q)"
    and "fits pf q" and "tx_open (tx (Conn (Rpc s))) (Suc n)"
  shows "\<exists>t. loop_body pf I s = (Inr True, t) \<and> ready t \<and> Hnd t = h \<and> flags t = flags s \<and> kills t = k \<and>
    rx (Conn (Rpc t)) = rx_drop (length p + 2) (rx (Conn (Rpc s))) \<and> tx_open (tx (Conn (Rpc t))) n \<and>
    sent (Conn (Rpc t)) = sent (Conn (Rpc s)) @ package (ID c) q"
proof -
  have ok: "hOk (header_of pf Error_ID (ID c) p)"
    by (cases c) (simp_all add: header_of_def Error_ID_def char_val_def)
  have l: "length p \<le> 255" using assms(2) by (simp add: fits_def)
  obtain r where rec: "RecvPackage pf (Rpc s) = (Inr (header_of pf Error_ID (ID c) p), r)"
    and r: "rpc_wf r" "ErrCode r = Error_ID" "holds_at (Buffer r) 0 p"
      "Conn r = (Conn (Rpc s))\<lparr>rx := rx_drop (length p + 2) (rx (Conn (Rpc s)))\<rparr>"
    using RecvPackage_ok [OF _ assms(3) l, of pf] assms(1) by (auto simp: ready_def)
  obtain b where disp: "DispatchPackage pf I (header_of pf Error_ID (ID c) p) (s\<lparr>Rpc := r\<rparr>) =
      (Inr (), s\<lparr>Rpc := r\<lparr>Buffer := b\<rparr>, Hnd := h, kills := k\<rparr>)" "length b = 256"
      "holds_at b 0 (package (ID c) q)"
    using assms(4) [OF r(1-3)] by blast
  obtain t' where t': "tx_after (length q + 2) (tx (Conn (Rpc s))) = Some t'" "tx_open t' n"
    using tx_open_after [OF assms(6), of "length q + 2"] assms(5) by (auto simp: fits_def)
  have send: "SendPackage pf (r\<lparr>Buffer := b\<rparr>) = (Inr (), r\<lparr>Buffer := b,
      Conn := (Conn r)\<lparr>tx := t', sent := sent (Conn r) @ package (ID c) q\<rparr>\<rparr>)"
    using SendPackage_ok [of "r\<lparr>Buffer := b\<rparr>" "ID c" q pf t'] disp(3) assms(5) t'(1) r(4)
    by (simp add: fits_def)
  let ?t = "s\<lparr>Rpc := r\<lparr>Buffer := b, Conn := (Conn r)\<lparr>tx := t', sent := sent (Conn r) @ package (ID c) q\<rparr>\<rparr>,
      Hnd := h, kills := k\<rparr>"
  have "try_block pf I s = (Inr True, ?t)"
    using rec ok disp(1) send
    by (simp add: try_block_def thenM_def bindM_def guarded_def on_rpc_def zoom_def)
  then have "loop_body pf I s = (Inr True, ?t)" by (simp add: loop_body_def)
  then show ?thesis
    using assms(1) r disp(2) t'(2) by (auto simp: ready_def rpc_wf_def BufSize_def)
qed

text \<open>A handler that throws: the error package is sent, twice.\<close>

lemma loop_body_error:
  assumes "ready s" and "fits pf p" and "rx_bytes (rx (Conn (Rpc s))) = package (ID c) p @ rest"
    and "\<And>r. rpc_wf r \<Longrightarrow> ErrCode r = Error_ID \<Longrightarrow> holds_at (Buffer r) 0 p \<Longrightarrow>
      DispatchPackage pf I (header_of pf Error_ID (ID c) p) (s\<lparr>Rpc := r\<rparr>) =
        (Inl (Exn e), s\<lparr>Rpc := r, Hnd := h\<rparr>)"
    and "fits pf (what e)" and "tx_open (tx (Conn (Rpc s))) (Suc (Suc n))"
  shows "\<exists>t. loop_body pf I s = (Inr True, t) \<and> ready t \<and> Hnd t = h \<and> flags t = flags s \<and> kills t = kills s \<and>
    rx (Conn (Rpc t)) = rx_drop (length p + 2) (rx (Conn (Rpc s))) \<and> tx_open (tx (Conn (Rpc t))) n \<and>
    sent (Conn (Rpc t)) = sent (Conn (Rpc s)) @ package Error_ID (to_bytes (what e)) @
      package Error_ID (to_bytes (what e))"
proof -
  have ok: "hOk (header_of pf Error_ID (ID c) p)"
    by (cases c) (simp_all add: header_of_def Error_ID_def char_val_def)
  have l: "length p \<le> 255" using assms(2) by (simp add: fits_def)
  obtain r where rec: "RecvPackage pf (Rpc s) = (Inr (header_of pf Error_ID (ID c) p), r)"
    and r: "rpc_wf r" "ErrCode r = Error_ID" "holds_at (Buffer r) 0 p"
      "Conn r = (Conn (Rpc s))\<lparr>rx := rx_drop (length p + 2) (rx (Conn (Rpc s)))\<rparr>"
    using RecvPackage_ok [OF _ assms(3) l, of pf] assms(1) by (auto simp: ready_def)
  obtain t1 where t1: "tx_after (length (what e) + 2) (tx (Conn r)) = Some t1" "tx_open t1 (Suc n)"
    using tx_open_after [OF assms(6), of "length (what e) + 2"] assms(5) r(4) by (auto simp: fits_def)
  obtain t2 where t2: "tx_after (length (what e) + 2) t1 = Some t2" "tx_open t2 n"
    using tx_open_after [OF t1(2), of "length (what e) + 2"] assms(5) by (auto simp: fits_def)
  let ?p = "package Error_ID (to_bytes (what e))"
  let ?r = "r\<lparr>Conn := (Conn r)\<lparr>tx := t2, sent := sent (Conn r) @ ?p @ ?p\<rparr>,
      Buffer := overwrite (Buffer r) 0 ?p\<rparr>"
  have "thenM (PackError pf (what e)) (SendPackage pf) r = (Inr (), ?r)"
    using PackError_SendPackage [OF r(1), of "what e" pf t1 t2] assms(5) t1(1) t2(1) r(2)
    by (simp add: fits_def)
  then have err: "send_error pf (what e) (s\<lparr>Rpc := r, Hnd := h\<rparr>) = (Inr (), s\<lparr>Rpc := ?r, Hnd := h\<rparr>)"
    by (auto simp: send_error_def thenM_def bindM_def on_rpc_def zoom_def split: prod.splits sum.splits)
  have "try_block pf I s = (Inl (Exn e), s\<lparr>Rpc := r, Hnd := h\<rparr>)"
    using rec ok assms(4) [OF r(1-3)]
    by (simp add: try_block_def thenM_def bindM_def guarded_def on_rpc_def zoom_def)
  then have "loop_body pf I s = (Inr True, s\<lparr>Rpc := ?r, Hnd := h\<rparr>)"
    using err assms(1) by (simp add: loop_body_def ready_def thenM_def bindM_def)
  moreover have "rpc_wf ?r" using r(1) assms(5) by (simp add: rpc_wf_def BufSize_def fits_def)
  ultimately show ?thesis
    using assms(1) r t2(2) by (auto simp: ready_def)
qed

section \<open>The handlers compute the specification\<close>

definition map_res :: "('a \<Rightarrow> 'b) \<Rightarrow> 'a result \<times> 's \<Rightarrow> 'b result \<times> 's" where
  "map_res f x = (map_sum id f (fst x), snd x)"

lemma map_res_simps [simp]:
  "map_res f (Inr x, s) = (Inr (f x), s)" "map_res f (Inl e, s) = (Inl e, s)"
  by (simp_all add: map_res_def)

lemma HandlerImpl_exec:
  "HandlerImpl_Start pf h = map_res (\<lambda>_. Some ()) (exec pf CStart h)"
  "HandlerImpl_Reset pf h = map_res (\<lambda>_. Some ()) (exec pf CReset h)"
  "HandlerImpl_Disconnect h = map_res (\<lambda>_. Some ()) (exec pf CDisconnect h)"
  by (auto simp: HandlerImpl_Start_def HandlerImpl_Reset_def HandlerImpl_Disconnect_def thenM_def
      bindM_def split: prod.splits sum.splits)

lemma HandlerImpl_Flash_exec:
  "ToCxxStr pf mem m = Inr path \<Longrightarrow>
   HandlerImpl_Flash pf mem m h = map_res (\<lambda>_. Some ()) (exec pf (CFlash path) h)"
  by (auto simp: HandlerImpl_Flash_def thenM_def bindM_def split: prod.splits sum.splits)

lemma HandlerImpl_Connect_exec:
  "view_user pf mem m = Inr u \<Longrightarrow>
   HandlerImpl_Connect pf mem m h =
   map_res (\<lambda>_. Some (msg_of_string (MbPort (Firmware h)))) (exec pf (CConnect u) h)"
  by (auto simp: HandlerImpl_Connect_def thenM_def bindM_def GetState_def GetPort_def view_user_def
      bindE_eq_Inr EnsureNotAcquired_def split: prod.splits sum.splits if_splits)

lemma HandlerImpl_GetStatus_exec:
  "HandlerImpl_GetStatus h = (Inr (Some (msg_of_status
     (GetStateDescription (Firmware h), hAcquired h, hUserName h, hUserPid h))), h)"
  by (simp add: HandlerImpl_GetStatus_def)

section \<open>Dispatch\<close>

lemma DispatchPackage_ID:
  "hProcId hdr = ID c \<Longrightarrow> DispatchPackage pf I hdr = GenericHandler pf I c hdr"
  by (cases c) (simp_all add: DispatchPackage_search enum_procedure_def del: GenericHandler.simps)

lemma header_of_sel [simp]:
  "hProcId (header_of pf e i p) = i" "hData (header_of pf e i p) = Buf 0"
  by (simp_all add: header_of_def Let_def)

lemma pack_empty_ok:
  assumes "rpc_wf (Rpc s)"
  shows "pack_empty pf i r s =
    (Inr (), s\<lparr>Rpc := (Rpc s)\<lparr>Buffer := overwrite (Buffer (Rpc s)) 0 (package i [])\<rparr>\<rparr>)"
  using empty_codec.PackMsg_enc [OF assms, of "()" pf i]
  by (simp add: pack_empty_def on_rpc_def zoom_def enc_empty_def)

lemma pack_string_ok:
  assumes "rpc_wf (Rpc s)" and "fits pf (enc_string v)"
  shows "pack_string pf i (Some (msg_of_string v)) s =
    (Inr (), s\<lparr>Rpc := (Rpc s)\<lparr>Buffer := overwrite (Buffer (Rpc s)) 0 (package i (enc_string v))\<rparr>\<rparr>)"
  using string_codec.PackMsg_enc [OF assms(1), of v pf i] assms(2)
  by (simp add: pack_string_def on_rpc_def zoom_def fits_def)

lemma pack_status_ok:
  assumes "rpc_wf (Rpc s)" and "fits pf (enc_status v)"
  shows "pack_status pf i (Some (msg_of_status v)) s =
    (Inr (), s\<lparr>Rpc := (Rpc s)\<lparr>Buffer := overwrite (Buffer (Rpc s)) 0 (package i (enc_status v))\<rparr>\<rparr>)"
  using status_codec.PackMsg_enc [OF assms(1), of v pf i] assms(2)
  by (simp add: pack_status_def on_rpc_def zoom_def fits_def)

lemma empty_handler_ok:
  "hData hdr = Buf 0 \<Longrightarrow> empty_handler pf i body hdr s = bindM body (pack_empty pf i) s"
  by (simp add: empty_handler_def get_request_def Empty_Deserialize_def thenM_def bindM_def)

text \<open>A request's pointers lead to its content.\<close>

lemma get_request_ok:
  "deserialize (Buffer (Rpc s)) (hData hdr) = Inr m \<Longrightarrow>
   get_request deserialize hdr s = (Inr (Buffer (Rpc s), m), s)"
  by (simp add: get_request_def bindM_def)

lemma on_handler_apply: "m (Hnd s) = (q, h) \<Longrightarrow> on_handler m s = (q, s\<lparr>Hnd := h\<rparr>)"
  by (simp add: on_handler_def zoom_def)

text \<open>The handler runs, then its response is packed: both outcomes at once.\<close>

definition packs ::
    "rpc \<Rightarrow> byte \<Rightarrow> nat \<Rightarrow> byte list result \<times> 'h \<Rightarrow> 'h session \<Rightarrow> unit result \<times> 'h session \<Rightarrow> bool" where
  "packs r i k x s y \<longleftrightarrow> (case x of
      (Inr p, h) \<Rightarrow> y = (Inr (), s\<lparr>Rpc := r\<lparr>Buffer := overwrite (Buffer r) 0 (package i p)\<rparr>, Hnd := h,
         kills := kills s + k\<rparr>)
    | (Inl f, h) \<Rightarrow> y = (Inl f, s\<lparr>Rpc := r, Hnd := h\<rparr>))"

lemma on_handler_packs:
  assumes "m (Hnd s) = map_res f (q, h)"
    and "\<And>p. q = Inr p \<Longrightarrow> pack (f p) (s\<lparr>Rpc := r, Hnd := h\<rparr>) =
      (Inr (), s\<lparr>Rpc := r\<lparr>Buffer := overwrite (Buffer r) 0 (package i p)\<rparr>, Hnd := h\<rparr>)"
  shows "packs r i 0 (q, h) s (bindM (on_handler m) pack (s\<lparr>Rpc := r\<rparr>))"
  using assms
  by (cases q) (auto simp: packs_def bindM_def on_handler_def zoom_def)

lemma on_handler_packs_empty:
  assumes "rpc_wf r" and "m (Hnd s) = map_res (\<lambda>_. Some ()) (q, h)" and "\<And>p. q = Inr p \<Longrightarrow> p = []"
  shows "packs r i 0 (q, h) s (bindM (on_handler m) (pack_empty pf i) (s\<lparr>Rpc := r\<rparr>))"
  using assms pack_empty_ok [of "s\<lparr>Rpc := r, Hnd := h\<rparr>" pf i "Some ()"]
  by (intro on_handler_packs [where f = "\<lambda>_. Some ()"]) auto

text \<open>The answer to every request but \<open>Connect\<close> and \<open>GetStatus\<close> has no content.\<close>

lemma exec_empty:
  assumes "exec pf c h = (Inr p, h')" and "\<forall>u. c \<noteq> CConnect u" and "c \<noteq> CGetStatus"
  shows "p = []"
  using assms by (cases c) (auto simp: thenM_def bindM_def split: prod.splits sum.splits if_splits)

lemma dispatch_Flash:
  assumes "rpc_wf r" and "holds_at (Buffer r) 0 (enc_string path)" and "length path < char_limit pf"
    and "exec pf (CFlash path) (Hnd s) = (q, h)" and "hData hdr = Buf 0"
  shows "packs r (ID Flash) 0 (q, h) s (GenericHandler pf (HandlerImpl pf) Flash hdr (s\<lparr>Rpc := r\<rparr>))"
proof -
  obtain m where m: "String_Deserialize pf (Buffer r) (Buf 0) = Inr m" "ToCxxStr pf (Buffer r) m = Inr path"
    using String_Deserialize_ok [OF assms(3), of "Buffer r" 0] assms(2) by auto
  have "packs r (ID Flash) 0 (q, h) s
      (bindM (on_handler (iFlash (HandlerImpl pf) (Buffer r) m)) (pack_empty pf (ID Flash)) (s\<lparr>Rpc := r\<rparr>))"
    using HandlerImpl_Flash_exec [OF m(2), of "Hnd s"] assms(4) exec_empty [of pf "CFlash path" "Hnd s"]
    by (intro on_handler_packs_empty [OF assms(1)]) (auto simp: HandlerImpl_def)
  then show ?thesis
    using m(1) assms(5) get_request_ok [of "String_Deserialize pf" "s\<lparr>Rpc := r\<rparr>" hdr m]
    by (simp add: bindM_def)
qed

lemma dispatch_Connect:
  assumes "rpc_wf r" and "holds_at (Buffer r) 0 (enc_user u)" and "length (fst u) < char_limit pf"
    and "exec pf (CConnect u) (Hnd s) = (q, h)" and "hData hdr = Buf 0" and "\<And>p. q = Inr p \<Longrightarrow> fits pf p"
  shows "packs r (ID Connect) 0 (q, h) s (GenericHandler pf (HandlerImpl pf) Connect hdr (s\<lparr>Rpc := r\<rparr>))"
proof -
  let ?port = "MbPort (Firmware (Hnd s))"
  obtain m where m: "UserData_Deserialize pf (Buffer r) (Buf 0) = Inr m" "view_user pf (Buffer r) m = Inr u"
    using UserData_Deserialize_ok [OF assms(3), of "Buffer r" 0] assms(2) by auto
  have "p = enc_string ?port" if "q = Inr p" for p
    using assms(4) that
    by (auto simp: thenM_def bindM_def EnsureNotAcquired_def split: prod.splits sum.splits if_splits)
  then have "packs r (ID Connect) 0 (q, h) s
      (bindM (on_handler (iConnect (HandlerImpl pf) (Buffer r) m)) (pack_string pf (ID Connect)) (s\<lparr>Rpc := r\<rparr>))"
    using HandlerImpl_Connect_exec [OF m(2), of "Hnd s"] assms(1,4,6)
      pack_string_ok [of "s\<lparr>Rpc := r, Hnd := h\<rparr>" pf ?port "ID Connect"]
    by (intro on_handler_packs [where f = "\<lambda>_. Some (msg_of_string ?port)"]) (auto simp: HandlerImpl_def)
  then show ?thesis
    using m(1) assms(5) get_request_ok [of "UserData_Deserialize pf" "s\<lparr>Rpc := r\<rparr>" hdr m]
    by (simp add: bindM_def)
qed

lemma dispatch_GetStatus:
  assumes "rpc_wf r" and "exec pf CGetStatus (Hnd s) = (q, h)" and "hData hdr = Buf 0"
    and "\<And>p. q = Inr p \<Longrightarrow> fits pf p"
  shows "packs r (ID GetStatus) 0 (q, h) s (GenericHandler pf (HandlerImpl pf) GetStatus hdr (s\<lparr>Rpc := r\<rparr>))"
proof -
  let ?v = "(GetStateDescription (Firmware (Hnd s)), hAcquired (Hnd s), hUserName (Hnd s), hUserPid (Hnd s))"
  have "q = Inr (enc_status ?v)" "h = Hnd s" using assms(2) by auto
  with assms show ?thesis
    using pack_status_ok [of "s\<lparr>Rpc := r\<rparr>" pf ?v "ID GetStatus"]
      get_request_ok [of "Empty_Deserialize pf" "s\<lparr>Rpc := r\<rparr>" hdr "()"]
    by (auto simp: packs_def thenM_def bindM_def on_handler_def zoom_def HandlerImpl_def
        HandlerImpl_GetStatus_exec Empty_Deserialize_def)
qed

text \<open>The server answers four procedures itself, without the handler.\<close>

lemma dispatch_own:
  assumes "rpc_wf r" and "naps s = []" and "exec pf c (Hnd s) = (q, h)" and "hData hdr = Buf 0"
    and "c \<in> {CShutdown, CPing, CDebugBlock, CDebugThrow}"
  shows "packs r (ID (proc_of c)) (sigterms c) (q, h) s (GenericHandler pf I (proc_of c) hdr (s\<lparr>Rpc := r\<rparr>))"
proof -
  have "pack_empty pf i x (s\<lparr>Rpc := r, kills := k\<rparr>) = (Inr (), s\<lparr>Rpc :=
      r\<lparr>Buffer := overwrite (Buffer r) 0 (package i [])\<rparr>, kills := k\<rparr>)" for i x k
    using pack_empty_ok [of "s\<lparr>Rpc := r, kills := k\<rparr>" pf i x] assms(1) by simp
  from this [of _ _ "Suc (kills s)"] this [of _ _ "kills s"] assms show ?thesis
    by (auto simp: packs_def empty_handler_ok Server_Shutdown_def Server_Ping_def Server_DebugBlock_def
        Server_DebugThrow_def thenM_def bindM_def sigterms_def)
qed

lemma dispatch_simple:
  assumes "rpc_wf r" and "exec pf c (Hnd s) = (q, h)" and "hData hdr = Buf 0"
    and "c \<in> {CStart, CReset, CDisconnect}"
  shows "packs r (ID (proc_of c)) (sigterms c) (q, h) s (GenericHandler pf (HandlerImpl pf) (proc_of c) hdr (s\<lparr>Rpc := r\<rparr>))"
proof -
  have q: "q = Inr p \<Longrightarrow> p = []" for p using assms(2,4) exec_empty [of pf c "Hnd s" p h] by auto
  note emp = on_handler_packs_empty [OF assms(1) _ q, where s = s and pf = pf]
  show ?thesis
    using assms(2-4) emp [of "HandlerImpl_Start pf"] emp [of "HandlerImpl_Reset pf"] emp [of HandlerImpl_Disconnect]
      HandlerImpl_exec [where pf = pf and h = "Hnd s"]
    by (auto simp: empty_handler_ok HandlerImpl_def sigterms_def simp del: exec.simps)
qed

lemma dispatch_exec:
  assumes "rpc_wf r" and "holds_at (Buffer r) 0 (payload_of c)" and "fits pf (payload_of c)"
    and "naps s = []" and "exec pf c (Hnd s) = (q, h)" and "\<And>p. q = Inr p \<Longrightarrow> fits pf p"
  shows "packs r (ID (proc_of c)) (sigterms c) (q, h) s (DispatchPackage pf (HandlerImpl pf)
    (header_of pf Error_ID (ID (proc_of c)) (payload_of c)) (s\<lparr>Rpc := r\<rparr>))"
proof -
  let ?hdr = "header_of pf Error_ID (ID (proc_of c)) (payload_of c)"
  have "packs r (ID (proc_of c)) (sigterms c) (q, h) s (GenericHandler pf (HandlerImpl pf) (proc_of c) ?hdr (s\<lparr>Rpc := r\<rparr>))"
  proof (cases "c \<in> {CShutdown, CPing, CDebugBlock, CDebugThrow} \<or> c \<in> {CStart, CReset, CDisconnect}")
    case True
    then show ?thesis
      using dispatch_own [OF assms(1,4,5)] dispatch_simple [OF assms(1,5)] by fastforce
  next
    case False
    then show ?thesis
      using assms dispatch_Flash dispatch_Connect dispatch_GetStatus
      by (cases c) (auto simp: fits_def sigterms_def simp del: exec.simps GenericHandler.simps)
  qed
  moreover have "DispatchPackage pf (HandlerImpl pf) ?hdr = GenericHandler pf (HandlerImpl pf) (proc_of c) ?hdr"
    by (rule DispatchPackage_ID) simp
  ultimately show ?thesis by simp
qed

end
