(* ===== verification/Session_Transcript.thy ===== *)
theory Session_Transcript
  imports Session_Spec
begin

text \<open>
  A whole session: the request loop of \<open>HandlerRoutine\<close>, run with \<open>HandlerImpl\<close> on the byte stream
  of a client, answers every command with the bytes the specification \<open>exec_all\<close> gives and leaves
  the handler in the specification's state, however the stream is segmented.  The session ends with
  the client's farewell (a package with the error code), with the connection, or with the
  cancellation of the thread; a request that was cut short is not executed.
\<close>

section \<open>The end of a stream\<close>

text \<open>The first event of a script that is not data.\<close>

fun rx_end :: "rx_event list \<Rightarrow> rx_event option" where
  "rx_end [] = None"
| "rx_end (RxData bs # r) = (if bs = [] then Some (RxData []) else rx_end r)"
| "rx_end (e # r) = Some e"

text \<open>What \<open>RecvToBuffer\<close> makes of it.\<close>

fun rx_fault :: "platform \<Rightarrow> rx_event \<Rightarrow> fault" where
  "rx_fault pf (RxData bs) = throw_runtime ''RecvToBuffer'' ''Connection closed''"
| "rx_fault pf (RxErr e) = throw_errno pf ''RecvToBuffer'' ''Failed to recv()'' e"
| "rx_fault pf RxCancel = Unwind"

lemma rx_end_drop: "n \<le> length (rx_bytes r) \<Longrightarrow> rx_end (rx_drop n r) = rx_end r"
proof (induction n r rule: rx_drop.induct)
  case (1 n bs r)
  then show ?case by (cases "bs = []") auto
qed auto

lemma RecvLoop_short:
  assumes "tot + length (rx_bytes (rx (Conn s))) < sz" and "sz \<le> length (Buffer s)"
    and "rx_end (rx (Conn s)) = Some e"
  shows "fst (RecvLoop pf sz tot s) = Inl (rx_fault pf e)"
  using assms
proof (induction pf sz tot s rule: RecvLoop.induct)
  case (1 pf sz tot s)
  have lt: "tot < sz" using "1.prems"(1) by simp
  show ?case
  proof (cases "rx (Conn s)")
    case Nil
    with "1.prems" show ?thesis by simp
  next
    case (Cons ev r)
    show ?thesis
    proof (cases "\<exists>bs. ev = RxData bs \<and> bs \<noteq> []")
      case False
      with "1.prems" Cons lt show ?thesis
        by (subst RecvLoop.simps) (cases ev; auto simp: sys_recv_def zoom_def)
    next
      case True
      then obtain bs where bs: "ev = RxData bs" "bs \<noteq> []" by blast
      let ?c = "(Conn s)\<lparr>rx := r\<rparr>" and ?b = "overwrite (Buffer s) tot bs"
      have len: "tot + length bs < sz" using "1.prems"(1) Cons bs by simp
      then have rec: "sys_recv (sz - tot) (Conn s) = (Inr (Inr bs), ?c)"
        using Cons bs by (simp add: sys_recv_def zoom_def)
      have st: "store (Buffer s) (int tot) bs = Inr ?b" using len "1.prems"(2) by simp
      have "RecvLoop pf sz tot s = RecvLoop pf sz (tot + length bs) (s\<lparr>Conn := ?c, Buffer := ?b\<rparr>)"
        using lt rec bs st by (subst RecvLoop.simps) simp
      moreover have "fst (RecvLoop pf sz (tot + length bs) (s\<lparr>Conn := ?c, Buffer := ?b\<rparr>)) = Inl (rx_fault pf e)"
        using 1(1) [OF lt rec [symmetric] refl refl bs(2) st] "1.prems" Cons bs len by simp
      ultimately show ?thesis by simp
    qed
  qed
qed

text \<open>A stream that ends inside a package: \<open>RecvPackage\<close> fails and no header is returned.\<close>

definition cut_short :: "byte list \<Rightarrow> bool" where
  "cut_short bs \<longleftrightarrow> length bs < 2 \<or> length bs < unat (bs ! 1) + 2"

lemma RecvPackage_short:
  assumes "rpc_wf s" and "cut_short (rx_bytes (rx (Conn s)))" and "rx_end (rx (Conn s)) = Some e"
  shows "fst (RecvPackage pf s) = Inl (rx_fault pf e) \<and>
    sent (Conn (snd (RecvPackage pf s))) = sent (Conn s)"
proof (cases "length (rx_bytes (rx (Conn s))) < 2")
  case True
  obtain q t where run: "RecvLoop pf 2 0 s = (q, t)" by fastforce
  with True RecvLoop_short [of 0 s 2 e pf] assms have "q = Inl (rx_fault pf e)"
    by (simp add: rpc_wf_def BufSize_def)
  with run RecvLoop_frame [OF run] show ?thesis
    by (simp add: RecvPackage_def RecvToBuffer_def thenM_def bindM_def)
next
  case False
  then obtain a b bs where bytes: "rx_bytes (rx (Conn s)) = a # b # bs"
    by (metis One_nat_def Suc_1 Suc_leI length_Cons list.exhaust list.size(3) lessI not_less_eq zero_less_Suc)
  let ?s = "s\<lparr>Conn := (Conn s)\<lparr>rx := rx_drop 2 (rx (Conn s))\<rparr>, Buffer := overwrite (Buffer s) 0 [a, b]\<rparr>"
  have buf: "length (Buffer s) = 256" using assms(1) by (simp add: rpc_wf_def BufSize_def)
  have 1: "RecvLoop pf 2 0 s = (Inr (), ?s)"
    using RecvLoop_ok [of 0 2 s pf] buf bytes by simp
  have cut: "length bs < unat b" using assms(2) bytes by (simp add: cut_short_def)
  have "rx_bytes (rx_drop 2 (rx (Conn s))) = bs" "rx_end (rx_drop 2 (rx (Conn s))) = Some e"
    using rx_bytes_drop [of 2 "rx (Conn s)"] rx_end_drop [of 2 "rx (Conn s)"] bytes assms(3) by simp_all
  moreover have "unat b \<le> 256" using unsigned_less [of b, THEN less_imp_le] by simp
  ultimately have 2: "fst (RecvLoop pf (unat b) 0 ?s) = Inl (rx_fault pf e)"
    using RecvLoop_short [of 0 ?s "unat b" e pf] cut buf by simp
  obtain q t where run: "RecvLoop pf (unat b) 0 ?s = (q, t)" by fastforce
  with 1 2 RecvLoop_frame [OF run] show ?thesis
    by (simp add: RecvPackage_def RecvToBuffer_def thenM_def bindM_def overwrite_zero Let_def)
qed

section \<open>One command\<close>

lemma loop_body_answer:
  assumes "ready s" and "fits pf (payload_of c)" and "exec pf c (Hnd s) = (Inr p, h)" and "fits pf p"
    and "rx_bytes (rx (Conn (Rpc s))) = request_bytes c @ rest"
    and "tx_open (tx (Conn (Rpc s))) (Suc n)"
  shows "\<exists>t. loop_body pf (HandlerImpl pf) s = (Inr True, t) \<and> ready t \<and> Hnd t = h \<and> flags t = flags s \<and>
    kills t = kills s + sigterms c \<and>
    rx (Conn (Rpc t)) = rx_drop (length (payload_of c) + 2) (rx (Conn (Rpc s))) \<and>
    tx_open (tx (Conn (Rpc t))) n \<and> sent (Conn (Rpc t)) = sent (Conn (Rpc s)) @ package (ID (proc_of c)) p"
proof (rule loop_body_reply [OF assms(1,2) _ _ assms(4,6)])
  show "rx_bytes (rx (Conn (Rpc s))) = package (ID (proc_of c)) (payload_of c) @ rest"
    using assms(5) by (simp add: request_bytes_def)
  show "\<exists>b. DispatchPackage pf (HandlerImpl pf) (header_of pf Error_ID (ID (proc_of c)) (payload_of c))
      (s\<lparr>Rpc := r\<rparr>) = (Inr (), s\<lparr>Rpc := r\<lparr>Buffer := b\<rparr>, Hnd := h, kills := kills s + sigterms c\<rparr>) \<and>
      length b = 256 \<and> holds_at b 0 (package (ID (proc_of c)) p)"
    if "rpc_wf r" "ErrCode r = Error_ID" "holds_at (Buffer r) 0 (payload_of c)" for r
    using dispatch_exec [OF that(1,3) assms(2) _ assms(3)] that(1) assms(1,4)
    by (fastforce simp: packs_def ready_def rpc_wf_def BufSize_def fits_def)
qed

lemma exec_Shutdown: "exec pf c h = (Inl f, h') \<Longrightarrow> sigterms c = 0"
  by (cases c) (simp_all add: sigterms_def)

lemma loop_body_command:
  assumes "ready s" and "fits pf (payload_of c)" and "exec pf c (Hnd s) = (q, h)"
    and "reply pf c q = Some out"
    and "rx_bytes (rx (Conn (Rpc s))) = request_bytes c @ rest"
    and "tx_open (tx (Conn (Rpc s))) (Suc (Suc n))"
  shows "\<exists>t. loop_body pf (HandlerImpl pf) s = (Inr True, t) \<and> ready t \<and> Hnd t = h \<and>
    flags t = flags s \<and> kills t = kills s + sigterms c \<and> rx_bytes (rx (Conn (Rpc t))) = rest \<and>
    rx_end (rx (Conn (Rpc t))) = rx_end (rx (Conn (Rpc s))) \<and>
    tx_open (tx (Conn (Rpc t))) n \<and> sent (Conn (Rpc t)) = sent (Conn (Rpc s)) @ out"
proof -
  let ?p = "payload_of c" and ?r = "rx (Conn (Rpc s))"
  have bytes: "rx_bytes ?r = package (ID (proc_of c)) ?p @ rest"
    using assms(5) by (simp add: request_bytes_def)
  then have dropped: "rx_bytes (rx_drop (length ?p + 2) ?r) = rest" "rx_end (rx_drop (length ?p + 2) ?r) = rx_end ?r"
    using rx_bytes_drop [of "length ?p + 2" ?r] rx_end_drop [of "length ?p + 2" ?r] by simp_all
  show ?thesis
  proof (cases q)
    case (Inr p)
    then have "out = package (ID (proc_of c)) p" "fits pf p" using assms(4) by (auto split: if_splits)
    with loop_body_answer [OF assms(1,2) _ _ assms(5) tx_open_mono [OF assms(6), of "Suc n"]] assms(3) Inr dropped
    show ?thesis by force
  next
    case (Inl f)
    with assms(4) obtain e where f: "f = Exn e" by (cases f) auto
    with assms(4) Inl have out: "fits pf (what e)"
      "out = package Error_ID (to_bytes (what e)) @ package Error_ID (to_bytes (what e))"
      by (auto split: if_splits)
    have "DispatchPackage pf (HandlerImpl pf) (header_of pf Error_ID (ID (proc_of c)) ?p) (s\<lparr>Rpc := r\<rparr>) =
        (Inl (Exn e), s\<lparr>Rpc := r, Hnd := h\<rparr>)"
      if "rpc_wf r" "ErrCode r = Error_ID" "holds_at (Buffer r) 0 ?p" for r
      using dispatch_exec [OF that(1,3) assms(2) _ assms(3)] assms(1) Inl f by (simp add: packs_def ready_def)
    from loop_body_error [OF assms(1,2) bytes this out(1) assms(6)] dropped out(2)
      exec_Shutdown [of pf c "Hnd s" f h] assms(3) Inl
    show ?thesis by auto
  qed
qed

section \<open>The loop\<close>

text \<open>No thread has asked for a shutdown while the session runs.\<close>

definition undisturbed :: "'h session \<Rightarrow> bool" where
  "undisturbed s \<longleftrightarrow> (\<forall>b \<in> set (flags s). \<not> b)"

lemma read_flag_undisturbed:
  assumes "undisturbed s"
  shows "\<exists>f. read_flag s = (False, s\<lparr>flags := f\<rparr>) \<and> undisturbed (s\<lparr>flags := f\<rparr>)"
proof (cases "flags s")
  case Nil
  then have "s\<lparr>flags := []\<rparr> = s" by simp
  with Nil assms show ?thesis by (intro exI [of _ "[]"]) (simp add: read_flag_def undisturbed_def)
qed (use assms in \<open>auto simp: read_flag_def undisturbed_def\<close>)

lemma RequestLoop_undisturbed:
  assumes "undisturbed s"
  shows "\<exists>f. undisturbed (s\<lparr>flags := f\<rparr>) \<and> RequestLoop pf I s = (case loop_body pf I (s\<lparr>flags := f\<rparr>) of
          (Inr True, t) \<Rightarrow> RequestLoop pf I t
        | (Inr False, t) \<Rightarrow> (Inr (), t)
        | (Inl f, t) \<Rightarrow> (Inl f, t))"
proof -
  obtain f where "read_flag s = (False, s\<lparr>flags := f\<rparr>)" "undisturbed (s\<lparr>flags := f\<rparr>)"
    using read_flag_undisturbed [OF assms] by blast
  then show ?thesis by (intro exI [of _ f]) (subst RequestLoop.simps, simp)
qed

lemma session_ready_flags [simp]: "ready (s\<lparr>flags := f\<rparr>) = ready s"
  by (simp add: ready_def)

text \<open>The loop on a list of commands, up to whatever comes after them.\<close>

lemma RequestLoop_commands:
  assumes "ready s" and "undisturbed s" and "exec_all pf cs (Hnd s) = Some (out, h)"
    and "rx_bytes (rx (Conn (Rpc s))) = concat (map request_bytes cs) @ rest"
    and "tx_open (tx (Conn (Rpc s))) (2 * length cs)"
  shows "\<exists>t. RequestLoop pf (HandlerImpl pf) s = RequestLoop pf (HandlerImpl pf) t \<and> ready t \<and>
    undisturbed t \<and> Hnd t = h \<and> rx_bytes (rx (Conn (Rpc t))) = rest \<and>
    rx_end (rx (Conn (Rpc t))) = rx_end (rx (Conn (Rpc s))) \<and>
    sent (Conn (Rpc t)) = sent (Conn (Rpc s)) @ out \<and> kills t = kills s + sum_list (map sigterms cs)"
  using assms
proof (induction cs arbitrary: s out)
  case Nil
  then show ?case by auto
next
  case (Cons c cs)
  obtain q h1 where ex: "exec pf c (Hnd s) = (q, h1)" by fastforce
  with Cons.prems(3) obtain o1 o2 where o: "reply pf c q = Some o1" "fits pf (payload_of c)"
    "exec_all pf cs h1 = Some (o2, h)" "out = o1 @ o2"
    by (auto split: if_splits option.splits)
  obtain f where f: "undisturbed (s\<lparr>flags := f\<rparr>)"
    "RequestLoop pf (HandlerImpl pf) s = (case loop_body pf (HandlerImpl pf) (s\<lparr>flags := f\<rparr>) of
          (Inr True, t) \<Rightarrow> RequestLoop pf (HandlerImpl pf) t
        | (Inr False, t) \<Rightarrow> (Inr (), t)
        | (Inl f, t) \<Rightarrow> (Inl f, t))"
    using RequestLoop_undisturbed [OF Cons.prems(2)] by blast
  obtain t where t: "loop_body pf (HandlerImpl pf) (s\<lparr>flags := f\<rparr>) = (Inr True, t)" "ready t" "Hnd t = h1"
    "flags t = f" "rx_bytes (rx (Conn (Rpc t))) = concat (map request_bytes cs) @ rest"
    "rx_end (rx (Conn (Rpc t))) = rx_end (rx (Conn (Rpc s)))"
    "tx_open (tx (Conn (Rpc t))) (2 * length cs)" "sent (Conn (Rpc t)) = sent (Conn (Rpc s)) @ o1"
    "kills t = kills s + sigterms c"
    using loop_body_command [of "s\<lparr>flags := f\<rparr>" pf c q h1 o1] Cons.prems(1,4,5) ex o(1,2) by auto
  have "undisturbed t" using f(1) t(4) by (simp add: undisturbed_def)
  with Cons.IH [of t o2] t o(3) obtain u where
    "RequestLoop pf (HandlerImpl pf) t = RequestLoop pf (HandlerImpl pf) u" "ready u" "undisturbed u"
    "Hnd u = h" "rx_bytes (rx (Conn (Rpc u))) = rest" "rx_end (rx (Conn (Rpc u))) = rx_end (rx (Conn (Rpc t)))"
    "sent (Conn (Rpc u)) = sent (Conn (Rpc t)) @ o2"
    "kills u = kills t + sum_list (map sigterms cs)" by auto
  with f(2) t o(4) show ?case by (intro exI [of _ u]) simp
qed

section \<open>How a session ends\<close>

lemma loop_body_farewell:
  assumes "ready s" and "rx_bytes (rx (Conn (Rpc s))) = package Error_ID bye @ rest" and "length bye \<le> 255"
  shows "\<exists>t. loop_body pf I s = (Inr False, t) \<and> Hnd t = Hnd s \<and> kills t = kills s \<and>
    rx_bytes (rx (Conn (Rpc t))) = rest \<and> sent (Conn (Rpc t)) = sent (Conn (Rpc s))"
proof -
  obtain r where rec: "RecvPackage pf (Rpc s) = (Inr (header_of pf Error_ID Error_ID bye), r)"
    "Conn r = (Conn (Rpc s))\<lparr>rx := rx_drop (length bye + 2) (rx (Conn (Rpc s)))\<rparr>"
    using RecvPackage_ok [OF _ assms(2,3), of pf] assms(1) by (auto simp: ready_def)
  have "\<not> hOk (header_of pf Error_ID Error_ID bye)"
    by (simp add: header_of_def Error_ID_def char_val_def)
  with rec(1) have "loop_body pf I s = (Inr False, s\<lparr>Rpc := r\<rparr>)"
    by (simp add: loop_body_def try_block_def bindM_def guarded_def on_rpc_def zoom_def)
  moreover have "rx_bytes (rx (Conn r)) = rest"
    using rx_bytes_drop [of "length bye + 2" "rx (Conn (Rpc s))"] assms(2) rec(2) by simp
  ultimately show ?thesis using rec(2) by simp
qed

lemma loop_body_cut:
  assumes "ready s" and "cut_short (rx_bytes (rx (Conn (Rpc s))))" and "rx_end (rx (Conn (Rpc s))) = Some e"
  shows "\<exists>t. loop_body pf I s = (if e = RxCancel then Inl Unwind else Inr False, t) \<and> Hnd t = Hnd s \<and> kills t = kills s \<and>
    sent (Conn (Rpc t)) = sent (Conn (Rpc s))"
proof -
  obtain q r where rec: "RecvPackage pf (Rpc s) = (q, r)" by fastforce
  with RecvPackage_short [OF _ assms(2,3), of pf] assms(1)
  have q: "q = Inl (rx_fault pf e)" "sent (Conn r) = sent (Conn (Rpc s))" by (auto simp: ready_def)
  have "unwinds (rx_fault pf e)" by (cases e) (simp_all add: throw_runtime_def throw_errno_def)
  with rec q(1) have blk: "try_block pf I s = (Inl (rx_fault pf e), s\<lparr>Rpc := r, connOk := False\<rparr>)"
    by (simp add: try_block_def bindM_def guarded_def on_rpc_def zoom_def)
  have "loop_body pf I s = (if e = RxCancel then Inl Unwind else Inr False, s\<lparr>Rpc := r, connOk := False\<rparr>)"
    using blk by (cases e) (simp_all add: loop_body_def throw_runtime_def throw_errno_def)
  then show ?thesis using q(2) by simp
qed

text \<open>The whole session, for the two ways a stream can end.\<close>

lemma RequestLoop_farewell:
  assumes "ready s" and "undisturbed s" and "exec_all pf cs (Hnd s) = Some (out, h)"
    and "rx_bytes (rx (Conn (Rpc s))) = concat (map request_bytes cs) @ package Error_ID bye @ rest"
    and "length bye \<le> 255" and "tx_open (tx (Conn (Rpc s))) (2 * length cs)"
  shows "\<exists>t. RequestLoop pf (HandlerImpl pf) s = (Inr (), t) \<and> Hnd t = h \<and>
    rx_bytes (rx (Conn (Rpc t))) = rest \<and> sent (Conn (Rpc t)) = sent (Conn (Rpc s)) @ out \<and>
    kills t = kills s + sum_list (map sigterms cs)"
proof -
  obtain t where t: "RequestLoop pf (HandlerImpl pf) s = RequestLoop pf (HandlerImpl pf) t" "ready t"
    "undisturbed t" "Hnd t = h" "rx_bytes (rx (Conn (Rpc t))) = package Error_ID bye @ rest"
    "sent (Conn (Rpc t)) = sent (Conn (Rpc s)) @ out" "kills t = kills s + sum_list (map sigterms cs)"
    using RequestLoop_commands [OF assms(1-4,6)] by blast
  obtain f where f: "RequestLoop pf (HandlerImpl pf) t = (case loop_body pf (HandlerImpl pf) (t\<lparr>flags := f\<rparr>) of
          (Inr True, t) \<Rightarrow> RequestLoop pf (HandlerImpl pf) t
        | (Inr False, t) \<Rightarrow> (Inr (), t)
        | (Inl f, t) \<Rightarrow> (Inl f, t))"
    using RequestLoop_undisturbed [OF t(3)] by blast
  obtain u where "loop_body pf (HandlerImpl pf) (t\<lparr>flags := f\<rparr>) = (Inr False, u)" "Hnd u = h"
    "kills u = kills t" "rx_bytes (rx (Conn (Rpc u))) = rest" "sent (Conn (Rpc u)) = sent (Conn (Rpc t))"
    using loop_body_farewell [of "t\<lparr>flags := f\<rparr>" bye rest pf "HandlerImpl pf"] t assms(5) by auto
  with f t show ?thesis by simp
qed

lemma RequestLoop_cut:
  assumes "ready s" and "undisturbed s" and "exec_all pf cs (Hnd s) = Some (out, h)"
    and "rx_bytes (rx (Conn (Rpc s))) = concat (map request_bytes cs) @ part" and "cut_short part"
    and "rx_end (rx (Conn (Rpc s))) = Some e" and "tx_open (tx (Conn (Rpc s))) (2 * length cs)"
  shows "\<exists>t. RequestLoop pf (HandlerImpl pf) s = (if e = RxCancel then Inl Unwind else Inr (), t) \<and>
    Hnd t = h \<and> sent (Conn (Rpc t)) = sent (Conn (Rpc s)) @ out \<and>
    kills t = kills s + sum_list (map sigterms cs)"
proof -
  obtain t where t: "RequestLoop pf (HandlerImpl pf) s = RequestLoop pf (HandlerImpl pf) t" "ready t"
    "undisturbed t" "Hnd t = h" "rx_bytes (rx (Conn (Rpc t))) = part"
    "rx_end (rx (Conn (Rpc t))) = Some e" "sent (Conn (Rpc t)) = sent (Conn (Rpc s)) @ out"
    "kills t = kills s + sum_list (map sigterms cs)"
    using RequestLoop_commands [OF assms(1-4,7)] assms(6) by auto
  obtain f where f: "RequestLoop pf (HandlerImpl pf) t = (case loop_body pf (HandlerImpl pf) (t\<lparr>flags := f\<rparr>) of
          (Inr True, t) \<Rightarrow> RequestLoop pf (HandlerImpl pf) t
        | (Inr False, t) \<Rightarrow> (Inr (), t)
        | (Inl f, t) \<Rightarrow> (Inl f, t))"
    using RequestLoop_undisturbed [OF t(3)] by blast
  obtain u where "loop_body pf (HandlerImpl pf) (t\<lparr>flags := f\<rparr>) = (if e = RxCancel then Inl Unwind else Inr False, u)"
    "Hnd u = h" "kills u = kills t" "sent (Conn (Rpc u)) = sent (Conn (Rpc t))"
    using loop_body_cut [of "t\<lparr>flags := f\<rparr>" e pf "HandlerImpl pf"] t assms(5) by auto
  with f t show ?thesis by simp
qed

section \<open>What a session does outside the specification\<close>

text \<open>
  A package with an id that no procedure has: nothing is dispatched, and \<open>SendPackage\<close> sends what
  the receive buffer holds, the second byte of the request's payload taken for a size.
\<close>

lemma loop_body_unknown:
  assumes "ready s" and "\<And>c. i \<noteq> ID c" and "char_val pf i \<noteq> uint Error_ID"
    and "rx_bytes (rx (Conn (Rpc s))) = package i (a # b # p) @ rest"
    and "b = char_of_size k" and "k \<le> char_limit pf" and "k \<le> length p" and "length p \<le> 253"
    and "tx_open (tx (Conn (Rpc s))) 1"
  shows "\<exists>t. loop_body pf I s = (Inr True, t) \<and> Hnd t = Hnd s \<and>
    rx_bytes (rx (Conn (Rpc t))) = rest \<and>
    sent (Conn (Rpc t)) = sent (Conn (Rpc s)) @ package a (take k p)"
proof -
  let ?p = "a # b # p"
  obtain r where rec: "RecvPackage pf (Rpc s) = (Inr (header_of pf Error_ID i ?p), r)"
    "holds_at (Buffer r) 0 ?p" "rpc_wf r"
    "Conn r = (Conn (Rpc s))\<lparr>rx := rx_drop (length ?p + 2) (rx (Conn (Rpc s)))\<rparr>"
    using RecvPackage_ok [OF _ assms(4), of pf] assms(1,8) by (auto simp: ready_def)
  have ok: "hOk (header_of pf Error_ID i ?p)" using assms(3) by (simp add: header_of_def Let_def)
  have disp: "DispatchPackage pf I (header_of pf Error_ID i ?p) = ret ()"
    using assms(2) by (auto simp: DispatchPackage_search find_Some_iff simp del: ID.simps GenericHandler.simps split: option.splits)
  have hold: "holds_at (Buffer r) 0 (package a (take k p))"
  proof -
    have "take (length p + 2) (Buffer r) = ?p" using rec(2) by (simp add: holds_at_def)
    then have "take (k + 2) (Buffer r) = take (k + 2) ?p" using assms(7)
      by (metis add_le_cancel_right min.absorb1 take_take)
    then show ?thesis using rec(2) assms(5,7) by (simp add: holds_at_def package_def min_absorb2)
  qed
  obtain t' where t': "tx_after (k + 2) (tx (Conn (Rpc s))) = Some t'"
    using tx_open_after [of "tx (Conn (Rpc s))" 0 "k + 2"] assms(7-9) by auto
  have "SendPackage pf r = (Inr (), r\<lparr>Conn := (Conn r)\<lparr>tx := t', sent := sent (Conn r) @ package a (take k p)\<rparr>\<rparr>)"
    using SendPackage_ok [OF hold, of pf t'] t' assms(6,7) rec(4) by (simp add: min_absorb2)
  with rec ok disp have "loop_body pf I s = (Inr True, s\<lparr>Rpc :=
      r\<lparr>Conn := (Conn r)\<lparr>tx := t', sent := sent (Conn r) @ package a (take k p)\<rparr>\<rparr>\<rparr>)"
    by (simp add: loop_body_def try_block_def thenM_def bindM_def guarded_def on_rpc_def zoom_def)
  moreover have "rx_bytes (rx_drop (length ?p + 2) (rx (Conn (Rpc s)))) = rest"
    using rx_bytes_drop [of "length ?p + 2" "rx (Conn (Rpc s))"] assms(4) by simp
  ultimately show ?thesis using rec(4) by simp
qed

text \<open>
  An error text that does not fit into a package: \<open>PackError\<close> throws in the \<open>catch\<close> block, the
  exception leaves the thread's start routine and \<open>std::terminate\<close> ends the daemon.
\<close>

lemma loop_body_long_error:
  assumes "ready s" and "fits pf p" and "rx_bytes (rx (Conn (Rpc s))) = package (ID c) p @ rest"
    and "\<And>r. rpc_wf r \<Longrightarrow> ErrCode r = Error_ID \<Longrightarrow> holds_at (Buffer r) 0 p \<Longrightarrow>
      DispatchPackage pf I (header_of pf Error_ID (ID c) p) (s\<lparr>Rpc := r\<rparr>) =
        (Inl (Exn e), s\<lparr>Rpc := r, Hnd := h\<rparr>)"
    and "255 < length (what e)"
  shows "fst (loop_body pf I s) =
    Inl (throw_runtime ''PackError'' ''Message to big to fit inside package'')"
proof -
  have ok: "hOk (header_of pf Error_ID (ID c) p)"
    by (cases c) (simp_all add: header_of_def Error_ID_def char_val_def)
  have l: "length p \<le> 255" using assms(2) by (simp add: fits_def)
  obtain r where rec: "RecvPackage pf (Rpc s) = (Inr (header_of pf Error_ID (ID c) p), r)"
    and r: "rpc_wf r" "ErrCode r = Error_ID" "holds_at (Buffer r) 0 p"
    using RecvPackage_ok [OF _ assms(3) l, of pf] assms(1) by (auto simp: ready_def)
  have "try_block pf I s = (Inl (Exn e), s\<lparr>Rpc := r, Hnd := h\<rparr>)"
    using rec ok assms(4) [OF r]
    by (simp add: try_block_def thenM_def bindM_def guarded_def on_rpc_def zoom_def)
  then show ?thesis
    using assms(1,5)
    by (simp add: loop_body_def ready_def send_error_def thenM_def bindM_def on_rpc_def zoom_def PackError_long)
qed

section \<open>Properties\<close>

lemma HandlerRoutine_accepted:
  assumes "length garbage = 256" and "naps s = []"
  shows "\<exists>u. HandlerRoutine pf I garbage (Accepted c) s = RequestLoop pf I u \<and> ready u \<and>
    undisturbed u = undisturbed s \<and> Hnd u = Hnd s \<and> kills u = kills s \<and> Conn (Rpc u) = c \<and> flags u = flags s"
  using assms
  by (intro exI [of _ "s\<lparr>Rpc := RPCProvider_new c garbage Error_ID, connOk := True\<rparr>"])
    (simp add: HandlerRoutine_def ready_def rpc_wf_def BufSize_def RPCProvider_new_def undisturbed_def)

text \<open>The sessions of the examples.\<close>

definition demo_session :: "handler \<Rightarrow> handler session" where
  "demo_session h = \<lparr>Rpc = fresh_rpc [] [], Hnd = h, connOk = True, flags = [], naps = [], kills = 0\<rparr>"

definition demo_conn :: "rx_event list \<Rightarrow> conn" where
  "demo_conn r = \<lparr>rx = r, tx = replicate 20 (TxAccept 256), sent = []\<rparr>"

lemma demo_simps [simp]:
  "undisturbed (demo_session h)" "naps (demo_session h) = []" "Hnd (demo_session h) = h" "kills (demo_session h) = 0"
  "rx (demo_conn r) = r" "sent (demo_conn r) = []" "n \<le> 20 \<Longrightarrow> tx_open (tx (demo_conn r)) n"
  by (auto simp: demo_session_def demo_conn_def undisturbed_def tx_open_def)

definition demo_cmds :: "command list" where
  "demo_cmds = [CPing, CConnect (''me'', 7), CReset, CDisconnect, CGetStatus, CShutdown, CDebugThrow]"

definition demo_handler :: handler where
  "demo_handler = handler_at Running None (good_board\<lparr>reads := [RxData [1, 2, 3], RxData []]\<rparr>)"









end
