(* ===== verification/Session_Safety.thy ===== *)
theory Session_Safety
  imports Session_Transcript
begin

text \<open>
  What a session keeps for every client, whatever bytes arrive: malformed packages, unknown procedures,
  sizes that lie.  The package buffer keeps its type, and the handler's state moves only along the
  steps of the port arbiter.

  The locale \<open>kept_handler\<close> is the contract of the interface \<open>IHandler\<close>: a property of the handler's
  state that every request keeps.  Inside it the request loop is shown to keep the property for all
  scripts of the connection; \<open>HandlerImpl\<close> and \<open>HandlerMock\<close> interpret it.
\<close>

section \<open>The transport keeps the type of its buffer\<close>

definition rpc_typed :: "rpc \<Rightarrow> bool" where
  "rpc_typed r \<longleftrightarrow> rpc_wf r \<and> ErrCode r = Error_ID"

lemma keeps_RecvLoop [keeps_intros]: "keeps rpc_typed (RecvLoop pf sz tot)"
  by (rule keepsI) (auto simp: rpc_typed_def rpc_wf_def dest!: RecvLoop_frame)

lemma SendLoop_frame:
  "SendLoop pf sz tot s = (r, t) \<Longrightarrow> Buffer t = Buffer s \<and> ErrCode t = ErrCode s"
proof (induction pf sz tot s rule: SendLoop.induct)
  case (1 pf sz tot s)
  show ?case
  proof (cases "\<exists>bs k c. tot < sz \<and> load (Buffer s) (Buf (int tot)) (sz - tot) = Inr bs \<and>
      sys_send bs (Conn s) = (Inr (Inr k), c) \<and> k \<noteq> 0")
    case True
    then obtain bs k c where h: "tot < sz" "load (Buffer s) (Buf (int tot)) (sz - tot) = Inr bs"
      "sys_send bs (Conn s) = (Inr (Inr k), c)" "k \<noteq> 0" by blast
    then have "SendLoop pf sz (tot + k) (s\<lparr>Conn := c\<rparr>) = (r, t)"
      using "1.prems" by (subst (asm) SendLoop.simps) simp
    from "1.IH" [OF h(1,2) h(3) [symmetric] refl refl h(4) this] show ?thesis by simp
  next
    case False
    with "1.prems" show ?thesis
      by (subst (asm) SendLoop.simps) (auto split: prod.splits sum.splits if_splits)
  qed
qed

lemma keeps_SendLoop [keeps_intros]: "keeps rpc_typed (SendLoop pf sz tot)"
  by (rule keepsI) (auto simp: rpc_typed_def rpc_wf_def dest!: SendLoop_frame)

lemma keeps_put_bytes [keeps_intros]: "keeps rpc_typed (put_bytes i bs)"
  by (rule keepsI) (auto simp: rpc_typed_def rpc_wf_def put_bytes_def split: sum.splits dest: store_InrD)

text \<open>A serializer writes into the buffer and does not change its size.\<close>

definition sized :: "(byte list \<Rightarrow> int \<Rightarrow> byte list result) \<Rightarrow> bool" where
  "sized f \<longleftrightarrow> (\<forall>b p b'. f b p = Inr b' \<longrightarrow> length b' = length b)"

lemma sized_Empty: "sized (\<lambda>b p. Empty_Serialize pf b p m)"
  by (simp add: sized_def Empty_Serialize_def)

lemma sized_String: "sized (\<lambda>b p. String_Serialize pf b p m)"
  by (auto simp: sized_def String_Serialize_def bindE_eq_Inr split: if_splits dest!: store_InrD)

lemma sized_UserData: "sized (\<lambda>b p. UserData_Serialize pf b p m)"
  using sized_String [of pf "Name m"]
  by (auto simp: sized_def UserData_Serialize_def bindE_eq_Inr dest!: store_InrD)

lemma sized_ChipStatus: "sized (\<lambda>b p. ChipStatus_Serialize pf b p m)"
  using sized_String [of pf "Description m"] sized_UserData [of pf "User m"]
  by (fastforce simp: sized_def ChipStatus_Serialize_def bindE_eq_Inr Let_def dest!: store_InrD)

lemma keeps_PackMsg [keeps_intros]:
  assumes "sized f"
  shows "keeps rpc_typed (PackMsg i n f)"
proof -
  have "keeps rpc_typed (\<lambda>s. case f (Buffer s) 2 of Inl e \<Rightarrow> (Inl e, s) | Inr b \<Rightarrow> (Inr (), s\<lparr>Buffer := b\<rparr>))"
    using assms by (intro keepsI) (auto simp: rpc_typed_def rpc_wf_def sized_def split: sum.splits)
  then show ?thesis unfolding PackMsg_def by (intro keeps_intros)
qed

lemma keeps_SendPackage [keeps_intros]: "keeps rpc_typed (SendPackage pf)"
  unfolding SendPackage_def SendFromBuffer_def by (intro keeps_intros)

lemma keeps_PackError [keeps_intros]: "keeps rpc_typed (PackError pf msg)"
  unfolding PackError_def SendFromBuffer_def by (intro keeps_intros)

lemma keeps_case_prod [keeps_intros]: "(\<And>a b. keeps P (f a b)) \<Longrightarrow> keeps P (case x of (a, b) \<Rightarrow> f a b)"
  by (cases x) simp

lemma keeps_RecvPackage [keeps_intros]: "keeps rpc_typed (RecvPackage pf)"
  unfolding RecvPackage_def RecvToBuffer_def Let_def by (intro keeps_intros)

section \<open>The session keeps its type and the handler's property\<close>

definition session_typed :: "('h \<Rightarrow> bool) \<Rightarrow> 'h session \<Rightarrow> bool" where
  "session_typed P s \<longleftrightarrow> rpc_typed (Rpc s) \<and> P (Hnd s)"

lemma keeps_on_rpc [keeps_intros]: "keeps rpc_typed m \<Longrightarrow> keeps (session_typed P) (on_rpc m)"
  unfolding on_rpc_def by (rule keeps_zoom) (auto simp: session_typed_def)

lemma keeps_on_handler [keeps_intros]: "keeps P m \<Longrightarrow> keeps (session_typed P) (on_handler m)"
  unfolding on_handler_def by (rule keeps_zoom) (auto simp: session_typed_def)

lemma keeps_guarded [keeps_intros]:
  assumes "keeps (session_typed P) m"
  shows "keeps (session_typed P) (guarded m)"
proof
  fix s q t assume "session_typed P s" and run: "guarded m s = (q, t)" and "live q"
  obtain r u where m: "m s = (r, u)" by fastforce
  with run have "r = q" "t = u \<or> t = u\<lparr>connOk := False\<rparr>" by (auto simp: guarded_def split: sum.splits)
  with keepsD [OF assms \<open>session_typed P s\<close> m] \<open>live q\<close> show "session_typed P t"
    by (auto simp: session_typed_def)
qed

lemma keeps_own_procedures [keeps_intros]:
  "keeps (session_typed P) Server_Shutdown" "keeps (session_typed P) Server_Ping"
  "keeps (session_typed P) Server_DebugBlock" "keeps (session_typed P) Server_DebugThrow"
  by (auto simp: keeps_def session_typed_def Server_Shutdown_def Server_Ping_def Server_DebugBlock_def
      Server_DebugThrow_def thenM_def bindM_def split: list.splits bool.splits)

lemma keeps_pack [keeps_intros]:
  "keeps (session_typed P) (pack_empty pf i e)" "keeps (session_typed P) (pack_string pf i m)"
  "keeps (session_typed P) (pack_status pf i u)"
  by (auto simp: pack_empty_def pack_string_def pack_status_def split: option.splits
      intro!: keeps_intros sized_Empty sized_String sized_ChipStatus)

lemma keeps_get_request [keeps_intros]: "keeps (session_typed P) (get_request d hdr)"
  unfolding get_request_def by (intro keeps_intros)

lemma keeps_empty_handler [keeps_intros]:
  "keeps (session_typed P) body \<Longrightarrow> keeps (session_typed P) (empty_handler pf i body hdr)"
  unfolding empty_handler_def by (intro keeps_intros)

lemma keeps_send_error [keeps_intros]: "keeps (session_typed P) (send_error pf msg)"
  unfolding send_error_def by (intro keeps_intros)

locale kept_handler =
  fixes I :: "'h IHandler"
    and P :: "'h \<Rightarrow> bool"
  assumes GetStatus_keeps: "keeps P (iGetStatus I)"
    and Flash_keeps: "keeps P (iFlash I mem path)"
    and Start_keeps: "keeps P (iStart I)"
    and Reset_keeps: "keeps P (iReset I)"
    and Connect_keeps: "keeps P (iConnect I mem user)"
    and Disconnect_keeps: "keeps P (iDisconnect I)"
begin

lemmas request_keeps = GetStatus_keeps Flash_keeps Start_keeps Reset_keeps Connect_keeps Disconnect_keeps

lemma dispatch_keeps: "keeps (session_typed P) (DispatchPackage pf I hdr)"
proof -
  have "keeps (session_typed P) (GenericHandler pf I p hdr)" for p
    by (cases p) (auto intro!: keeps_intros request_keeps)
  then show ?thesis
    unfolding DispatchPackage_search by (cases "find (\<lambda>p. ID p = hProcId hdr) Enum.enum") (auto intro: keeps_ret)
qed

lemma loop_body_keeps: "keeps (session_typed P) (loop_body pf I)"
proof
  fix s q t assume s: "session_typed P s" and run: "loop_body pf I s = (q, t)" and "live q"
  have body: "keeps (session_typed P) (try_block pf I)"
    unfolding try_block_def by (intro keeps_intros dispatch_keeps)
  have answer: "keeps (session_typed P) (thenM (send_error pf msg) (ret b))"
    "keeps (session_typed P) (thenM (send_error pf msg) (raise f))" for msg f and b :: bool
    by (intro keeps_intros)+
  obtain r u where r: "try_block pf I s = (r, u)" by fastforce
  show "session_typed P t"
  proof (cases "live r")
    case True
    then have "session_typed P u" using keepsD [OF body s r] by blast
    with run r \<open>live q\<close> show ?thesis
      using keepsD [OF answer(1)] keepsD [OF answer(2)]
      by (auto simp: loop_body_def split: sum.splits fault.splits if_splits)
  next
    case False
    with run r \<open>live q\<close> show ?thesis by (cases r; cases "projl r") (auto simp: loop_body_def)
  qed
qed

lemma RequestLoop_keeps: "keeps (session_typed P) (RequestLoop pf I)"
proof
  fix s q t assume "session_typed P s" and "RequestLoop pf I s = (q, t)" and "live q"
  then show "session_typed P t"
  proof (induction "pending s" arbitrary: s rule: less_induct)
    case less
    obtain b u where flag: "read_flag s = (b, u)" by fastforce
    then have u: "session_typed P u" "pending u = pending s"
      using less.prems(1) read_flag_pending [OF flag]
      by (auto simp: session_typed_def read_flag_def split: list.splits)
    obtain r v where body: "loop_body pf I u = (r, v)" by fastforce
    show ?case
    proof (cases "\<not> b \<and> r = Inr True")
      case True
      then have "pending v < pending s" "session_typed P v" "RequestLoop pf I v = (q, t)"
        using loop_body_pending [of pf I u v] keepsD [OF loop_body_keeps u(1) body] u(2) body flag less.prems(2)
        by (auto simp: RequestLoop.simps [of pf I s])
      with less show ?thesis by blast
    next
      case False
      with less.prems(2,3) flag body u(1) keepsD [OF loop_body_keeps u(1) body] show ?thesis
        by (subst (asm) RequestLoop.simps) (auto split: sum.splits bool.splits if_splits)
    qed
  qed
qed

lemma HandlerRoutine_keeps:
  assumes "HandlerRoutine pf I garbage acc s = (q, t)" and "live q"
    and "P (Hnd s)" and "rpc_typed (Rpc s)" and "length garbage = BufSize"
  shows "session_typed P t"
proof (cases "ServerSocket_Accept pf acc")
  case (Inl f)
  with assms show ?thesis by (cases f) (auto simp: HandlerRoutine_def session_typed_def)
next
  case (Inr c)
  let ?u = "s\<lparr>Rpc := RPCProvider_new c garbage Error_ID, connOk := True\<rparr>"
  have "session_typed P ?u"
    using assms(3,5) by (simp add: session_typed_def rpc_typed_def rpc_wf_def RPCProvider_new_def)
  then show ?thesis
    using keepsD [OF RequestLoop_keeps _ _ assms(2), of ?u] assms(1) Inr by (simp add: HandlerRoutine_def)
qed

end

section \<open>The handlers keep their contract\<close>

text \<open>A path of the port arbiter.\<close>

definition arb_path :: "arbiter \<Rightarrow> arbiter \<Rightarrow> bool" where
  "arb_path a b \<longleftrightarrow> reach a (\<lambda>x y. \<exists>e. arb_step x e y) b"

lemma arb_path_refl [simp]: "arb_path a a"
  by (simp add: arb_path_def reach_init)

lemma arb_path_step: "arb_path a b \<Longrightarrow> arb_step b e c \<Longrightarrow> arb_path a c"
  unfolding arb_path_def by (blast intro: reach_step)

lemma keeps_discard:
  assumes "keeps P (thenM m (ret ()))"
  shows "keeps P m"
proof
  fix s q t assume s: "P s" and "m s = (q, t)" "live q"
  then have "thenM m (ret ()) s = (map_sum id (\<lambda>_. ()) q, t)" "live (map_sum id (\<lambda>_. ()) q)"
    by (cases q; simp add: thenM_def bindM_def)+
  with keepsD [OF assms s] show "P t" by blast
qed

lemma keeps_handle:
  assumes "\<And>rq. keeps P (handle I rq)"
  shows "kept_handler I P"
proof
  show "keeps P (iGetStatus I)" by (rule keeps_discard [OF assms [of RGetStatus, unfolded handle.simps]])
  show "keeps P (iFlash I mem path)" for mem path by (rule keeps_discard [OF assms [of "RFlash mem path", unfolded handle.simps]])
  show "keeps P (iStart I)" by (rule keeps_discard [OF assms [of RStart, unfolded handle.simps]])
  show "keeps P (iReset I)" by (rule keeps_discard [OF assms [of RReset, unfolded handle.simps]])
  show "keeps P (iConnect I mem user)" for mem user by (rule keeps_discard [OF assms [of "RConnect mem user", unfolded handle.simps]])
  show "keeps P (iDisconnect I)" by (rule keeps_discard [OF assms [of RDisconnect, unfolded handle.simps]])
qed

interpretation impl_kept: kept_handler "HandlerImpl pf" "\<lambda>h. handler_inv h \<and> arb_path a (arb_of h)" for pf a
  by (rule keeps_handle, rule keepsI) (auto dest: handle_step intro: arb_path_step)

interpretation mock_kept: kept_handler HandlerMock P for P
  by unfold_locales (simp_all add: HandlerMock_def keeps_ret)

section \<open>Properties\<close>


text \<open>A client that sends a package no procedure has, then half of another one, then hangs up.\<close>

definition noise :: conn where
  "noise = demo_conn [RxData [77], RxData [3, 1, 0, 7], RxData [200, 9], RxData []]"


end
