(* ===== verification/Handler_Threads.thy ===== *)
theory Handler_Threads
  imports Session_Spec
begin

text \<open>
  The handler under concurrent requests.  Every client has its own server thread, and all threads
  call the one \<open>HandlerImpl\<close> object.  Two mutexes protect it: \<open>HandlerImpl::Mutex\<close> (\<open>Acquired\<close>,
  \<open>UserName\<close>, \<open>UserPid\<close>) and \<open>FirmwareFSM::Mutex\<close> (\<open>State\<close>, \<open>RoutineName\<close>).

  A step of the system is one thread's section between two points where another thread can come
  in.  A section under the firmware's mutex never waits for anything else, so it is one step; the
  handler's mutex is held by \<open>Connect\<close> while it clears the port, so it is a field of the state.
  What the sequential operations of \<open>Handler_Impl\<close> and \<open>Firmware_FSM\<close> do in one piece is cut here
  exactly where the code releases a mutex: after \<open>EnsureNotAcquired\<close>, and between the two locked
  sections of \<open>DoTransition\<close>.
\<close>

section \<open>The system\<close>

text \<open>Where a thread is inside its request.\<close>

datatype pc =
    Idle
  | Checked command TransitionRoutine    \<comment> \<open>\<open>EnsureNotAcquired\<close> returned; \<open>DoTransition\<close> comes next\<close>
  | InAction command TransitionRoutine   \<comment> \<open>\<open>DoTransition\<close> runs \<open>routine.Action()\<close>\<close>
  | Refused command TransitionRoutine    \<comment> \<open>\<open>stateOk\<close> is false, the mutex is released\<close>
  | ConnChecked user                     \<comment> \<open>\<open>Connect\<close>, before \<open>GetState\<close>; the mutex is held\<close>
  | ConnRunning user                     \<comment> \<open>the state was \<open>Running\<close>; before \<open>ClearPort\<close>\<close>
  | ConnCleared user                     \<comment> \<open>before the fields are written\<close>

record system =
  Hand :: handler
  HMutex :: "nat option"                 \<comment> \<open>the thread that holds \<open>HandlerImpl::Mutex\<close>\<close>
  pcs :: "nat \<Rightarrow> pc"
  results :: "(nat \<times> command \<times> unit result) list"

definition system_new :: "handler \<Rightarrow> system" where
  "system_new h = \<lparr>Hand = h, HMutex = None, pcs = (\<lambda>_. Idle), results = []\<rparr>"

definition set_pc :: "nat \<Rightarrow> pc \<Rightarrow> system \<Rightarrow> system" where
  "set_pc t p s = s\<lparr>pcs := (pcs s)(t := p)\<rparr>"

text \<open>A request that is over: its thread is idle again.\<close>

definition finish :: "nat \<Rightarrow> command \<Rightarrow> unit result \<Rightarrow> system \<Rightarrow> system" where
  "finish t c q s = s\<lparr>pcs := (pcs s)(t := Idle), results := results s @ [(t, c, q)]\<rparr>"

section \<open>The sections\<close>

text \<open>The first locked section of \<open>DoTransition\<close>.\<close>

definition enter_section :: "nat \<Rightarrow> command \<Rightarrow> TransitionRoutine \<Rightarrow> system \<Rightarrow> system" where
  "enter_section t c r s =
     (if CheckState (Firmware (Hand s)) (ExpectedStates r)
      then set_pc t (InAction c r) (s\<lparr>Hand := (Hand s)\<lparr>Firmware := enter_transition r (Firmware (Hand s))\<rparr>\<rparr>)
      else set_pc t (Refused c r) s)"

text \<open>The action, and the deferred \<open>SetState\<close>.  No step: the action has not come back.\<close>

definition action_section :: "nat \<Rightarrow> command \<Rightarrow> TransitionRoutine \<Rightarrow> system \<Rightarrow> system option" where
  "action_section t c r s = (case run_action r (Firmware (Hand s)) of (q, f) \<Rightarrow>
     if live q then Some (finish t c q (s\<lparr>Hand := (Hand s)\<lparr>Firmware := f\<rparr>\<rparr>)) else None)"

text \<open>The \<open>throw\<close> of \<open>DoTransition\<close>, which reads \<open>State\<close> again, without the mutex.\<close>

definition refuse_section :: "nat \<Rightarrow> command \<Rightarrow> TransitionRoutine \<Rightarrow> system \<Rightarrow> system option" where
  "refuse_section t c r s =
     (case ComposeMsg (rName r) (State (Firmware (Hand s))) (ExpectedStates r) of
        Inl f \<Rightarrow> None
      | Inr msg \<Rightarrow> Some (finish t c (Inl (Exn (FSMException msg))) s))"

text \<open>\<open>Connect\<close>: the read of the state, the port, and the fields.\<close>

definition state_section :: "nat \<Rightarrow> user \<Rightarrow> system \<Rightarrow> system" where
  "state_section t u s =
     (if GetState (Firmware (Hand s)) \<noteq> Running
      then finish t (CConnect u)
             (Inl (Exn (RuntimeError (''Can'' @ [CHR 0x27] @ ''t connect: firmware is not started''))))
             (s\<lparr>HMutex := None\<rparr>)
      else set_pc t (ConnRunning u) s)"

definition clear_section :: "platform \<Rightarrow> nat \<Rightarrow> user \<Rightarrow> system \<Rightarrow> system option" where
  "clear_section pf t u s =
     (case with_os (ClearPort pf (GetPort (Firmware (Hand s)))) (Hand s) of
        (Inr v, h) \<Rightarrow> Some (set_pc t (ConnCleared u) (s\<lparr>Hand := h\<rparr>))
      | (Inl f, h) \<Rightarrow>
          if unwinds f then Some (finish t (CConnect u) (Inl f) (s\<lparr>Hand := h, HMutex := None\<rparr>)) else None)"

definition commit_section :: "nat \<Rightarrow> user \<Rightarrow> system \<Rightarrow> system" where
  "commit_section t u s = finish t (CConnect u) (Inr ())
     (s\<lparr>Hand := (Hand s)\<lparr>hUserName := fst u, hUserPid := snd u, hAcquired := True\<rparr>, HMutex := None\<rparr>)"

text \<open>
  A request begins.  A request that locks the handler's mutex waits while another thread holds it.
  \<open>check_section\<close> is \<open>EnsureNotAcquired\<close>.
\<close>

definition check_section :: "nat \<Rightarrow> command \<Rightarrow> string \<Rightarrow> pc \<Rightarrow> system \<Rightarrow> system" where
  "check_section t c procName p s = (case EnsureNotAcquired procName (Hand s) of
      (Inl f, h) \<Rightarrow> finish t c (Inl f) (s\<lparr>Hand := h\<rparr>)
    | (Inr u, h) \<Rightarrow> set_pc t p (s\<lparr>Hand := h\<rparr>))"

fun begin_request :: "platform \<Rightarrow> nat \<Rightarrow> command \<Rightarrow> system \<Rightarrow> system option" where
  "begin_request pf t CStart s = Some (enter_section t CStart (StartFirmware_routine pf) s)"
| "begin_request pf t CGetStatus s = (if HMutex s \<noteq> None then None else Some (finish t CGetStatus (Inr ()) s))"
| "begin_request pf t (CFlash path) s = (if HMutex s \<noteq> None then None else Some
     (check_section t (CFlash path) ''Flash'' (Checked (CFlash path) (FlashBootlader_routine pf path)) s))"
| "begin_request pf t CReset s = (if HMutex s \<noteq> None then None else Some
     (check_section t CReset ''Reset'' (Checked CReset (ResetChip_routine pf)) s))"
| "begin_request pf t (CConnect u) s = (if HMutex s \<noteq> None then None
     else if hAcquired (Hand s) then Some (check_section t (CConnect u) ''Connect'' Idle s)
     else Some (set_pc t (ConnChecked u) (s\<lparr>HMutex := Some t\<rparr>)))"
| "begin_request pf t CDisconnect s = (if HMutex s \<noteq> None then None
     else (case HandlerImpl_Disconnect (Hand s) of
        (Inl f, h) \<Rightarrow> Some (finish t CDisconnect (Inl f) (s\<lparr>Hand := h\<rparr>))
      | (Inr v, h) \<Rightarrow> Some (finish t CDisconnect (Inr ()) (s\<lparr>Hand := h\<rparr>))))"
| "begin_request pf t c s = None"

definition advance :: "platform \<Rightarrow> nat \<Rightarrow> system \<Rightarrow> system option" where
  "advance pf t s = (case pcs s t of
      Idle \<Rightarrow> None
    | Checked c r \<Rightarrow> Some (enter_section t c r s)
    | InAction c r \<Rightarrow> action_section t c r s
    | Refused c r \<Rightarrow> refuse_section t c r s
    | ConnChecked u \<Rightarrow> Some (state_section t u s)
    | ConnRunning u \<Rightarrow> clear_section pf t u s
    | ConnCleared u \<Rightarrow> Some (commit_section t u s))"

inductive sys_step :: "platform \<Rightarrow> system \<Rightarrow> system \<Rightarrow> bool" for pf where
  begins: "pcs s t = Idle \<Longrightarrow> begin_request pf t c s = Some s' \<Longrightarrow> sys_step pf s s'"
| continues: "advance pf t s = Some s' \<Longrightarrow> sys_step pf s s'"

section \<open>The invariant\<close>

fun in_connect :: "pc \<Rightarrow> bool" where
  "in_connect (ConnChecked u) = True"
| "in_connect (ConnRunning u) = True"
| "in_connect (ConnCleared u) = True"
| "in_connect _ = False"

fun acting :: "pc \<Rightarrow> bool" where
  "acting (InAction c r) = True"
| "acting _ = False"

fun job_of :: "pc \<Rightarrow> (command \<times> TransitionRoutine) option" where
  "job_of (Checked c r) = Some (c, r)"
| "job_of (InAction c r) = Some (c, r)"
| "job_of (Refused c r) = Some (c, r)"
| "job_of _ = None"

text \<open>The routine behind a command.\<close>

fun routine_for :: "platform \<Rightarrow> command \<Rightarrow> TransitionRoutine option" where
  "routine_for pf (CFlash path) = Some (FlashBootlader_routine pf path)"
| "routine_for pf CReset = Some (ResetChip_routine pf)"
| "routine_for pf CStart = Some (StartFirmware_routine pf)"
| "routine_for pf c = None"

text \<open>
  The holder of the port according to the results the clients saw: \<open>None\<close> when the results are
  those of no exclusive use (a second grant without a release, or a release without a grant).
\<close>

fun audit :: "user option \<Rightarrow> (nat \<times> command \<times> unit result) list \<Rightarrow> user option option" where
  "audit held [] = Some held"
| "audit held ((t, CConnect u, Inr x) # es) = (if held = None then audit (Some u) es else None)"
| "audit held ((t, CDisconnect, Inr x) # es) = (if held = None then None else audit None es)"
| "audit held (e # es) = audit held es"

definition held_by :: "handler \<Rightarrow> user option" where
  "held_by h = (if hAcquired h then Some (hUserName h, hUserPid h) else None)"

text \<open>Only the holder of the handler's mutex is inside \<open>Connect\<close>, and the port is free then.\<close>

definition lock_inv :: "system \<Rightarrow> bool" where
  "lock_inv s \<longleftrightarrow> (\<forall>t. in_connect (pcs s t) \<longleftrightarrow> HMutex s = Some t) \<and>
     (HMutex s \<noteq> None \<longrightarrow> \<not> hAcquired (Hand s))"

text \<open>The chip is in transition exactly while one thread runs a hardware action.\<close>

definition chip_inv :: "platform \<Rightarrow> system \<Rightarrow> bool" where
  "chip_inv pf s \<longleftrightarrow>
     (\<forall>t c r. job_of (pcs s t) = Some (c, r) \<longrightarrow> routine_for pf c = Some r) \<and>
     (\<forall>t u. acting (pcs s t) \<longrightarrow> acting (pcs s u) \<longrightarrow> t = u) \<and>
     (State (Firmware (Hand s)) = Transition \<longleftrightarrow> (\<exists>t. acting (pcs s t))) \<and>
     (\<forall>t c r. pcs s t = InAction c r \<longrightarrow> RoutineName (Firmware (Hand s)) = rName r)"

definition audit_inv :: "system \<Rightarrow> bool" where
  "audit_inv s \<longleftrightarrow> audit None (results s) = Some (held_by (Hand s))"

definition threads_inv :: "platform \<Rightarrow> system \<Rightarrow> bool" where
  "threads_inv pf s \<longleftrightarrow> lock_inv s \<and> chip_inv pf s \<and> audit_inv s"

section \<open>The invariant is kept\<close>

lemmas section_defs = enter_section_def action_section_def refuse_section_def state_section_def
  clear_section_def commit_section_def check_section_def finish_def set_pc_def

lemma audit_append: "audit g (es @ fs) = (case audit g es of None \<Rightarrow> None | Some h \<Rightarrow> audit h fs)"
  by (induction g es rule: audit.induct) auto

lemma audit_quiet [simp]:
  "audit g [(t, c, Inl f)] = Some g"
  by (cases "(g, [(t, c, Inl f :: unit result)])" rule: audit.cases) auto

lemma with_os_frame:
  assumes "with_os m h = (q, h')"
  shows "\<exists>w. h' = h\<lparr>Firmware := (Firmware h)\<lparr>OS := w\<rparr>\<rparr>"
  using assms by (auto simp: with_os_def with_firmware_def zoom_def split: prod.splits)

lemma run_action_frame:
  assumes "run_action r f = (q, g)" and "live q"
  shows "State g = FinalState r \<or> State g = Fault"
  using assms by (auto simp: run_action_def SetState_def split: prod.splits sum.splits if_splits)

lemma lock_invD: "lock_inv s \<Longrightarrow> HMutex s = Some t \<longleftrightarrow> in_connect (pcs s t)"
  by (simp add: lock_inv_def)

lemma lock_inv_update:
  assumes "lock_inv s" and "\<And>v. v \<noteq> t \<Longrightarrow> pcs s' v = pcs s v"
    and "in_connect (pcs s' t) \<longleftrightarrow> HMutex s' = Some t"
    and "HMutex s' = HMutex s \<or> HMutex s \<in> {None, Some t} \<and> HMutex s' \<in> {None, Some t}"
    and "HMutex s' \<noteq> None \<Longrightarrow> \<not> hAcquired (Hand s')"
  shows "lock_inv s'"
proof -
  have "in_connect (pcs s' v) \<longleftrightarrow> HMutex s' = Some v" for v
  proof (cases "v = t")
    case False
    then have "in_connect (pcs s' v) \<longleftrightarrow> HMutex s = Some v"
      using assms(2) lock_invD [OF assms(1)] by simp
    also have "\<dots> \<longleftrightarrow> HMutex s' = Some v" using assms(4) False by auto
    finally show ?thesis .
  qed (use assms(3) in simp)
  with assms(5) show ?thesis by (simp add: lock_inv_def)
qed

lemma lock_inv_begin:
  assumes "lock_inv s" and "pcs s t = Idle" and "begin_request pf t c s = Some s'"
  shows "lock_inv s'"
proof (rule lock_inv_update [OF assms(1), of t])
  have m: "HMutex s \<noteq> Some t" using assms(1,2) lock_invD by simp
  note defs = section_defs HandlerImpl_Disconnect_def EnsureNotAcquired_def thenM_def bindM_def
  show "pcs s' v = pcs s v" if "v \<noteq> t" for v
    using assms(3) that by (cases c) (auto simp: defs split: if_splits)
  show "in_connect (pcs s' t) \<longleftrightarrow> HMutex s' = Some t"
    using assms(3) m by (cases c) (auto simp: defs split: if_splits)
  show "HMutex s' = HMutex s \<or> HMutex s \<in> {None, Some t} \<and> HMutex s' \<in> {None, Some t}"
    using assms(3) by (cases c) (auto simp: defs split: if_splits)
  have "HMutex s \<noteq> None \<Longrightarrow> \<not> hAcquired (Hand s)" using assms(1) by (simp add: lock_inv_def)
  then show "\<not> hAcquired (Hand s')" if "HMutex s' \<noteq> None"
    using assms(3) that by (cases c) (auto simp: defs split: if_splits)
qed

lemma lock_inv_advance:
  assumes "lock_inv s" and "advance pf t s = Some s'"
  shows "lock_inv s'"
proof (rule lock_inv_update [OF assms(1), of t])
  have m: "HMutex s = Some t \<longleftrightarrow> in_connect (pcs s t)" by (rule lock_invD [OF assms(1)])
  note splits = if_splits prod.splits sum.splits pc.splits
  show "pcs s' v = pcs s v" if "v \<noteq> t" for v
    using assms(2) that by (auto simp: advance_def section_defs split: splits)
  show "in_connect (pcs s' t) \<longleftrightarrow> HMutex s' = Some t"
    using assms(2) m by (auto simp: advance_def section_defs split: splits)
  show "HMutex s' = HMutex s \<or> HMutex s \<in> {None, Some t} \<and> HMutex s' \<in> {None, Some t}"
    using assms(2) m by (auto simp: advance_def section_defs split: splits)
  have "HMutex s \<noteq> None \<Longrightarrow> \<not> hAcquired (Hand s)" using assms(1) by (simp add: lock_inv_def)
  then show "\<not> hAcquired (Hand s')" if "HMutex s' \<noteq> None"
    using assms(2) that
    by (auto simp: advance_def section_defs split: splits dest!: with_os_frame)
qed

lemma audit_inv_begin:
  assumes "audit_inv s" and "begin_request pf t c s = Some s'"
  shows "audit_inv s'"
  using assms
  by (cases c) (auto simp: audit_inv_def section_defs HandlerImpl_Disconnect_def EnsureNotAcquired_def
      thenM_def bindM_def audit_append held_by_def enter_transition_def split: if_splits)

lemma audit_hardware [simp]:
  "routine_for pf c = Some r \<Longrightarrow> audit g [(t, c, q)] = Some g"
  by (cases c; cases q) auto

lemma audit_inv_advance:
  assumes "audit_inv s" and "lock_inv s" and "chip_inv pf s" and "advance pf t s = Some s'"
  shows "audit_inv s'"
proof (cases "pcs s t")
  case (ConnRunning u)
  obtain q h where os: "with_os (ClearPort pf (GetPort (Firmware (Hand s)))) (Hand s) = (q, h)" by fastforce
  then have "held_by h = held_by (Hand s)" using with_os_frame by (fastforce simp: held_by_def)
  then show ?thesis
    using assms ConnRunning os
    by (cases q) (auto simp: audit_inv_def advance_def section_defs audit_append split: if_splits)
next
  case (ConnCleared u)
  then have "HMutex s = Some t" using assms(2) lock_invD by simp
  then have "\<not> hAcquired (Hand s)" using assms(2) by (simp add: lock_inv_def)
  with ConnCleared assms show ?thesis
    by (auto simp: audit_inv_def advance_def section_defs audit_append held_by_def)
next
  case (InAction c r)
  then have "job_of (pcs s t) = Some (c, r)" by simp
  with assms(3) have "routine_for pf c = Some r" unfolding chip_inv_def by blast
  with InAction assms(1,4) show ?thesis
    by (auto simp: audit_inv_def advance_def section_defs audit_append held_by_def split: if_splits prod.splits)
qed (use assms(1,4) in \<open>auto simp: audit_inv_def advance_def section_defs audit_append held_by_def
    split: if_splits sum.splits prod.splits\<close>)

text \<open>A step of thread \<open>t\<close> that starts no action and ends none, that starts one, that ends one.\<close>

lemma chip_inv_silent:
  assumes "chip_inv pf s" and "\<And>v. v \<noteq> t \<Longrightarrow> pcs s' v = pcs s v"
    and "\<And>c r. job_of (pcs s' t) = Some (c, r) \<Longrightarrow> routine_for pf c = Some r"
    and "\<not> acting (pcs s t)" and "\<not> acting (pcs s' t)"
    and "State (Firmware (Hand s')) = State (Firmware (Hand s))"
    and "RoutineName (Firmware (Hand s')) = RoutineName (Firmware (Hand s))"
  shows "chip_inv pf s'"
proof -
  have act: "acting (pcs s' v) \<longleftrightarrow> acting (pcs s v)" for v using assms(2,4,5) by (cases "v = t") auto
  have "routine_for pf c = Some r" if "job_of (pcs s' v) = Some (c, r)" for v c r
    using that assms(1,2,3) unfolding chip_inv_def by (cases "v = t") auto
  moreover have "RoutineName (Firmware (Hand s')) = rName r" if "pcs s' v = InAction c r" for v c r
    using that assms(1,2,5,7) unfolding chip_inv_def by (cases "v = t") auto
  ultimately show ?thesis
    using assms(1,6) unfolding chip_inv_def act by simp
qed

lemma chip_inv_enter:
  assumes "chip_inv pf s" and "\<And>v. v \<noteq> t \<Longrightarrow> pcs s' v = pcs s v"
    and "pcs s' t = InAction c r" and "routine_for pf c = Some r"
    and "State (Firmware (Hand s)) \<noteq> Transition"
    and "State (Firmware (Hand s')) = Transition" and "RoutineName (Firmware (Hand s')) = rName r"
  shows "chip_inv pf s'"
proof -
  have "\<not> acting (pcs s v)" for v using assms(1,5) unfolding chip_inv_def by blast
  then have act: "acting (pcs s' v) \<longleftrightarrow> v = t" for v using assms(2,3) by (cases "v = t") auto
  have "routine_for pf d = Some q" if "job_of (pcs s' v) = Some (d, q)" for v d q
    using that assms(1-4) unfolding chip_inv_def by (cases "v = t") auto
  moreover have "RoutineName (Firmware (Hand s')) = rName q" if "pcs s' v = InAction d q" for v d q
    using that act [of v] assms(3,7) by auto
  ultimately show ?thesis using assms(6) unfolding chip_inv_def act by auto
qed

lemma chip_inv_leave:
  assumes "chip_inv pf s" and "\<And>v. v \<noteq> t \<Longrightarrow> pcs s' v = pcs s v"
    and "acting (pcs s t)" and "pcs s' t = Idle" and "State (Firmware (Hand s')) \<noteq> Transition"
  shows "chip_inv pf s'"
proof -
  have only: "\<not> acting (pcs s v)" if "v \<noteq> t" for v using assms(1,3) that unfolding chip_inv_def by blast
  then have act: "\<not> acting (pcs s' v)" for v using assms(2,4) by (cases "v = t") auto
  have "routine_for pf d = Some q" if "job_of (pcs s' v) = Some (d, q)" for v d q
    using that assms(1,2,4) unfolding chip_inv_def by (cases "v = t") auto
  moreover have "pcs s' v \<noteq> InAction d q" for v d q using act [of v] by auto
  ultimately show ?thesis using act assms(5) unfolding chip_inv_def by blast
qed

lemma routine_for_routine: "routine_for pf c = Some r \<Longrightarrow> fsm_routine pf r"
  by (cases c) (auto intro: fsm_routine.intros)

lemma chip_inv_enter_section:
  assumes "chip_inv pf s" and "\<not> acting (pcs s t)" and "routine_for pf c = Some r"
  shows "chip_inv pf (enter_section t c r s)"
proof (cases "CheckState (Firmware (Hand s)) (ExpectedStates r)")
  case True
  then have "State (Firmware (Hand s)) \<noteq> Transition"
    using fsm_routine_facts(2) [OF routine_for_routine [OF assms(3)]] by (auto simp: CheckState_eq)
  with True show ?thesis
    by (intro chip_inv_enter [OF assms(1), of t _ c r])
      (simp_all add: section_defs enter_transition_def assms(3))
next
  case False
  then show ?thesis
    using assms(2,3) by (intro chip_inv_silent [OF assms(1), of t]) (simp_all add: section_defs)
qed

lemma chip_inv_begin:
  assumes "chip_inv pf s" and "pcs s t = Idle" and "begin_request pf t c s = Some s'"
  shows "chip_inv pf s'"
proof (cases "c = CStart")
  case True
  then show ?thesis using assms chip_inv_enter_section [OF assms(1), of t CStart] by simp
next
  case False
  note defs = section_defs HandlerImpl_Disconnect_def EnsureNotAcquired_def thenM_def bindM_def
  show ?thesis
  proof (rule chip_inv_silent [OF assms(1), of t])
    show "pcs s' v = pcs s v" if "v \<noteq> t" for v
      using assms(3) that False by (cases c) (auto simp: defs split: if_splits)
    show "routine_for pf d = Some r" if "job_of (pcs s' t) = Some (d, r)" for d r
      using assms(3) that False by (cases c) (auto simp: defs split: if_splits)
    show "\<not> acting (pcs s' t)"
      using assms(3) False by (cases c) (auto simp: defs split: if_splits)
    show "State (Firmware (Hand s')) = State (Firmware (Hand s))"
      using assms(3) False by (cases c) (auto simp: defs split: if_splits)
    show "RoutineName (Firmware (Hand s')) = RoutineName (Firmware (Hand s))"
      using assms(3) False by (cases c) (auto simp: defs split: if_splits)
  qed (simp add: assms(2))
qed

lemma chip_inv_advance:
  assumes "chip_inv pf s" and "advance pf t s = Some s'"
  shows "chip_inv pf s'"
proof -
  have job: "routine_for pf c = Some r" if "job_of (pcs s t) = Some (c, r)" for c r
    using assms(1) that unfolding chip_inv_def by blast
  note silent = chip_inv_silent [OF assms(1), of t]
  show ?thesis
  proof (cases "pcs s t")
    case (Checked c r)
    then show ?thesis using assms chip_inv_enter_section [OF assms(1), of t c r] job by (simp add: advance_def)
  next
    case (InAction c r)
    then have r: "fsm_routine pf r" using job routine_for_routine by simp
    obtain q f where run: "run_action r (Firmware (Hand s)) = (q, f)" by fastforce
    with assms(2) InAction have "live q" and s': "s' = finish t c q (s\<lparr>Hand := (Hand s)\<lparr>Firmware := f\<rparr>\<rparr>)"
      by (auto simp: advance_def action_section_def split: if_splits)
    have "State f \<noteq> Transition"
      using run_action_frame [OF run \<open>live q\<close>] fsm_routine_facts(3) [OF r] by auto
    then show ?thesis
      using InAction s' by (intro chip_inv_leave [OF assms(1), of t]) (simp_all add: finish_def)
  next
    case (ConnRunning u)
    obtain q h where os: "with_os (ClearPort pf (GetPort (Firmware (Hand s)))) (Hand s) = (q, h)" by fastforce
    from with_os_frame [OF os] ConnRunning os assms(2) show ?thesis
      by (intro silent) (auto simp: advance_def section_defs split: sum.splits if_splits)
  next
    case (Refused c r)
    with assms(2) show ?thesis
      by (intro silent) (auto simp: advance_def section_defs split: sum.splits)
  next
    case (ConnChecked u)
    with assms(2) show ?thesis
      by (intro silent) (auto simp: advance_def section_defs split: if_splits)
  qed (use assms(2) in \<open>auto simp: advance_def section_defs intro!: silent\<close>)
qed

lemma threads_inv_step:
  assumes "sys_step pf s s'" and "threads_inv pf s"
  shows "threads_inv pf s'"
  using assms
  by (induction rule: sys_step.induct)
    (auto simp: threads_inv_def dest: lock_inv_begin chip_inv_begin audit_inv_begin
      lock_inv_advance chip_inv_advance audit_inv_advance)

lemma threads_inv_new:
  assumes "fsm_idle (Firmware h)" and "\<not> hAcquired h"
  shows "threads_inv pf (system_new h)"
  using assms
  by (simp add: threads_inv_def lock_inv_def chip_inv_def audit_inv_def system_new_def fsm_idle_def held_by_def)

text \<open>The server builds the handler before it starts a thread.\<close>

definition system_init :: "platform \<Rightarrow> system \<Rightarrow> bool" where
  "system_init pf s \<longleftrightarrow> (\<exists>w u h. HandlerImpl_new pf w = (Inr u, h) \<and> s = system_new h)"

interpretation handler_threads: invariant_system "system_init pf" "sys_step pf" "threads_inv pf" for pf
proof unfold_locales
  show "threads_inv pf s" if "system_init pf s" for s
    using that HandlerImpl_new_inv threads_inv_new unfolding system_init_def handler_inv_def by blast
qed (rule threads_inv_step)

section \<open>The sections make up the operations\<close>

text \<open>A thread that is not interrupted after its request began.\<close>

fun run_alone :: "platform \<Rightarrow> nat \<Rightarrow> nat \<Rightarrow> system \<Rightarrow> system" where
  "run_alone pf t 0 s = s"
| "run_alone pf t (Suc n) s = (case advance pf t s of None \<Rightarrow> s | Some s' \<Rightarrow> run_alone pf t n s')"

definition unit_result :: "'a result \<Rightarrow> unit result" where
  "unit_result = map_sum id (\<lambda>_. ())"

lemma unit_result_simps [simp]:
  "unit_result (Inr x) = Inr ()" "unit_result (Inl f) = Inl f"
  by (simp_all add: unit_result_def)

lemma hardware_alone:
  assumes "pcs s t = Idle" and "routine_for pf c = Some r"
    and "with_firmware (DoTransition r) (Hand s) = (q, h)" and "live q"
  shows "run_alone pf t (Suc (Suc n)) (enter_section t c r s) =
    s\<lparr>Hand := h, results := results s @ [(t, c, q)]\<rparr>"
proof -
  have pc: "(pcs s)(t := Idle) = pcs s" using assms(1) by auto
  obtain f where f: "DoTransition r (Firmware (Hand s)) = (q, f)" "h = (Hand s)\<lparr>Firmware := f\<rparr>"
    using assms(3) by (auto simp: with_firmware_def zoom_def split: prod.splits)
  have run: "run_alone pf t n u = u" if "pcs u t = Idle" for n u
    using that by (cases n) (simp_all add: advance_def)
  show ?thesis
  proof (cases "CheckState (Firmware (Hand s)) (ExpectedStates r)")
    case True
    with f(1) have "run_action r (enter_transition r (Firmware (Hand s))) = (q, f)"
      by (simp add: DoTransition_def bindM_def thenM_def)
    with True f assms(1,4) pc show ?thesis
      by (simp add: enter_section_def set_pc_def advance_def action_section_def run finish_def)
  next
    case False
    then obtain msg where
      "ComposeMsg (rName r) (State (Firmware (Hand s))) (ExpectedStates r) = Inr msg"
      "DoTransition r (Firmware (Hand s)) = (Inl (Exn (FSMException msg)), Firmware (Hand s))"
      using DoTransition_illegal fsm_routine_facts(1) [OF routine_for_routine [OF assms(2)]]
      by (metis CheckState_eq)
    with False f assms(1,4) pc show ?thesis
      by (simp add: enter_section_def set_pc_def advance_def refuse_section_def run finish_def)
  qed
qed

lemma run_alone_idle: "pcs s t = Idle \<Longrightarrow> run_alone pf t n s = s"
  by (cases n) (simp_all add: advance_def)

text \<open>The commands that reach the handler.\<close>

fun for_handler :: "command \<Rightarrow> bool" where
  "for_handler CShutdown = False"
| "for_handler CPing = False"
| "for_handler CDebugBlock = False"
| "for_handler CDebugThrow = False"
| "for_handler c = True"

lemma unit_result_thenM:
  "thenM m (ret x) h = (q, h') \<Longrightarrow> m h = (unit_result q, h')" for m :: "('s, unit) prog"
  by (auto simp: thenM_def bindM_def split: prod.splits sum.splits)

lemma live_unit_result [simp]: "live (unit_result q) = live q"
  by (cases q) simp_all

lemma enter_section_over: "enter_section t c r (set_pc t p s) = enter_section t c r s"
  by (simp add: enter_section_def set_pc_def)

lemma checked_alone:
  assumes "pcs s t = Idle" and "routine_for pf c = Some r"
    and "thenM (EnsureNotAcquired p) (thenM (with_firmware (DoTransition r)) (ret x)) (Hand s) = (q, h)"
    and "live q"
  shows "run_alone pf t 3 (check_section t c p (Checked c r) s) =
    s\<lparr>Hand := h, results := results s @ [(t, c, unit_result q)]\<rparr>"
proof -
  have pc: "(pcs s)(t := Idle) = pcs s" using assms(1) by auto
  show ?thesis
  proof (cases "hAcquired (Hand s)")
    case True
    with assms(3) pc show ?thesis
      by (auto simp: thenM_Inl check_section_def finish_def assms(1) intro!: run_alone_idle)
  next
    case False
    then have "with_firmware (DoTransition r) (Hand s) = (unit_result q, h)"
      using assms(3) by (intro unit_result_thenM [of _ x]) (simp add: thenM_Inr)
    with hardware_alone [OF assms(1,2), of "unit_result q" h 0] assms(4)
    have "run_alone pf t (Suc (Suc 0)) (enter_section t c r s) =
        s\<lparr>Hand := h, results := results s @ [(t, c, unit_result q)]\<rparr>" by simp
    moreover have "advance pf t (check_section t c p (Checked c r) s) = Some (enter_section t c r s)"
      using False enter_section_over [of t c r "Checked c r" s]
      by (simp add: check_section_def advance_def) (simp add: set_pc_def)
    ultimately show ?thesis by (simp only: numeral_3_eq_3 run_alone.simps(2) [of _ _ "Suc (Suc 0)"] option.case)
  qed
qed

lemma connect_alone:
  assumes "pcs s t = Idle" and "HMutex s = None" and "exec pf (CConnect u) (Hand s) = (q, h)" and "live q"
  shows "\<exists>s1. begin_request pf t (CConnect u) s = Some s1 \<and>
    run_alone pf t 3 s1 = s\<lparr>Hand := h, results := results s @ [(t, CConnect u, unit_result q)]\<rparr>"
proof (cases "hAcquired (Hand s)")
  case True
  have pc: "(pcs s)(t := Idle) = pcs s" using assms(1) by auto
  with True assms show ?thesis
    by (auto simp: thenM_Inl check_section_def finish_def intro!: run_alone_idle)
next
  case False
  have pc: "(pcs s)(t := Idle) = pcs s" using assms(1) by auto
  have mu: "s\<lparr>HMutex := None\<rparr> = s" using assms(2) by simp
  show ?thesis
  proof (cases "State (Firmware (Hand s)) = Running")
    case run: False
    with False assms pc mu show ?thesis
      by (auto simp: thenM_Inr bindM_def set_pc_def advance_def state_section_def GetState_def finish_def
          numeral_3_eq_3)
  next
    case run: True
    obtain p g where os: "with_os (ClearPort pf (MbPort (Firmware (Hand s)))) (Hand s) = (p, g)" by fastforce
    show ?thesis
    proof (cases p)
      case (Inl f)
      with run False assms pc mu os show ?thesis
        by (auto simp: thenM_Inr thenM_Inl bindM_def set_pc_def advance_def state_section_def clear_section_def
            GetState_def GetPort_def finish_def numeral_3_eq_3)
    next
      case (Inr v)
      with run False assms pc mu os show ?thesis
        by (auto simp: thenM_Inr bindM_def set_pc_def advance_def state_section_def clear_section_def
            commit_section_def GetState_def GetPort_def finish_def numeral_3_eq_3)
    qed
  qed
qed

lemma alone_exec:
  assumes "pcs s t = Idle" and "HMutex s = None" and "for_handler c"
    and "exec pf c (Hand s) = (q, h)" and "live q"
  shows "\<exists>s1. begin_request pf t c s = Some s1 \<and>
    run_alone pf t 3 s1 = s\<lparr>Hand := h, results := results s @ [(t, c, unit_result q)]\<rparr>"
proof (cases c)
  case (CConnect u)
  then show ?thesis using connect_alone assms by blast
next
  case (CFlash path)
  then show ?thesis
    using checked_alone [of s t pf c _ "''Flash''" "[]" q h] assms by (simp add: FlashBootlader_def)
next
  case CReset
  then show ?thesis
    using checked_alone [of s t pf c _ "''Reset''" "[]" q h] assms by (simp add: ResetChip_def)
next
  case CStart
  then have "with_firmware (DoTransition (StartFirmware_routine pf)) (Hand s) = (unit_result q, h)"
    using assms(4) by (intro unit_result_thenM [of _ "[]"]) (simp add: StartFirmware_def)
  then show ?thesis
    using hardware_alone [OF assms(1), of pf CStart _ "unit_result q" h 1] CStart assms(5)
    by (simp add: numeral_3_eq_3)
next
  case CGetStatus
  have "(pcs s)(t := Idle) = pcs s" using assms(1) by auto
  with CGetStatus assms show ?thesis by (auto simp: finish_def intro!: run_alone_idle)
next
  case CDisconnect
  have "(pcs s)(t := Idle) = pcs s" using assms(1) by auto
  with CDisconnect assms show ?thesis
    by (auto simp: finish_def HandlerImpl_Disconnect_def bindM_def thenM_def split: if_splits intro!: run_alone_idle)
qed (use assms(3) in simp_all)

section \<open>Schedules\<close>

text \<open>Which thread does what next.\<close>

datatype sched = Begin nat command | Go nat

fun sched_next :: "platform \<Rightarrow> sched \<Rightarrow> system \<Rightarrow> system option" where
  "sched_next pf (Begin t c) s = (case pcs s t of Idle \<Rightarrow> begin_request pf t c s | _ \<Rightarrow> None)"
| "sched_next pf (Go t) s = advance pf t s"

lemma sched_next_step: "sched_next pf e s = Some s' \<Longrightarrow> sys_step pf s s'"
  by (cases e) (auto split: pc.splits intro: sys_step.intros)

lemmas sched_reach = run_schedule_reach [of "sched_next pf" "sys_step pf" for pf, OF sched_next_step _ reach_init]

definition demo_system :: system where
  "demo_system = system_new (snd (HandlerImpl_new arm good_board))"

lemma demo_system_init: "system_init arm demo_system"
  unfolding system_init_def demo_system_def using good_board_boots by (metis prod.collapse)

lemma demo_reach:
  "run_schedule (sched_next arm) es demo_system \<noteq> None \<Longrightarrow>
   reach demo_system (sys_step arm) (the (run_schedule (sched_next arm) es demo_system))"
  using sched_reach by fastforce

section \<open>Properties\<close>

text \<open>
  C2: Mutual exclusion on the hardware.  However the threads of the clients interleave, at most one
  of them is running a bootloader script, and the chip is reported to be in transition exactly
  while one is.
\<close>

theorem hardware_mutual_exclusion:
  assumes "system_init pf s0" and "reach s0 (sys_step pf) s"
  shows "(\<forall>t u. acting (pcs s t) \<longrightarrow> acting (pcs s u) \<longrightarrow> t = u) \<and>
    (State (Firmware (Hand s)) = Transition \<longleftrightarrow> (\<exists>t. acting (pcs s t)))"
  using handler_threads.reachable_inv [OF assms] unfolding threads_inv_def chip_inv_def by blast

definition two_starts :: "sched list" where
  "two_starts = [Begin 1 CStart, Begin 2 CStart, Go 2]"

theorem hardware_mutual_exclusion_witness:
  "State (Firmware (Hand (the (run_schedule (sched_next arm) two_starts demo_system)))) = Transition \<and>
   (\<exists>t. acting (pcs (the (run_schedule (sched_next arm) two_starts demo_system)) t))"
proof -
  let ?s = "the (run_schedule (sched_next arm) two_starts demo_system)"
  have "run_schedule (sched_next arm) two_starts demo_system \<noteq> None" by code_simp
  moreover have "State (Firmware (Hand ?s)) = Transition" by code_simp
  ultimately show ?thesis
    using hardware_mutual_exclusion [OF demo_system_init demo_reach [of two_starts]] by simp
qed

text \<open>
  C3: Exclusive grants under concurrency.  In the order in which the requests of all clients
  complete, a successful \<open>Connect\<close> never follows another one without a successful \<open>Disconnect\<close> in
  between, and the handler's fields name the user of the last grant.
\<close>

theorem grants_never_overlap:
  assumes "system_init pf s0" and "reach s0 (sys_step pf) s"
  shows "audit None (results s) = Some (held_by (Hand s))"
  using handler_threads.reachable_inv [OF assms] unfolding threads_inv_def audit_inv_def by blast

definition two_connects :: "sched list" where
  "two_connects = [Begin 0 CStart, Go 0, Begin 1 (CConnect (''one'', 1)), Go 1, Go 1, Go 1,
     Begin 2 (CConnect (''two'', 2))]"

theorem grants_never_overlap_witness:
  "map (\<lambda>(t, c, q). (t, live q, q = Inr ())) (results (the (run_schedule (sched_next arm) two_connects demo_system))) =
     [(0, True, True), (1, True, True), (2, True, False)] \<and>
   audit None (results (the (run_schedule (sched_next arm) two_connects demo_system))) =
     Some (Some (''one'', 1))"
proof -
  let ?s = "the (run_schedule (sched_next arm) two_connects demo_system)"
  have "run_schedule (sched_next arm) two_connects demo_system \<noteq> None" by code_simp
  then have "audit None (results ?s) = Some (held_by (Hand ?s))"
    by (rule grants_never_overlap [OF demo_system_init demo_reach])
  moreover have "held_by (Hand ?s) = Some (''one'', 1)" by code_simp
  moreover have "map (\<lambda>(t, c, q). (t, live q, q = Inr ())) (results ?s) =
     [(0, True, True), (1, True, True), (2, True, False)]" by code_simp
  ultimately show ?thesis by simp
qed


definition stuck_board :: world where
  "stuck_board = good_board\<lparr>procs := [exits_with 0, exits_with 0]\<rparr>"




definition reset_race :: "sched list" where
  "reset_race = [Begin 0 CStart, Go 0, Begin 1 CReset, Begin 2 (CConnect (''two'', 2)), Go 2, Go 2, Go 2, Go 1]"

text \<open>
  C31: The check and the hardware operation are not one step: a \<open>Reset\<close> that found the port free can
  run after another client has been granted the port.  There is a schedule of two threads after
  which the port is held and the chip is being reset.
\<close>

theorem reset_races_connect:
  "\<exists>s0 s. system_init arm s0 \<and> reach s0 (sys_step arm) s \<and> hAcquired (Hand s) \<and>
     State (Firmware (Hand s)) = Transition \<and> RoutineName (Firmware (Hand s)) = ''Chip reset''"
proof -
  let ?s = "the (run_schedule (sched_next arm) reset_race demo_system)"
  have "run_schedule (sched_next arm) reset_race demo_system \<noteq> None" by code_simp
  moreover have "hAcquired (Hand ?s)" by code_simp
  moreover have "State (Firmware (Hand ?s)) = Transition" by code_simp
  moreover have "RoutineName (Firmware (Hand ?s)) = ''Chip reset''" by code_simp
  ultimately show ?thesis using demo_system_init demo_reach [of reset_race] by blast
qed

end
