(* ===== verification/Net_Address.thy ===== *)
theory Net_Address
  imports Cpp_Memory
begin

text \<open>
  Addresses and ports as the sockets see them: \<open>IpToString\<close> and \<open>IpFromString\<close> of
  \<open>Src/Helpers.cpp\<close>, and the constructor and the getters of \<open>ClientSocket\<close> (\<open>Src/Socket.cpp\<close>).

  An address is \<open>s_addr\<close>, a 32-bit number whose four bytes in memory are the octets; a port is
  \<open>sin_port\<close>, 16 bits in network byte order.  The library functions \<open>inet_ntop\<close> and \<open>inet_pton\<close> for
  \<open>AF_INET\<close> are written out: the four octets in decimal, and a reader that takes exactly four octets
  without leading zeros.
\<close>

section \<open>The library functions\<close>

definition INET_ADDRSTRLEN :: nat where
  "INET_ADDRSTRLEN = 16"

definition ENOSPC :: int where
  "ENOSPC = 28"

text \<open>Octets with dots between them.\<close>

fun dotted :: "nat list \<Rightarrow> string" where
  "dotted [] = []"
| "dotted [n] = show_nat n"
| "dotted (n # ns) = show_nat n @ ''.'' @ dotted ns"

definition octets :: "32 word \<Rightarrow> nat list" where
  "octets addr = map unat (le_bytes 4 (unat addr))"

definition inet_ntop :: "32 word \<Rightarrow> nat \<Rightarrow> int + string" where
  "inet_ntop addr sz =
     (let t = dotted (octets addr) in if sz \<le> length t then Inl ENOSPC else Inr t)"

text \<open>
  The reader: the number of octets begun, whether the current octet has a digit, the finished
  octets, the value of the current one, and the rest of the text.
\<close>

fun pton_loop :: "nat \<Rightarrow> bool \<Rightarrow> nat list \<Rightarrow> nat \<Rightarrow> string \<Rightarrow> nat list option" where
  "pton_loop k saw os v [] = (if k < 4 then None else Some (os @ [v]))"
| "pton_loop k saw os v (c # r) =
     (if is_digit c then
        (let new = 10 * v + digit_value c in
         if saw \<and> v = 0 then None
         else if 255 < new then None
         else if \<not> saw then (if 4 \<le> k then None else pton_loop (Suc k) True os new r)
         else pton_loop k True os new r)
      else if c = CHR ''.'' \<and> saw then (if k = 4 then None else pton_loop k False (os @ [v]) 0 r)
      else None)"

text \<open>The result \<open>Inl e\<close> is a negative return value; \<open>AF_INET\<close> has none.\<close>

definition inet_pton :: "string \<Rightarrow> int + 32 word option" where
  "inet_pton src = Inr (map_option (\<lambda>os. word_of_nat (le_nat (map word_of_nat os))) (pton_loop 0 False [] 0 src))"

text \<open>What a C string shows of a \<open>std::string\<close>.\<close>

definition c_text :: "string \<Rightarrow> string" where
  "c_text s = takeWhile (\<lambda>c. c \<noteq> CHR 0x00) s"

section \<open>Helpers\<close>

definition IpToString :: "platform \<Rightarrow> 32 word \<Rightarrow> string result" where
  "IpToString pf addr =
     (let str = replicate INET_ADDRSTRLEN (CHR 0x00) in
      case inet_ntop addr INET_ADDRSTRLEN of
        Inl e \<Rightarrow> Inl (throw_errno pf ''IpToString'' ''Failed to convert address to string via inet_ntop()'' e)
      | Inr t \<Rightarrow> Inr (overwrite str 0 (t @ [CHR 0x00])))"

definition IpFromString :: "platform \<Rightarrow> string \<Rightarrow> 32 word result" where
  "IpFromString pf str =
     (case inet_pton (c_text str) of
        Inr None \<Rightarrow> Inl (throw_runtime ''IpFromString''
          ''Failed to parse addr from string via inet_pton(): Invalid address, inet_pton returned 0'')
      | Inl e \<Rightarrow> Inl (throw_errno pf ''IpFromString'' ''Failed to parse addr from string via inet_pton()'' e)
      | Inr (Some addr) \<Rightarrow> Inr addr)"

section \<open>ClientSocket\<close>

text \<open>\<open>htons\<close> on a little-endian machine; \<open>ntohs\<close> is the same function.\<close>

definition htons :: "16 word \<Rightarrow> 16 word" where
  "htons p = word_of_nat (le_nat (rev (le_bytes 2 (unat p))))"

record ClientSocket =
  cServerAddr :: string
  cAddrIn :: "32 word"
  cPortIn :: "16 word"

definition ClientSocket_new :: "platform \<Rightarrow> 32 word \<Rightarrow> 16 word \<Rightarrow> ClientSocket result" where
  "ClientSocket_new pf addr port = bindE (IpToString pf addr) (\<lambda>name.
     Inr \<lparr>cServerAddr = name, cAddrIn = addr, cPortIn = htons port\<rparr>)"

definition ClientSocket_GetPort :: "ClientSocket \<Rightarrow> 16 word" where
  "ClientSocket_GetPort s = cPortIn s"

definition ClientSocket_GetAddr :: "ClientSocket \<Rightarrow> string" where
  "ClientSocket_GetAddr s = cServerAddr s"

definition INADDR_ANY :: "32 word" where
  "INADDR_ANY = 0"

section \<open>Reading what was written\<close>

lemma pton_loop_number:
  assumes "n \<le> 255" and "k < 4"
  shows "pton_loop k False os 0 (show_nat n @ r) = pton_loop (Suc k) True os n r"
  using assms(1)
proof (induction n arbitrary: r rule: show_nat.induct)
  case (1 n)
  show ?case
  proof (cases "n < 10")
    case True
    then show ?thesis using assms(2) by (subst show_nat.simps) simp
  next
    case False
    then have "pton_loop k False os 0 (show_nat (n div 10) @ [char_of (48 + n mod 10)] @ r) =
        pton_loop (Suc k) True os (n div 10) ([char_of (48 + n mod 10)] @ r)"
      using 1 by simp
    moreover have "10 * (n div 10) + n mod 10 = n" "n div 10 \<noteq> 0" using False by auto
    ultimately show ?thesis using False 1(2) by (subst show_nat.simps) simp
  qed
qed

lemma pton_loop_dotted:
  assumes "\<forall>n \<in> set ns. n \<le> 255" and "ns \<noteq> []" and "k + length ns = 4"
  shows "pton_loop k False os 0 (dotted ns) = Some (os @ ns)"
  using assms
proof (induction ns arbitrary: k os rule: dotted.induct)
  case (2 n)
  with pton_loop_number [of n k os "[]"] show ?case by simp
next
  case (3 n m ns)
  have "\<not> is_digit (CHR ''.'')" by (simp add: is_digit_def)
  with 3 pton_loop_number [of n k os "''.'' @ dotted (m # ns)"] show ?case by simp
qed simp

text \<open>Conversely, what the reader accepts is what the writer gives for the octets it found.\<close>

definition read_so_far :: "nat list \<Rightarrow> bool \<Rightarrow> nat \<Rightarrow> string" where
  "read_so_far os saw v = concat (map (\<lambda>n. show_nat n @ ''.'') os) @ (if saw then show_nat v else [])"

lemma dotted_snoc: "dotted (os @ [v]) = concat (map (\<lambda>n. show_nat n @ ''.'') os) @ show_nat v"
  by (induction os rule: dotted.induct) auto

lemma pton_loop_accepts:
  assumes "pton_loop k saw os v s = Some ns" and "k = length os + (if saw then 1 else 0)"
    and "\<not> saw \<Longrightarrow> k < 4 \<and> v = 0" and "\<forall>n \<in> set (v # os). n \<le> 255" and "k \<le> 4"
  shows "dotted ns = read_so_far os saw v @ s \<and> length ns = 4 \<and> (\<forall>n \<in> set ns. n \<le> 255)"
  using assms
proof (induction s arbitrary: k saw os v)
  case Nil
  then have saw by (cases saw) auto
  with Nil show ?case by (auto simp: read_so_far_def dotted_snoc split: if_splits)
next
  case (Cons c r)
  show ?case
  proof (cases "is_digit c")
    case True
    let ?v = "10 * v + digit_value c"
    have run: "pton_loop (if saw then k else Suc k) True os ?v r = Some ns" "?v \<le> 255" "saw \<Longrightarrow> 0 < v" "\<not> saw \<Longrightarrow> k < 4"
      using Cons.prems(1) True by (auto simp: Let_def split: if_splits)
    have "dotted ns = read_so_far os True ?v @ r \<and> length ns = 4 \<and> (\<forall>n \<in> set ns. n \<le> 255)"
      using run Cons.prems by (intro Cons.IH [of "if saw then k else Suc k"]) (cases saw; auto)+
    moreover have "read_so_far os True ?v = read_so_far os saw v @ [c]"
      using True run(3) Cons.prems(3) show_nat_extend [of v c] show_nat_digit [of c] by (auto simp: read_so_far_def)
    ultimately show ?thesis by simp
  next
    case False
    then have run: "pton_loop k False (os @ [v]) 0 r = Some ns" "c = CHR ''.''" saw "k \<noteq> 4"
      using Cons.prems(1) by (auto split: if_splits)
    have "dotted ns = read_so_far (os @ [v]) False 0 @ r \<and> length ns = 4 \<and> (\<forall>n \<in> set ns. n \<le> 255)"
      using run Cons.prems by (intro Cons.IH [of k]) auto
    then show ?thesis using run(2,3) by (simp add: read_so_far_def)
  qed
qed

lemma length_dotted_le:
  assumes "\<forall>n \<in> set ns. n < 1000"
  shows "length (dotted ns) \<le> 4 * length ns - 1"
  using assms
proof (induction ns rule: dotted.induct)
  case (2 n)
  then show ?case using show_nat_length_le [of n 3] by simp
next
  case (3 n m ns)
  then show ?case using show_nat_length_le [of n 3] by simp
qed simp

lemma octets_bounds: "length (octets a) = 4" "\<forall>n \<in> set (octets a). n \<le> 255"
proof -
  show "length (octets a) = 4" by (simp add: octets_def)
  have "unat b \<le> 255" for b :: byte using unat_byte_less [of b] by linarith
  then show "\<forall>n \<in> set (octets a). n \<le> 255" by (auto simp: octets_def)
qed

lemma address_of_octets: "word_of_nat (le_nat (map word_of_nat (octets a))) = a"
proof -
  have "map (word_of_nat :: nat \<Rightarrow> byte) (octets a) = le_bytes 4 (unat a)" by (simp add: octets_def o_def)
  moreover have "unat a mod 256 ^ 4 = unat a" using unsigned_less [where 'a = nat, of a] by simp
  ultimately show ?thesis by (simp add: le_nat_le_bytes)
qed

lemma octets_of_address:
  assumes "length ns = 4" and "\<forall>n \<in> set ns. n \<le> 255"
  shows "octets (word_of_nat (le_nat (map word_of_nat ns))) = ns"
proof -
  let ?bs = "map word_of_nat ns :: byte list"
  have "le_nat bs < 256 ^ length bs" for bs :: "byte list"
  proof (induction bs)
    case (Cons b bs)
    then have "256 * Suc (le_nat bs) \<le> 256 * 256 ^ length bs" by (intro mult_le_mono) simp_all
    then show ?case using unat_byte_less [of b] by (simp del: unat_byte_less)
  qed simp
  from this [of ?bs] have "unat (word_of_nat (le_nat ?bs) :: 32 word) = le_nat ?bs"
    using assms(1) by (simp add: unat_of_nat)
  moreover have "map unat ?bs = ns"
    using assms(2) by (auto simp: o_def unat_of_nat intro!: map_idI)
  ultimately show ?thesis using assms(1) by (simp add: octets_def le_bytes_le_nat)
qed


text \<open>\<open>IpToString\<close> never throws: the longest text has fifteen characters.\<close>

lemma IpToString_eq:
  "IpToString pf a = Inr (dotted (octets a) @ replicate (16 - length (dotted (octets a))) (CHR 0x00))"
proof -
  have "length (dotted (octets a)) \<le> 15"
    using length_dotted_le [of "octets a"] octets_bounds [of a] by fastforce
  then show ?thesis
    by (simp add: IpToString_def inet_ntop_def INET_ADDRSTRLEN_def overwrite_def Let_def flip: replicate_Suc)
qed

lemma show_nat_no_nul: "CHR 0x00 \<notin> set (show_nat n)"
proof (induction n rule: show_nat.induct)
  case (1 n)
  have "\<not> is_digit (CHR 0x00)" by (simp add: is_digit_def)
  then have "CHR 0x00 \<noteq> char_of (48 + d)" if "d < 10" for d :: nat using digit_char(1) [OF that] by metis
  from this [of n] this [of "n mod 10"] 1 show ?case by (subst show_nat.simps) simp
qed

lemma dotted_no_nul: "CHR 0x00 \<notin> set (dotted ns)"
  using show_nat_no_nul by (induction ns rule: dotted.induct) auto

lemma c_text_IpToString: "c_text (dotted ns @ replicate k (CHR 0x00)) = dotted ns"
  using dotted_no_nul [of ns] by (cases k) (auto simp: c_text_def takeWhile_append)

lemma IpFromString_iff:
  "IpFromString pf t = Inr a \<longleftrightarrow> c_text t = dotted (octets a)"
proof
  assume "IpFromString pf t = Inr a"
  then obtain ns where ns: "pton_loop 0 False [] 0 (c_text t) = Some ns" "a = word_of_nat (le_nat (map word_of_nat ns))"
    by (auto simp: IpFromString_def inet_pton_def split: option.splits)
  from pton_loop_accepts [OF ns(1)] have "dotted ns = c_text t" "length ns = 4" "\<forall>n \<in> set ns. n \<le> 255"
    by (auto simp: read_so_far_def)
  with ns(2) octets_of_address show "c_text t = dotted (octets a)" by metis
next
  assume "c_text t = dotted (octets a)"
  moreover have "pton_loop 0 False [] 0 (dotted (octets a)) = Some ([] @ octets a)"
    using octets_bounds [of a] by (intro pton_loop_dotted) auto
  ultimately show "IpFromString pf t = Inr a"
    by (simp add: IpFromString_def inet_pton_def address_of_octets)
qed

section \<open>Byte order\<close>

lemma htons_bytes: "le_bytes 2 (unat (htons p)) = rev (le_bytes 2 (unat p))"
proof -
  have "le_nat (rev (le_bytes 2 (unat p))) < 65536"
    using unat_byte_less [of "word_of_nat (unat p)"] unat_byte_less [of "word_of_nat (unat p div 256)"]
    unfolding numeral_2_eq_2 by (simp del: unat_byte_less)
  then have "unat (htons p) = le_nat (rev (le_bytes 2 (unat p)))" by (simp add: htons_def unat_of_nat)
  then show ?thesis by (simp add: le_bytes_le_nat)
qed

lemma htons_htons [simp]: "htons (htons p) = p"
  using unsigned_less [where 'a = nat, of p]
  by (simp add: htons_def [of "htons p"] htons_bytes le_nat_le_bytes)

section \<open>Properties\<close>



end
