(* ===== verification/Rpc_Client.thy ===== *)
theory Rpc_Client
  imports Session_Transcript Net_Address
begin

text \<open>
  The client side: \<open>HelloMessage\<close> of \<open>Server.hpp\<close>/\<open>Server.cpp\<close>, which tells a client the port of its
  handler, the sockets a client opens (\<open>ClientSocket\<close> of \<open>Src/Socket.cpp\<close>), and the class
  \<open>Client\<close> of \<open>Client.hpp\<close>/\<open>Client.cpp\<close> with its factory.
\<close>

section \<open>HelloMessage\<close>

text \<open>The object's two bytes, in the byte order of the machine (little endian).\<close>

definition hello_bytes :: "16 word \<Rightarrow> byte list" where
  "hello_bytes port = le_bytes 2 (unat port)"

function HelloSendLoop :: "platform \<Rightarrow> byte list \<Rightarrow> nat \<Rightarrow> (conn, unit) prog" where
  "HelloSendLoop pf buf tot c =
     (if tot < length buf then
        (case sys_send (drop tot buf) c of
           (Inl f, c) \<Rightarrow> (Inl f, c)
         | (Inr (Inl e), c) \<Rightarrow> (Inl (throw_errno pf ''Send'' ''Failed to send()'' e), c)
         | (Inr (Inr k), c) \<Rightarrow> if k = 0 then (Inl Assert, c) else HelloSendLoop pf buf (tot + k) c)
      else (Inr (), c))"
  by pat_completeness auto
termination
  by (relation "measure (\<lambda>(pf, buf, tot, c). length buf - tot)") auto

function HelloRecvLoop :: "platform \<Rightarrow> nat \<Rightarrow> byte list \<Rightarrow> (conn, byte list) prog" where
  "HelloRecvLoop pf sz acc c =
     (if length acc < sz then
        (case sys_recv (sz - length acc) c of
           (Inl f, c) \<Rightarrow> (Inl f, c)
         | (Inr (Inl e), c) \<Rightarrow> (Inl (throw_errno pf ''Recv'' ''Failed to recv()'' e), c)
         | (Inr (Inr bs), c) \<Rightarrow>
             if bs = [] then (Inl (throw_runtime ''Recv'' ''Server closed connection''), c)
             else HelloRecvLoop pf sz (acc @ bs) c)
      else (Inr acc, c))"
  by pat_completeness auto
termination
  by (relation "measure (\<lambda>(pf, sz, acc, c). sz - length acc)") (auto intro: loop_progress)

declare HelloSendLoop.simps [simp del] HelloRecvLoop.simps [simp del]

definition HelloMessage_Send :: "platform \<Rightarrow> 16 word \<Rightarrow> (conn, unit) prog" where
  "HelloMessage_Send pf port = HelloSendLoop pf (hello_bytes port) 0"

definition HelloMessage_Recv :: "platform \<Rightarrow> (conn, 16 word) prog" where
  "HelloMessage_Recv pf = bindM (HelloRecvLoop pf 2 []) (\<lambda>bs. ret (word_of_nat (le_nat bs)))"

section \<open>ClientSocket\<close>

text \<open>What the network does with successive attempts to connect.\<close>

datatype dial = NoSocket int | Unreachable int | Linked conn

record net =
  dials :: "dial list"
  dialled :: "(32 word \<times> 16 word) list"   \<comment> \<open>addresses, and ports in host byte order\<close>

definition ClientSocket_Connect :: "platform \<Rightarrow> ClientSocket \<Rightarrow> (net, conn) prog" where
  "ClientSocket_Connect pf sock n = (let peer = (cAddrIn sock, htons (cPortIn sock)) in case dials n of
      [] \<Rightarrow> (Inl Block, n\<lparr>dialled := dialled n @ [peer]\<rparr>)
    | NoSocket e # r \<Rightarrow>
        (Inl (throw_errno pf ''Connect'' ''Failed to create socket'' e), n\<lparr>dials := r\<rparr>)
    | Unreachable e # r \<Rightarrow>
        (Inl (throw_errno pf ''Connect'' ''Failed to connect'' e), n\<lparr>dials := r, dialled := dialled n @ [peer]\<rparr>)
    | Linked c # r \<Rightarrow> (Inr c, n\<lparr>dials := r, dialled := dialled n @ [peer]\<rparr>))"

section \<open>Client\<close>

definition Client_new :: "conn \<Rightarrow> byte list \<Rightarrow> rpc" where
  "Client_new c garbage = RPCProvider_new c garbage Error_ID"

text \<open>
  \<open>Factory::Connect\<close>: the first connection carries only the hello message; it is closed when the
  function is left.
\<close>

record Factory =
  fSocket :: ClientSocket
  fINAddr :: "32 word"

definition Factory_new :: "platform \<Rightarrow> 32 word \<Rightarrow> 16 word \<Rightarrow> Factory result" where
  "Factory_new pf addr port = bindE (ClientSocket_new pf addr port) (\<lambda>s. Inr \<lparr>fSocket = s, fINAddr = addr\<rparr>)"

definition Factory_Connect :: "platform \<Rightarrow> Factory \<Rightarrow> byte list \<Rightarrow> (net, rpc) prog" where
  "Factory_Connect pf fac garbage =
     bindM (ClientSocket_Connect pf (fSocket fac)) (\<lambda>c.
     bindM (liftE (fst (HelloMessage_Recv pf c))) (\<lambda>newPort.
     bindM (liftE (ClientSocket_new pf (fINAddr fac) newPort)) (\<lambda>newSocket.
     bindM (ClientSocket_Connect pf newSocket) (\<lambda>c2.
     ret (Client_new c2 garbage)))))"

definition ProcException_Message :: "platform \<Rightarrow> byte \<Rightarrow> string \<Rightarrow> string result" where
  "ProcException_Message pf procId err =
     bindE (ToStr pf procId) (\<lambda>name.
     Inr (''Remote procedure \"'' @ name @ ''\" returned error: '' @ err))"

text \<open>
  \<open>Call<Proc>\<close>: the arguments are the procedure's id, the packed size and the serializer of the
  request, and the deserializer of the response.
\<close>

definition Call ::
    "platform \<Rightarrow> byte \<Rightarrow> byte \<Rightarrow> (byte list \<Rightarrow> int \<Rightarrow> byte list result) \<Rightarrow>
     (byte list \<Rightarrow> cptr \<Rightarrow> 'r result) \<Rightarrow> (rpc, 'r) prog" where
  "Call pf procId msgSz serialize deserialize =
     thenM (PackMsg procId msgSz serialize)
    (thenM (SendPackage pf)
    (bindM (RecvPackage pf) (\<lambda>header.
     if \<not> hOk header then
       bindM (liftE (ProcException_Message pf procId (hMsg header))) (\<lambda>msg.
       raise (Exn (ProcException msg)))
     else bindM (getM Buffer) (\<lambda>mem. liftE (deserialize mem (hData header))))))"

definition SoftDisconnect :: "platform \<Rightarrow> (rpc, unit) prog" where
  "SoftDisconnect pf = thenM (PackError pf ''Disconnect'') (SendPackage pf)"

section \<open>The port announcement arrives\<close>

lemma HelloSendLoop_round:
  assumes "tot < length buf" and "tx c = TxAccept k # r" and "k \<noteq> 0"
  shows "HelloSendLoop pf buf tot c = HelloSendLoop pf buf (tot + min k (length buf - tot))
    (c\<lparr>tx := r, sent := sent c @ take (min k (length buf - tot)) (drop tot buf)\<rparr>)"
  using assms by (subst HelloSendLoop.simps) (simp add: sys_send_def min_def)

interpretation hello_send_loop: draining_loop "\<lambda>(tot, c). HelloSendLoop pf buf tot c"
  "\<lambda>(tot, c). tot \<le> length buf" "\<lambda>(tot, c). length buf - tot" "\<lambda>(tot, c). tx c"
  "\<lambda>n r (tot, c). (tot + n, c\<lparr>tx := r, sent := sent c @ take n (drop tot buf)\<rparr>)"
  for pf buf
  by unfold_locales (auto simp: HelloSendLoop_round take_add add.commute)

lemma HelloSendLoop_ok:
  assumes "tx_after (length buf - tot) (tx c) = Some t" and "tot \<le> length buf"
  shows "HelloSendLoop pf buf tot c = (Inr (), c\<lparr>tx := t, sent := sent c @ drop tot buf\<rparr>)"
  using hello_send_loop.loop_drains [of buf "(tot, c)" t pf] assms by (simp add: HelloSendLoop.simps)

lemma HelloRecvLoop_round:
  assumes "length acc < sz" and "script_read (sz - length acc) (rx c) = (Inr (Inr bs), r)" and "bs \<noteq> []"
  shows "HelloRecvLoop pf sz acc c = HelloRecvLoop pf sz (acc @ bs) (c\<lparr>rx := r\<rparr>)"
  using assms by (subst HelloRecvLoop.simps) (simp add: sys_recv_def zoom_def)

interpretation hello_recv_loop: filling_loop "\<lambda>(acc, c). HelloRecvLoop pf sz acc c"
  "\<lambda>(acc, c). length acc \<le> sz" "\<lambda>(acc, c). sz - length acc" "\<lambda>(acc, c). rx c"
  "\<lambda>bs r (acc, c). (acc @ bs, c\<lparr>rx := r\<rparr>)"
  for pf sz
  by unfold_locales (auto simp: HelloRecvLoop_round)

lemma HelloRecvLoop_ok:
  assumes "length acc \<le> sz" and "sz - length acc \<le> length (rx_bytes (rx c))"
  shows "HelloRecvLoop pf sz acc c =
    (Inr (acc @ take (sz - length acc) (rx_bytes (rx c))), c\<lparr>rx := rx_drop (sz - length acc) (rx c)\<rparr>)"
  using hello_recv_loop.loop_fills [of sz "(acc, c)" pf] assms by (simp add: HelloRecvLoop.simps)

lemma le_nat_hello: "word_of_nat (le_nat (hello_bytes port)) = port"
  using unsigned_less [where 'a = nat, of port] by (simp add: hello_bytes_def le_nat_le_bytes)

lemma length_hello_bytes [simp]: "length (hello_bytes port) = 2"
  by (simp add: hello_bytes_def)

lemma hello_send:
  assumes "tx_after 2 (tx a) = Some t"
  shows "HelloMessage_Send pf port a = (Inr (), a\<lparr>tx := t, sent := sent a @ hello_bytes port\<rparr>)"
  using HelloSendLoop_ok [of "hello_bytes port" 0 a t pf] assms by (simp add: HelloMessage_Send_def)

lemma hello_recv:
  assumes "rx_bytes (rx b) = hello_bytes port @ rest"
  shows "\<exists>b'. HelloMessage_Recv pf b = (Inr port, b') \<and> rx_bytes (rx b') = rest"
proof -
  have "HelloRecvLoop pf 2 [] b = (Inr (hello_bytes port), b\<lparr>rx := rx_drop 2 (rx b)\<rparr>)"
    using HelloRecvLoop_ok [of "[]" 2 b pf] assms by simp
  then show ?thesis
    using rx_bytes_drop [of 2 "rx b"] assms le_nat_hello by (simp add: HelloMessage_Recv_def bindM_def)
qed

text \<open>The constructors of the sockets do not throw, and a connected client has dialled both ports.\<close>

lemma ClientSocket_new_eq:
  "\<exists>name. ClientSocket_new pf addr port = Inr \<lparr>cServerAddr = name, cAddrIn = addr, cPortIn = htons port\<rparr>"
  by (simp add: ClientSocket_new_def bindE_def IpToString_eq)

definition factory_for :: "platform \<Rightarrow> 32 word \<Rightarrow> 16 word \<Rightarrow> Factory" where
  "factory_for pf addr port = \<lparr>fSocket = projr (ClientSocket_new pf addr port), fINAddr = addr\<rparr>"

lemma factory_for_sel [simp]:
  "cAddrIn (fSocket (factory_for pf addr port)) = addr" "cPortIn (fSocket (factory_for pf addr port)) = htons port"
  "fINAddr (factory_for pf addr port) = addr"
  using ClientSocket_new_eq [of pf addr port] by (auto simp: factory_for_def)

lemma Factory_new_eq: "Factory_new pf addr port = Inr (factory_for pf addr port)"
  using ClientSocket_new_eq [of pf addr port] by (auto simp: Factory_new_def factory_for_def bindE_def)

lemma Factory_Connect_ok:
  assumes "dials n = Linked c # Linked d # r" and "rx_bytes (rx c) = hello_bytes newPort @ rest"
  shows "Factory_Connect pf fac garbage n = (Inr (Client_new d garbage), n\<lparr>dials := r,
     dialled := dialled n @ [(cAddrIn (fSocket fac), htons (cPortIn (fSocket fac))), (fINAddr fac, newPort)]\<rparr>)"
proof -
  obtain b where "HelloMessage_Recv pf c = (Inr newPort, b)" using hello_recv [OF assms(2)] by blast
  moreover obtain name where "ClientSocket_new pf (fINAddr fac) newPort =
      Inr \<lparr>cServerAddr = name, cAddrIn = fINAddr fac, cPortIn = htons newPort\<rparr>"
    using ClientSocket_new_eq by blast
  ultimately show ?thesis
    using assms(1) by (simp add: Factory_Connect_def bindM_def ClientSocket_Connect_def Let_def)
qed

section \<open>A call against the bytes of the answer\<close>

text \<open>A procedure: the message types of its request and of its response.\<close>

locale rpc_call =
  req: message_codec packed serialize deserialize enc msg_of view +
  resp: message_codec rpacked rserialize rdeserialize renc rmsg_of rview
  for packed :: "'m \<Rightarrow> byte"
    and serialize :: "platform \<Rightarrow> byte list \<Rightarrow> int \<Rightarrow> 'm \<Rightarrow> byte list result"
    and deserialize :: "platform \<Rightarrow> byte list \<Rightarrow> cptr \<Rightarrow> 'm result"
    and enc :: "'v \<Rightarrow> byte list"
    and msg_of :: "'v \<Rightarrow> 'm"
    and view :: "platform \<Rightarrow> byte list \<Rightarrow> 'm \<Rightarrow> 'v result"
    and rpacked :: "'r \<Rightarrow> byte"
    and rserialize :: "platform \<Rightarrow> byte list \<Rightarrow> int \<Rightarrow> 'r \<Rightarrow> byte list result"
    and rdeserialize :: "platform \<Rightarrow> byte list \<Rightarrow> cptr \<Rightarrow> 'r result"
    and renc :: "'w \<Rightarrow> byte list"
    and rmsg_of :: "'w \<Rightarrow> 'r"
    and rview :: "platform \<Rightarrow> byte list \<Rightarrow> 'r \<Rightarrow> 'w result"
begin

text \<open>The request goes out and the package of the answer is taken.\<close>

lemma call_exchange:
  assumes "rpc_wf r" and "fits pf (enc v)"
    and "tx_after (length (enc v) + 2) (tx (Conn r)) = Some t"
    and "rx_bytes (rx (Conn r)) = package j p @ rest" and "length p \<le> 255"
  shows "\<exists>r'. thenM (PackMsg i (packed (msg_of v)) (\<lambda>b q. serialize pf b q (msg_of v)))
      (thenM (SendPackage pf) (RecvPackage pf)) r = (Inr (header_of pf (ErrCode r) j p), r') \<and>
    rpc_wf r' \<and> ErrCode r' = ErrCode r \<and> holds_at (Buffer r') 0 p \<and>
    rx_bytes (rx (Conn r')) = rest \<and> tx (Conn r') = t \<and>
    sent (Conn r') = sent (Conn r) @ package i (enc v)"
proof -
  let ?r1 = "r\<lparr>Buffer := overwrite (Buffer r) 0 (package i (enc v))\<rparr>"
  let ?r2 = "?r1\<lparr>Conn := (Conn r)\<lparr>tx := t, sent := sent (Conn r) @ package i (enc v)\<rparr>\<rparr>"
  have buf: "length (Buffer r) = 256" using assms(1) by (simp add: rpc_wf_def BufSize_def)
  have 1: "PackMsg i (packed (msg_of v)) (\<lambda>b q. serialize pf b q (msg_of v)) r = (Inr (), ?r1)"
    using req.PackMsg_enc [OF assms(1), of v pf i] assms(2) by (simp add: fits_def)
  have "holds_at (Buffer ?r1) 0 (package i (enc v))"
    using assms(2) buf by (simp add: fits_def)
  then have 2: "SendPackage pf ?r1 = (Inr (), ?r2)"
    using SendPackage_ok [of ?r1 i "enc v" pf t] assms(2,3) by (simp add: fits_def)
  have wf: "rpc_wf ?r2" using buf assms(2) by (simp add: rpc_wf_def BufSize_def fits_def)
  obtain r' where 3: "RecvPackage pf ?r2 = (Inr (header_of pf (ErrCode r) j p), r')" "rpc_wf r'"
    "ErrCode r' = ErrCode r" "holds_at (Buffer r') 0 p"
    "Conn r' = (Conn ?r2)\<lparr>rx := rx_drop (length p + 2) (rx (Conn r))\<rparr>"
    using RecvPackage_ok [OF wf _ assms(5), of j rest pf] assms(4) by auto
  have "rx_bytes (rx_drop (length p + 2) (rx (Conn r))) = rest"
    using rx_bytes_drop [of "length p + 2" "rx (Conn r)"] assms(4) by simp
  with 1 2 3 show ?thesis by (simp add: thenM_Inr)
qed

lemma Call_exchange:
  assumes "thenM (PackMsg i sz ser) (thenM (SendPackage pf) (RecvPackage pf)) r = (Inr hdr, r')"
  shows "Call pf i sz ser des r = (if \<not> hOk hdr then
       bindM (liftE (ProcException_Message pf i (hMsg hdr))) (\<lambda>msg. raise (Exn (ProcException msg))) r'
     else (des (Buffer r') (hData hdr), r'))"
  using assms by (auto simp: Call_def thenM_def bindM_def split: prod.splits sum.splits)

lemma call_ok:
  assumes "rpc_wf r" and "fits pf (enc v)" and "fits pf (renc w)"
    and "tx_after (length (enc v) + 2) (tx (Conn r)) = Some t"
    and "rx_bytes (rx (Conn r)) = package (ID c) (renc w) @ rest" and "ErrCode r = Error_ID"
  shows "\<exists>m r'. Call pf i (packed (msg_of v)) (\<lambda>b q. serialize pf b q (msg_of v)) (rdeserialize pf) r = (Inr m, r') \<and>
    rview pf (Buffer r') m = Inr w \<and> rpc_wf r' \<and> ErrCode r' = Error_ID \<and>
    rx_bytes (rx (Conn r')) = rest \<and> tx (Conn r') = t \<and>
    sent (Conn r') = sent (Conn r) @ package i (enc v)"
proof -
  let ?hdr = "header_of pf Error_ID (ID c) (renc w)"
  have ok: "hOk ?hdr" by (cases c) (simp_all add: header_of_def Error_ID_def char_val_def)
  obtain r' where r': "thenM (PackMsg i (packed (msg_of v)) (\<lambda>b q. serialize pf b q (msg_of v)))
      (thenM (SendPackage pf) (RecvPackage pf)) r = (Inr ?hdr, r')" "rpc_wf r'" "ErrCode r' = Error_ID"
    "holds_at (Buffer r') 0 (renc w)" "rx_bytes (rx (Conn r')) = rest" "tx (Conn r') = t"
    "sent (Conn r') = sent (Conn r) @ package i (enc v)"
    using call_exchange [OF assms(1,2,4,5)] assms(3,6) by (auto simp: fits_def)
  obtain m where "rdeserialize pf (Buffer r') (Buf 0) = Inr m" "rview pf (Buffer r') m = Inr w"
    using resp.deserialize_enc [of w pf "Buffer r'" 0] assms(3) r'(4) by (auto simp: fits_def)
  with Call_exchange [OF r'(1), of "rdeserialize pf"] ok r' show ?thesis by auto
qed

lemma call_error:
  assumes "rpc_wf r" and "fits pf (enc v)" and "length msg \<le> 255"
    and "tx_after (length (enc v) + 2) (tx (Conn r)) = Some t"
    and "rx_bytes (rx (Conn r)) = package Error_ID (to_bytes msg) @ rest" and "ErrCode r = Error_ID"
  shows "\<exists>r'. Call pf i (packed (msg_of v)) (\<lambda>b q. serialize pf b q (msg_of v)) (rdeserialize pf) r =
      (case ProcException_Message pf i msg of
         Inl f \<Rightarrow> Inl f | Inr txt \<Rightarrow> Inl (Exn (ProcException txt)), r') \<and>
    rpc_wf r' \<and> ErrCode r' = Error_ID \<and> rx_bytes (rx (Conn r')) = rest \<and> tx (Conn r') = t \<and>
    sent (Conn r') = sent (Conn r) @ package i (enc v)"
proof -
  let ?hdr = "header_of pf Error_ID Error_ID (to_bytes msg)"
  have bad: "\<not> hOk ?hdr" "hMsg ?hdr = msg" by (simp_all add: header_of_def Error_ID_def char_val_def)
  obtain r' where r': "thenM (PackMsg i (packed (msg_of v)) (\<lambda>b q. serialize pf b q (msg_of v)))
      (thenM (SendPackage pf) (RecvPackage pf)) r = (Inr ?hdr, r')" "rpc_wf r'" "ErrCode r' = Error_ID"
    "rx_bytes (rx (Conn r')) = rest" "tx (Conn r') = t"
    "sent (Conn r') = sent (Conn r) @ package i (enc v)"
    using call_exchange [OF assms(1,2,4,5)] assms(3,6) by auto
  with Call_exchange [OF r'(1), of "rdeserialize pf"] bad show ?thesis
    by (auto simp: bindM_def split: sum.splits)
qed

end

text \<open>The procedures by their message types.\<close>

interpretation empty_call: rpc_call Empty_GetPackedSize Empty_Serialize Empty_Deserialize
  enc_empty "\<lambda>v. v" "\<lambda>pf buf m. Inr m" Empty_GetPackedSize Empty_Serialize Empty_Deserialize
  enc_empty "\<lambda>v. v" "\<lambda>pf buf m. Inr m" ..

interpretation flash_call: rpc_call String_GetPackedSize String_Serialize String_Deserialize
  enc_string msg_of_string ToCxxStr Empty_GetPackedSize Empty_Serialize Empty_Deserialize
  enc_empty "\<lambda>v. v" "\<lambda>pf buf m. Inr m" ..

interpretation connect_call: rpc_call UserData_GetPackedSize UserData_Serialize UserData_Deserialize
  enc_user msg_of_user view_user String_GetPackedSize String_Serialize String_Deserialize
  enc_string msg_of_string ToCxxStr ..

interpretation status_call: rpc_call Empty_GetPackedSize Empty_Serialize Empty_Deserialize
  enc_empty "\<lambda>v. v" "\<lambda>pf buf m. Inr m" ChipStatus_GetPackedSize ChipStatus_Serialize ChipStatus_Deserialize
  enc_status msg_of_status view_status ..

text \<open>\<open>Call\<close> with the template argument filled in.\<close>

definition Call_Empty :: "platform \<Rightarrow> procedure \<Rightarrow> (rpc, unit) prog" where
  "Call_Empty pf p = Call pf (ID p) (Empty_GetPackedSize ()) (\<lambda>b q. Empty_Serialize pf b q ()) (Empty_Deserialize pf)"

definition Call_Flash :: "platform \<Rightarrow> string \<Rightarrow> (rpc, unit) prog" where
  "Call_Flash pf path = Call pf (ID Flash) (String_GetPackedSize (msg_of_string path))
     (\<lambda>b q. String_Serialize pf b q (msg_of_string path)) (Empty_Deserialize pf)"

definition Call_Connect :: "platform \<Rightarrow> user \<Rightarrow> (rpc, msg_string) prog" where
  "Call_Connect pf u = Call pf (ID Connect) (UserData_GetPackedSize (msg_of_user u))
     (\<lambda>b q. UserData_Serialize pf b q (msg_of_user u)) (String_Deserialize pf)"

definition Call_GetStatus :: "platform \<Rightarrow> (rpc, msg_status) prog" where
  "Call_GetStatus pf = Call pf (ID GetStatus) (Empty_GetPackedSize ()) (\<lambda>b q. Empty_Serialize pf b q ())
     (ChipStatus_Deserialize pf)"

section \<open>Properties\<close>

text \<open>
  The hello message carries a port from the server to a client: whatever pieces \<open>send\<close> accepts
  and \<open>recv\<close> delivers, the client receives the port the server sent and leaves the rest of the
  stream alone.
\<close>

lemma hello_round_trip:
  assumes "tx_after 2 (tx a) = Some t" and "rx_bytes (rx b) = hello_bytes port @ rest"
  shows "HelloMessage_Send pf port a = (Inr (), a\<lparr>tx := t, sent := sent a @ hello_bytes port\<rparr>) \<and>
    (\<exists>b'. HelloMessage_Recv pf' b = (Inr port, b') \<and> rx_bytes (rx b') = rest)"
  using hello_send [OF assms(1)] hello_recv [OF assms(2)] by blast



end
