(* ===== verification/Daemon_Tools.thy ===== *)
theory Daemon_Tools
  imports Rpc_Client
begin

text \<open>
  Starting the daemon and connecting to it: \<open>Inc/roki-mb-daemon/DaemonTools.hpp\<close> and
  \<open>Src/DaemonTools.cpp\<close>.  The parent and the child of \<open>LaunchAt\<close> talk over a pipe: one byte \<open>ACK\<close>,
  or another byte, a size and an error text.  The parameters come from environment variables whose
  names are fixed by the build (arguments here).
\<close>

section \<open>The pipe\<close>

record pipe_end =
  pBuf :: "byte list"        \<comment> \<open>\<open>Buffer\<close>, 259 bytes\<close>
  pRead :: "rx_event list"   \<comment> \<open>what successive \<open>read\<close> calls find\<close>
  pWrite :: "tx_event list"  \<comment> \<open>what successive \<open>write\<close> calls accept\<close>
  written :: "byte list"

definition BufferSize :: nat where "BufferSize = 256"
definition BufferExtraSize :: nat where "BufferExtraSize = 3"

definition ACK :: byte where
  "ACK = byte_of_char (CHR ''y'')"

definition pipe_wf :: "pipe_end \<Rightarrow> bool" where
  "pipe_wf s \<longleftrightarrow> length (pBuf s) = BufferSize + BufferExtraSize"

text \<open>
  The loops.  A call that returns 0 does not end them: at the end of the stream \<open>ReadToBuf\<close> goes on
  reading.
\<close>

function ReadLoop :: "platform \<Rightarrow> nat \<Rightarrow> nat \<Rightarrow> (pipe_end, unit) prog" where
  "ReadLoop pf sz tot s =
     (if tot < sz then
        (case script_read (sz - tot) (pRead s) of
           (Inl f, r) \<Rightarrow> (Inl f, s\<lparr>pRead := r\<rparr>)
         | (Inr (Inl e), r) \<Rightarrow> (Inl (throw_errno pf ''ReadToBuf'' ''read()'' e), s\<lparr>pRead := r\<rparr>)
         | (Inr (Inr bs), r) \<Rightarrow> (case store (pBuf s) (int tot) bs of
               Inl f \<Rightarrow> (Inl f, s\<lparr>pRead := r\<rparr>)
             | Inr b \<Rightarrow> ReadLoop pf sz (tot + length bs) (s\<lparr>pRead := r, pBuf := b\<rparr>)))
      else (Inr (), s))"
  by pat_completeness auto
termination
  by (relation "measure (\<lambda>(pf, sz, tot, s). rx_size (pRead s))")
    (auto dest!: sym [of "(_, _)"] dest: script_read_size)

function WriteLoop :: "platform \<Rightarrow> nat \<Rightarrow> nat \<Rightarrow> (pipe_end, unit) prog" where
  "WriteLoop pf sz tot s =
     (if tot < sz then
        (case load (pBuf s) (Buf (int tot)) (sz - tot) of
           Inl f \<Rightarrow> (Inl f, s)
         | Inr bs \<Rightarrow> (case script_write bs (pWrite s) of
             (Inl f, r) \<Rightarrow> (Inl f, s\<lparr>pWrite := r\<rparr>)
           | (Inr (Inl e), r) \<Rightarrow> (Inl (throw_errno pf ''WriteFromBuf'' ''write()'' e), s\<lparr>pWrite := r\<rparr>)
           | (Inr (Inr k), r) \<Rightarrow>
               WriteLoop pf sz (tot + k) (s\<lparr>pWrite := r, written := written s @ take k bs\<rparr>)))
      else (Inr (), s))"
  by pat_completeness auto

termination WriteLoop
  by (relation "measure (\<lambda>(pf, sz, tot, s). length (pWrite s))")
    (auto dest!: sym [of "(_, _)"] dest: script_write_shorter)

declare ReadLoop.simps [simp del] WriteLoop.simps [simp del]

definition ReadToBuf :: "platform \<Rightarrow> nat \<Rightarrow> (pipe_end, unit) prog" where
  "ReadToBuf pf sz = ReadLoop pf sz 0"

definition WriteFromBuf :: "platform \<Rightarrow> nat \<Rightarrow> (pipe_end, unit) prog" where
  "WriteFromBuf pf sz = WriteLoop pf sz 0"

definition put_buf :: "int \<Rightarrow> byte list \<Rightarrow> (pipe_end, unit) prog" where
  "put_buf i bs s = (case store (pBuf s) i bs of
      Inl f \<Rightarrow> (Inl f, s) | Inr b \<Rightarrow> (Inr (), s\<lparr>pBuf := b\<rparr>))"

definition PutError :: "platform \<Rightarrow> string \<Rightarrow> (pipe_end, unit) prog" where
  "PutError pf msg =
     thenM (put_buf 0 [not ACK])
    (thenM (put_buf 1 [char_of_size (if length msg < BufferSize then length msg else BufferSize)])
    (thenM (put_buf 2 (to_bytes msg))
    (WriteFromBuf pf (length msg + 2))))"

definition PutAck :: "platform \<Rightarrow> (pipe_end, unit) prog" where
  "PutAck pf = thenM (put_buf 0 [ACK]) (WriteFromBuf pf 1)"

record LaunchResult =
  lOk :: bool
  lMsg :: string

text \<open>\<open>result.Msg = Buffer.data()\<close>: the characters before the first NUL.\<close>

definition c_string_at :: "byte list \<Rightarrow> string" where
  "c_string_at buf = of_bytes (takeWhile (\<lambda>b. b \<noteq> 0) buf)"

definition ReadResult :: "platform \<Rightarrow> (pipe_end, LaunchResult) prog" where
  "ReadResult pf =
     thenM (ReadToBuf pf 1)
    (bindM (getM (\<lambda>s. pBuf s ! 0)) (\<lambda>b.
     if b \<noteq> ACK then
       thenM (ReadToBuf pf 1)
      (bindM (getM (\<lambda>s. unat (pBuf s ! 0))) (\<lambda>msgSz.
       thenM (ReadToBuf pf msgSz)
      (thenM (put_buf (int msgSz) [0])
      (bindM (getM (\<lambda>s. c_string_at (pBuf s))) (\<lambda>msg.
       ret \<lparr>lOk = False, lMsg = msg\<rparr>)))))
     else ret \<lparr>lOk = True, lMsg = []\<rparr>))"

section \<open>Launching\<close>

text \<open>What the child meets before it serves: the log file, \<open>daemon()\<close>, the server's constructor.\<close>

record startup =
  logfile :: "int option"     \<comment> \<open>the \<open>errno\<close> of a log file that cannot be opened\<close>
  daemonize :: "int option"   \<comment> \<open>the \<open>errno\<close> of a \<open>daemon()\<close> that fails\<close>
  construct :: "exn option"   \<comment> \<open>the exception of the constructor of \<open>Server\<close>\<close>

text \<open>The child's half of \<open>LaunchAt\<close> up to \<open>server->Run()\<close>; the value says whether it gets there.\<close>

definition LaunchAt_child :: "platform \<Rightarrow> startup \<Rightarrow> (pipe_end, bool) prog" where
  "LaunchAt_child pf st = (case logfile st of
      Some e \<Rightarrow> thenM (PutError pf (''std::ofstream: '' @ strerror pf e)) (ret False)
    | None \<Rightarrow> (case daemonize st of
        Some e \<Rightarrow> thenM (PutError pf (''daemon()'' @ strerror pf e)) (ret False)
      | None \<Rightarrow> (case construct st of
          Some e \<Rightarrow> thenM (PutError pf (''Failed to create server: '' @ what e)) (ret False)
        | None \<Rightarrow> thenM (PutAck pf) (ret True))))"

section \<open>Parameters\<close>

record params =
  Port :: "16 word"
  Backlog :: nat
  LogPath :: string
  ConnAttemptCount :: nat
  ConnAttemptPeriod :: nat

record env_names =
  port_env :: string
  backlog_env :: string
  logfile_env :: string
  count_env :: string
  period_env :: string

definition is_space :: "char \<Rightarrow> bool" where
  "is_space c \<longleftrightarrow> c \<in> {CHR '' '', CHR 0x09, CHR 0x0A, CHR 0x0B, CHR 0x0C, CHR 0x0D}"

definition digits_value :: "string \<Rightarrow> nat" where
  "digits_value ds = foldl (\<lambda>v c. 10 * v + (of_char c - 48)) 0 ds"

text \<open>
  \<open>std::stoul\<close> in base ten on a 64-bit \<open>unsigned long\<close>: white space, a sign, digits, and anything.
\<close>

definition stoul :: "string \<Rightarrow> nat result" where
  "stoul s = (let t = dropWhile is_space s;
      neg = (t \<noteq> [] \<and> hd t = CHR ''-'');
      u = (if t \<noteq> [] \<and> (hd t = CHR ''-'' \<or> hd t = CHR ''+'') then tl t else t);
      ds = takeWhile is_digit u; v = digits_value ds in
    if ds = [] then Inl (Exn (InvalidArgument ''stoul''))
    else if 2 ^ 64 \<le> v then Inl (Exn (OutOfRange ''stoul''))
    else Inr (if neg then (2 ^ 64 - v) mod 2 ^ 64 else v))"

definition GetEnv :: "(string \<Rightarrow> string option) \<Rightarrow> string \<Rightarrow> string result" where
  "GetEnv environ name = (case environ name of
      None \<Rightarrow> Inl (throw_runtime ''GetEnv'' (''Environment variable '' @ name @ '' is not defined''))
    | Some v \<Rightarrow> Inr v)"

definition GetParams :: "env_names \<Rightarrow> (string \<Rightarrow> string option) \<Rightarrow> params result" where
  "GetParams en environ =
     bindE (bindE (GetEnv environ (port_env en)) stoul) (\<lambda>port.
     bindE (bindE (GetEnv environ (backlog_env en)) stoul) (\<lambda>backlog.
     bindE (GetEnv environ (logfile_env en)) (\<lambda>log.
     bindE (bindE (GetEnv environ (count_env en)) stoul) (\<lambda>count.
     bindE (bindE (GetEnv environ (period_env en)) stoul) (\<lambda>period.
     Inr \<lparr>Port = word_of_nat port, Backlog = backlog, LogPath = log, ConnAttemptCount = count,
          ConnAttemptPeriod = period\<rparr>)))))"

section \<open>Sockets of the server\<close>

text \<open>The results of the three system calls of \<open>ServerSocket::ServerSocket\<close>: \<open>Some e\<close> is a failure.\<close>

record bind_result =
  socket_err :: "int option"
  bind_err :: "int option"
  listen_err :: "int option"

definition ServerSocket_new :: "platform \<Rightarrow> bind_result \<Rightarrow> unit result" where
  "ServerSocket_new pf r = (case socket_err r of
      Some e \<Rightarrow> Inl (throw_errno pf ''ServerSocket'' ''Failed to open socket'' e)
    | None \<Rightarrow> (case bind_err r of
        Some e \<Rightarrow> Inl (throw_errno pf ''ServerSocket'' ''Failed to bind socket'' e)
      | None \<Rightarrow> (case listen_err r of
          Some e \<Rightarrow> Inl (throw_errno pf ''ServerSocket'' ''listen() failed'' e)
        | None \<Rightarrow> Inr ())))"

text \<open>The constructor of \<open>Server\<close>: the socket, then \<open>DisableLingering\<close>, whose \<open>setsockopt\<close> may fail.\<close>

definition DisableLingering :: "platform \<Rightarrow> int option \<Rightarrow> unit result" where
  "DisableLingering pf err = (case err of
      None \<Rightarrow> Inr ()
    | Some e \<Rightarrow> Inl (throw_errno pf ''DisableLingering'' ''Failed to disable lingering via setsockopt()'' e))"

definition Server_new :: "platform \<Rightarrow> bind_result \<Rightarrow> int option \<Rightarrow> unit result" where
  "Server_new pf r linger = bindE (ServerSocket_new pf r) (\<lambda>_. DisableLingering pf linger)"

definition EADDRINUSE :: int where "EADDRINUSE = 98"

text \<open>
  \<open>IsRunning\<close> probes the daemon's port; \<open>catch (ErrnoException&)\<close> rethrows any other error.
\<close>

definition IsRunning :: "platform \<Rightarrow> params result \<Rightarrow> bind_result \<Rightarrow> bool result" where
  "IsRunning pf ps r = bindE ps (\<lambda>_. case ServerSocket_new pf r of
      Inl (Exn e) \<Rightarrow> if GetErrno e = Some EADDRINUSE then Inr True else Inl (Exn e)
    | Inl f \<Rightarrow> Inl f
    | Inr u \<Rightarrow> Inr False)"

text \<open>\<open>MakeHandler\<close>: \<open>mock\<close> says whether \<open>USE_HANDLER_MOCK\<close> is defined in the build.\<close>

definition MakeHandler :: "bool \<Rightarrow> platform \<Rightarrow> handler IHandler" where
  "MakeHandler mock pf = (if mock then HandlerMock else HandlerImpl pf)"

text \<open>
  The mock answers requests without content; for \<open>GetStatus\<close> the server reads through the null
  pointer it returns.
\<close>

lemma MakeHandler_mock:
  assumes "hData hdr = Buf 0"
  shows "hProcId hdr = ID GetStatus \<Longrightarrow> fst (DispatchPackage pf (MakeHandler True pf) hdr s) = Inl Undefined"
    and "p \<in> {Start, Reset, Disconnect} \<Longrightarrow> hProcId hdr = ID p \<Longrightarrow>
      DispatchPackage pf (MakeHandler True pf) hdr s = pack_empty pf (ID p) None s"
  using assms
  by (auto simp: MakeHandler_def DispatchPackage_def HandlerMock_def thenM_def bindM_def get_request_def
      Empty_Deserialize_def empty_handler_def on_handler_def zoom_def pack_status_def)

section \<open>Connecting\<close>

function ConnectLoop :: "platform \<Rightarrow> Factory \<Rightarrow> nat \<Rightarrow> byte list \<Rightarrow> nat \<Rightarrow> (net, rpc) prog" where
  "ConnectLoop pf fac count garbage i n = (case Factory_Connect pf fac garbage n of
      (Inl (Exn e), n1) \<Rightarrow>
        if i \<ge> count then (Inl (Exn e), n1) else ConnectLoop pf fac count garbage (Suc i) n1
    | r \<Rightarrow> r)"
  by pat_completeness auto
termination
  by (relation "measure (\<lambda>(pf, fac, count, garbage, i, n). count - i)") auto

declare ConnectLoop.simps [simp del]

text \<open>The part of \<open>Connect\<close> after the probe.\<close>

definition connect_daemon :: "platform \<Rightarrow> params \<Rightarrow> byte list \<Rightarrow> (net, rpc) prog" where
  "connect_daemon pf p garbage =
     bindM (liftE (Factory_new pf INADDR_ANY (Port p))) (\<lambda>fac.
     ConnectLoop pf fac (ConnAttemptCount p) garbage 0)"

definition DaemonTools_Connect ::
    "platform \<Rightarrow> params result \<Rightarrow> bind_result \<Rightarrow> byte list \<Rightarrow> (net, rpc) prog" where
  "DaemonTools_Connect pf ps r garbage =
     bindM (liftE (IsRunning pf ps r)) (\<lambda>running.
     if \<not> running then raise (throw_runtime ''Connect'' ''Daemon is not running'')
     else bindM (liftE ps) (\<lambda>p. connect_daemon pf p garbage))"

section \<open>The loops move what they are asked to\<close>

lemma ReadLoop_round:
  assumes "tot < sz" and "sz \<le> length (pBuf s)"
    and "script_read (sz - tot) (pRead s) = (Inr (Inr bs), r)"
  shows "ReadLoop pf sz tot s = ReadLoop pf sz (tot + length bs)
    (s\<lparr>pRead := r, pBuf := overwrite (pBuf s) tot bs\<rparr>)"
proof -
  have "tot + length bs \<le> length (pBuf s)" using assms(1,2) script_read_data [OF assms(3)] by auto
  with assms show ?thesis by (subst ReadLoop.simps) simp
qed

interpretation read_loop: filling_loop "\<lambda>(tot, s). ReadLoop pf sz tot s"
  "\<lambda>(tot, s). tot \<le> sz \<and> sz \<le> length (pBuf s)" "\<lambda>(tot, s). sz - tot" "\<lambda>(tot, s). pRead s"
  "\<lambda>bs r (tot, s). (tot + length bs, s\<lparr>pRead := r, pBuf := overwrite (pBuf s) tot bs\<rparr>)"
  for pf sz
  by unfold_locales (auto simp: ReadLoop_round overwrite_overwrite_adjacent)

lemma ReadLoop_ok:
  assumes "tot \<le> sz" and "sz \<le> length (pBuf s)" and "sz - tot \<le> length (rx_bytes (pRead s))"
  shows "ReadLoop pf sz tot s = (Inr (), s\<lparr>pRead := rx_drop (sz - tot) (pRead s),
     pBuf := overwrite (pBuf s) tot (take (sz - tot) (rx_bytes (pRead s)))\<rparr>)"
  using read_loop.loop_fills [of sz "(tot, s)" pf] assms by (simp add: ReadLoop.simps min_def)

lemma WriteLoop_round:
  assumes "tot < sz" and "sz \<le> length (pBuf s)" and "pWrite s = TxAccept k # r"
  shows "WriteLoop pf sz tot s = WriteLoop pf sz (tot + min k (sz - tot))
    (s\<lparr>pWrite := r, written := written s @ take (min k (sz - tot)) (drop tot (pBuf s))\<rparr>)"
proof -
  have "min (length (pBuf s) - tot) (sz - tot) = sz - tot" using assms(2) by simp
  with assms show ?thesis by (subst WriteLoop.simps) simp
qed

interpretation write_loop: draining_loop "\<lambda>(tot, s). WriteLoop pf sz tot s"
  "\<lambda>(tot, s). tot \<le> sz \<and> sz \<le> length (pBuf s)" "\<lambda>(tot, s). sz - tot" "\<lambda>(tot, s). pWrite s"
  "\<lambda>n r (tot, s). (tot + n, s\<lparr>pWrite := r, written := written s @ take n (drop tot (pBuf s))\<rparr>)"
  for pf sz
  by unfold_locales (auto simp: WriteLoop_round take_add add.commute)

lemma WriteLoop_ok:
  assumes "tot \<le> sz" and "sz \<le> length (pBuf s)" and "tx_after (sz - tot) (pWrite s) = Some t"
  shows "WriteLoop pf sz tot s = (Inr (), s\<lparr>pWrite := t,
     written := written s @ take (sz - tot) (drop tot (pBuf s))\<rparr>)"
  using write_loop.loop_drains [of sz "(tot, s)" t pf] assms by (simp add: WriteLoop.simps)

section \<open>The launch report arrives\<close>

text \<open>What a child writes.\<close>

definition error_report :: "string \<Rightarrow> byte list" where
  "error_report msg =
     not ACK # char_of_size (if length msg < BufferSize then length msg else BufferSize) # to_bytes msg"

lemma put_buf_ok:
  "i + length bs \<le> length (pBuf s) \<Longrightarrow> put_buf (int i) bs s = (Inr (), s\<lparr>pBuf := overwrite (pBuf s) i bs\<rparr>)"
  by (simp add: put_buf_def)

lemmas put_buf_012 = put_buf_ok [of 0, simplified] put_buf_ok [of 1, simplified] put_buf_ok [of 2, simplified]

lemma PutError_ok:
  assumes "pipe_wf s" and "length msg \<le> 257" and "tx_after (length msg + 2) (pWrite s) = Some t"
  shows "\<exists>b. PutError pf msg s = (Inr (), s\<lparr>pBuf := b, pWrite := t, written := written s @ error_report msg\<rparr>)"
proof -
  let ?n = "char_of_size (if length msg < BufferSize then length msg else BufferSize)"
  have buf: "length (pBuf s) = 259" using assms(1) by (simp add: pipe_wf_def BufferSize_def BufferExtraSize_def)
  let ?b = "overwrite (overwrite (overwrite (pBuf s) 0 [not ACK]) 1 [?n]) 2 (to_bytes msg)"
  have "?b = error_report msg @ drop (length msg + 2) (pBuf s)"
    using buf by (cases "pBuf s"; cases "tl (pBuf s)") (auto simp: overwrite_def error_report_def)
  then have tk: "take (length msg + 2) ?b = error_report msg"
    by (simp add: error_report_def)
  have "WriteFromBuf pf (length msg + 2) (s\<lparr>pBuf := ?b\<rparr>) =
      (Inr (), s\<lparr>pBuf := ?b, pWrite := t, written := written s @ error_report msg\<rparr>)"
    using WriteLoop_ok [of 0 "length msg + 2" "s\<lparr>pBuf := ?b\<rparr>" t pf] assms(2,3) buf tk
    by (simp add: WriteFromBuf_def)
  then show ?thesis
    using buf assms(2) by (auto simp: PutError_def thenM_def bindM_def put_buf_012)
qed

lemma PutAck_ok:
  assumes "pipe_wf s" and "tx_after 1 (pWrite s) = Some t"
  shows "\<exists>b. PutAck pf s = (Inr (), s\<lparr>pBuf := b, pWrite := t, written := written s @ [ACK]\<rparr>)"
proof -
  have buf: "length (pBuf s) = 259" using assms(1) by (simp add: pipe_wf_def BufferSize_def BufferExtraSize_def)
  let ?s = "s\<lparr>pBuf := overwrite (pBuf s) 0 [ACK]\<rparr>"
  have "WriteFromBuf pf 1 ?s = (Inr (), ?s\<lparr>pWrite := t, written := written s @ [ACK]\<rparr>)"
    using WriteLoop_ok [of 0 1 ?s t pf] assms(2) buf by (simp add: WriteFromBuf_def overwrite_zero)
  then show ?thesis using buf by (auto simp: PutAck_def thenM_def bindM_def put_buf_012)
qed

lemma ReadToBuf_ok:
  assumes "pipe_wf s" and "length bs \<le> 259" and "rx_bytes (pRead s) = bs @ rest"
  shows "\<exists>r. ReadToBuf pf (length bs) s = (Inr (), s\<lparr>pRead := r, pBuf := overwrite (pBuf s) 0 bs\<rparr>) \<and>
    rx_bytes r = rest \<and> pipe_wf (s\<lparr>pRead := r, pBuf := overwrite (pBuf s) 0 bs\<rparr>)"
  using ReadLoop_ok [of 0 "length bs" s pf] assms rx_bytes_drop [of "length bs" "pRead s"]
  by (auto simp: ReadToBuf_def pipe_wf_def BufferSize_def BufferExtraSize_def)

lemma ReadResult_ack:
  assumes "pipe_wf s" and "rx_bytes (pRead s) = ACK # rest"
  shows "fst (ReadResult pf s) = Inr \<lparr>lOk = True, lMsg = []\<rparr>"
proof -
  obtain r where "ReadToBuf pf 1 s = (Inr (), s\<lparr>pRead := r, pBuf := overwrite (pBuf s) 0 [ACK]\<rparr>)"
    using ReadToBuf_ok [of s "[ACK]" rest pf] assms by auto
  then show ?thesis by (simp add: ReadResult_def thenM_def bindM_def overwrite_zero)
qed

lemma ReadResult_error:
  assumes "pipe_wf s" and "rx_bytes (pRead s) = b # char_of_size (length bs) # bs @ rest"
    and "b \<noteq> ACK" and "length bs \<le> 255" and "0 \<notin> set bs"
  shows "fst (ReadResult pf s) = Inr \<lparr>lOk = False, lMsg = of_bytes bs\<rparr>"
proof -
  obtain r1 where 1: "ReadToBuf pf 1 s = (Inr (), s\<lparr>pRead := r1, pBuf := overwrite (pBuf s) 0 [b]\<rparr>)"
    "rx_bytes r1 = char_of_size (length bs) # bs @ rest"
    "pipe_wf (s\<lparr>pRead := r1, pBuf := overwrite (pBuf s) 0 [b]\<rparr>)"
    using ReadToBuf_ok [of s "[b]" "char_of_size (length bs) # bs @ rest" pf] assms by auto
  let ?s1 = "s\<lparr>pRead := r1, pBuf := overwrite (pBuf s) 0 [b]\<rparr>"
  let ?b2 = "overwrite (pBuf ?s1) 0 [char_of_size (length bs)]"
  obtain r2 where 2: "ReadToBuf pf 1 ?s1 = (Inr (), ?s1\<lparr>pRead := r2, pBuf := ?b2\<rparr>)"
    "rx_bytes r2 = bs @ rest" "pipe_wf (?s1\<lparr>pRead := r2, pBuf := ?b2\<rparr>)"
    using ReadToBuf_ok [OF 1(3), of "[char_of_size (length bs)]" "bs @ rest" pf] 1(2) by auto
  let ?s2 = "?s1\<lparr>pRead := r2, pBuf := ?b2\<rparr>"
  obtain r3 where 3: "ReadToBuf pf (length bs) ?s2 = (Inr (), ?s2\<lparr>pRead := r3, pBuf := overwrite ?b2 0 bs\<rparr>)"
    using ReadToBuf_ok [OF 2(3), of bs rest pf] 2(2) assms(4) by auto
  let ?s3 = "?s2\<lparr>pRead := r3, pBuf := overwrite ?b2 0 bs\<rparr>"
  have buf: "length ?b2 = 259" using 2(3) by (simp add: pipe_wf_def BufferSize_def BufferExtraSize_def)
  then have put: "put_buf (int (length bs)) [0] ?s3 =
      (Inr (), ?s3\<lparr>pBuf := overwrite (overwrite ?b2 0 bs) (length bs) [0]\<rparr>)"
    using put_buf_ok [of "length bs" "[0]" ?s3] assms(4) by simp
  have str: "c_string_at (overwrite (overwrite ?b2 0 bs) (length bs) [0]) = of_bytes bs"
    using assms(4,5) buf by (simp add: c_string_at_def overwrite_def takeWhile_c_string)
  have sz: "unat (?b2 ! 0) = length bs" using assms(4) by (simp add: overwrite_zero)
  show ?thesis
    using 1(1) 2(1) 3 put str sz assms(3)
    by (simp add: ReadResult_def thenM_def bindM_def overwrite_zero)
qed

section \<open>The attempts to connect\<close>

text \<open>An attempt that fails: at either of its two connections, or at the hello message.\<close>

lemma ConnectLoop_success:
  assumes "Factory_Connect pf fac garbage n = (Inr c, n1)"
  shows "ConnectLoop pf fac count garbage i n = (Inr c, n1)"
  using assms by (subst ConnectLoop.simps) simp

lemma ConnectLoop_retry:
  assumes "Factory_Connect pf fac garbage n = (Inl (Exn e), n1)" and "i < count"
  shows "ConnectLoop pf fac count garbage i n = ConnectLoop pf fac count garbage (Suc i) n1"
  using assms by (subst ConnectLoop.simps) simp

lemma ConnectLoop_give_up:
  assumes "Factory_Connect pf fac garbage n = (Inl (Exn e), n1)" and "count \<le> i"
  shows "ConnectLoop pf fac count garbage i n = (Inl (Exn e), n1)"
  using assms by (subst ConnectLoop.simps) simp

lemma Factory_refused:
  assumes "dials n = Unreachable e # r"
  shows "Factory_Connect pf fac garbage n = (Inl (throw_errno pf ''Connect'' ''Failed to connect'' e),
    n\<lparr>dials := r, dialled := dialled n @ [(cAddrIn (fSocket fac), htons (cPortIn (fSocket fac)))]\<rparr>)"
  using assms by (simp add: Factory_Connect_def bindM_def ClientSocket_Connect_def Let_def)

lemma ConnectLoop_unreachable:
  assumes "dials n = replicate (Suc k) (Unreachable e) @ r" and "i + k = count"
  shows "ConnectLoop pf fac count garbage i n = (Inl (throw_errno pf ''Connect'' ''Failed to connect'' e),
    n\<lparr>dials := r, dialled := dialled n @ replicate (Suc k) (cAddrIn (fSocket fac), htons (cPortIn (fSocket fac)))\<rparr>)"
  using assms
proof (induction k arbitrary: i n)
  case 0
  with ConnectLoop_give_up [of pf fac garbage n _ _ count i] Factory_refused [of n e r pf fac garbage]
  show ?case by (simp add: throw_errno_def)
next
  case (Suc k)
  let ?n = "n\<lparr>dials := replicate (Suc k) (Unreachable e) @ r,
    dialled := dialled n @ [(cAddrIn (fSocket fac), htons (cPortIn (fSocket fac)))]\<rparr>"
  have "ConnectLoop pf fac count garbage i n = ConnectLoop pf fac count garbage (Suc i) ?n"
    using ConnectLoop_retry [of pf fac garbage n _ ?n i count] Factory_refused [of n e _ pf fac garbage] Suc.prems
    by (simp add: throw_errno_def)
  with Suc.IH [of ?n "Suc i"] Suc.prems(2) show ?case
    by (simp add: replicate_append_same [symmetric])
qed

section \<open>Properties\<close>

text \<open>The two ends of the pipe in the examples.\<close>

definition demo_pipe :: "rx_event list \<Rightarrow> pipe_end" where
  "demo_pipe r = \<lparr>pBuf = replicate 259 0, pRead = r, pWrite = replicate 3 (TxAccept 300), written = []\<rparr>"

lemma demo_pipe_simps [simp]:
  "pipe_wf (demo_pipe r)" "pRead (demo_pipe r) = r" "written (demo_pipe r) = []"
  "pWrite (demo_pipe r) = replicate 3 (TxAccept 300)"
  by (simp_all add: demo_pipe_def pipe_wf_def BufferSize_def BufferExtraSize_def)

lemma NOT_ACK [simp]: "not ACK \<noteq> ACK"
  by (simp add: ACK_def byte_of_char_def)

text \<open>The text a failed start reports.\<close>

fun startup_error :: "platform \<Rightarrow> startup \<Rightarrow> string option" where
  "startup_error pf st = (case logfile st of
      Some e \<Rightarrow> Some (''std::ofstream: '' @ strerror pf e)
    | None \<Rightarrow> (case daemonize st of
        Some e \<Rightarrow> Some (''daemon()'' @ strerror pf e)
      | None \<Rightarrow> (case construct st of
          Some e \<Rightarrow> Some (''Failed to create server: '' @ what e)
        | None \<Rightarrow> None)))"

lemma LaunchAt_child_eq:
  "LaunchAt_child pf st = (case startup_error pf st of
      Some msg \<Rightarrow> thenM (PutError pf msg) (ret False) | None \<Rightarrow> thenM (PutAck pf) (ret True))"
  by (auto simp: LaunchAt_child_def split: option.splits)

text \<open>
  C24: The parent of \<open>LaunchAt\<close> learns how the child's start went: when the log file, \<open>daemon()\<close> and the
  server's constructor succeed, the child goes on to serve and the parent's result is \<open>Ok\<close>; when
  one of them fails with a text of at most 255 characters and no NUL, the child does not serve and
  the parent gets exactly this text.
\<close>

theorem launch_report_round_trip:
  assumes "pipe_wf c" and "pipe_wf p" and "\<forall>k \<le> 259. tx_after k (pWrite c) \<noteq> None"
    and "\<forall>msg. startup_error pf st = Some msg \<longrightarrow> length msg \<le> 255 \<and> 0 \<notin> set (to_bytes msg)"
    and "written c = []" and "rx_bytes (pRead p) = written (snd (LaunchAt_child pf st c))"
  shows "fst (LaunchAt_child pf st c) = Inr (startup_error pf st = None) \<and>
    fst (ReadResult pf p) = Inr (case startup_error pf st of
        None \<Rightarrow> \<lparr>lOk = True, lMsg = []\<rparr> | Some msg \<Rightarrow> \<lparr>lOk = False, lMsg = msg\<rparr>)"
proof (cases "startup_error pf st")
  case None
  obtain t where "tx_after 1 (pWrite c) = Some t" using assms(3) by fastforce
  then obtain b where "PutAck pf c = (Inr (), c\<lparr>pBuf := b, pWrite := t, written := written c @ [ACK]\<rparr>)"
    using PutAck_ok [OF assms(1), of t pf] by blast
  with None assms(5,6) ReadResult_ack [OF assms(2), of "[]" pf] show ?thesis
    by (simp add: LaunchAt_child_eq thenM_def bindM_def)
next
  case (Some msg)
  with assms(4) have msg: "length msg \<le> 255" "0 \<notin> set (to_bytes msg)" by auto
  obtain t where "tx_after (length msg + 2) (pWrite c) = Some t" using assms(3) msg(1) by fastforce
  then obtain b where put: "PutError pf msg c =
      (Inr (), c\<lparr>pBuf := b, pWrite := t, written := written c @ error_report msg\<rparr>)"
    using PutError_ok [OF assms(1), of msg t pf] msg(1) by auto
  have "fst (ReadResult pf p) = Inr \<lparr>lOk = False, lMsg = of_bytes (to_bytes msg)\<rparr>"
    using assms(5,6) put Some msg
    by (intro ReadResult_error [OF assms(2), of "not ACK" "to_bytes msg" "[]"])
      (simp_all add: LaunchAt_child_eq thenM_def bindM_def error_report_def BufferSize_def)
  with put Some show ?thesis by (simp add: LaunchAt_child_eq thenM_def bindM_def)
qed

definition busy_port :: startup where
  "busy_port = \<lparr>logfile = None, daemonize = None,
     construct = Some (ErrnoException ''Failed to bind socket'' 98)\<rparr>"

theorem launch_report_round_trip_witness:
  "fst (ReadResult arm (demo_pipe [RxData (error_report ''Failed to create server: Failed to bind socket'')])) =
   Inr \<lparr>lOk = False, lMsg = ''Failed to create server: Failed to bind socket''\<rparr>"
proof -
  let ?msg = "''Failed to create server: Failed to bind socket''"
  have err: "startup_error arm busy_port = Some ?msg" by (simp add: busy_port_def)
  have nz: "0 \<notin> set (to_bytes ?msg)" by code_simp
  have tx: "tx_after k (pWrite (demo_pipe [])) \<noteq> None" if "k \<le> 259" for k
    using that by (cases "k = 0") (simp_all add: numeral_3_eq_3)
  obtain t where t: "tx_after (length ?msg + 2) (pWrite (demo_pipe [])) = Some t" using tx [of "length ?msg + 2"] by fastforce
  have wr: "written (snd (LaunchAt_child arm busy_port (demo_pipe []))) = error_report ?msg"
    using PutError_ok [OF _ _ t, of arm] err by (auto simp: LaunchAt_child_eq thenM_def bindM_def)
  have "fst (ReadResult arm (demo_pipe [RxData (error_report ?msg)])) = Inr (case startup_error arm busy_port of
        None \<Rightarrow> \<lparr>lOk = True, lMsg = []\<rparr> | Some msg \<Rightarrow> \<lparr>lOk = False, lMsg = msg\<rparr>)"
    using launch_report_round_trip [of "demo_pipe []" "demo_pipe [RxData (error_report ?msg)]" arm busy_port] err nz tx wr
    by (simp add: error_report_def)
  with err show ?thesis by simp
qed

text \<open>
  A launch error of 256 or 257 characters is reported as an empty text: the size byte holds the
  buffer's size 256, which is 0 in a byte.
\<close>

lemma long_launch_error_is_lost:
  assumes "pipe_wf c" and "pipe_wf p" and "length msg = 256 \<or> length msg = 257"
    and "tx_after (length msg + 2) (pWrite c) = Some t" and "written c = []"
    and "rx_bytes (pRead p) = written (snd (PutError pf msg c))"
  shows "fst (ReadResult pf p) = Inr \<lparr>lOk = False, lMsg = []\<rparr>"
proof -
  obtain b where put: "PutError pf msg c =
      (Inr (), c\<lparr>pBuf := b, pWrite := t, written := written c @ error_report msg\<rparr>)"
    using PutError_ok [OF assms(1) _ assms(4)] assms(3) by fastforce
  have "char_of_size (length ([] :: byte list)) = char_of_size 256" by (simp add: char_of_size_def)
  then have "rx_bytes (pRead p) = not ACK # char_of_size (length ([] :: byte list)) # [] @ to_bytes msg"
    using assms(3,5,6) put by (auto simp: error_report_def BufferSize_def)
  then have "fst (ReadResult pf p) = Inr \<lparr>lOk = False, lMsg = of_bytes []\<rparr>"
    by (intro ReadResult_error [OF assms(2) _ NOT_ACK]) simp_all
  then show ?thesis by (simp add: of_bytes_def)
qed

text \<open>
  A client of a daemon that does not answer makes one attempt more than the configured count, all
  at the configured port, and then throws the last error.
\<close>

lemma connect_attempts:
  assumes "dials n = replicate (Suc (ConnAttemptCount ps)) (Unreachable e) @ r"
  shows "connect_daemon pf ps garbage n = (Inl (throw_errno pf ''Connect'' ''Failed to connect'' e),
    n\<lparr>dials := r, dialled := dialled n @ replicate (Suc (ConnAttemptCount ps)) (INADDR_ANY, Port ps)\<rparr>)"
  using ConnectLoop_unreachable [OF assms, of 0] by (simp add: connect_daemon_def bindM_def Factory_new_eq)


text \<open>
  \<open>IsRunning\<close> reports a running daemon exactly when the parameters are readable and one of the three
  calls of the probe socket fails with \<open>EADDRINUSE\<close>.
\<close>

lemma IsRunning_iff:
  "IsRunning pf ps r = Inr True \<longleftrightarrow>
   (\<exists>p. ps = Inr p) \<and> ServerSocket_new pf r \<noteq> Inr () \<and>
   (socket_err r = Some EADDRINUSE \<or>
    socket_err r = None \<and> (bind_err r = Some EADDRINUSE \<or> bind_err r = None \<and> listen_err r = Some EADDRINUSE))"
  by (cases ps)
    (auto simp: IsRunning_def ServerSocket_new_def throw_errno_def mk_ErrnoException_def split: option.splits)

end
