(* ===== verification/Socket_Fds.thy ===== *)
theory Socket_Fds
  imports Daemon_Tools
begin

text \<open>
  Who owns a file descriptor: the move-only classes \<open>UniqueValue\<close> and \<open>DescriptorWrapper\<close> of
  \<open>Helpers.hpp\<close>/\<open>Helpers.cpp\<close>, and the functions of \<open>Src/Socket.cpp\<close> that create descriptors.

  Wrapper objects live at addresses (natural numbers); the table maps the address of a live object
  to the value it holds, and records which descriptors the process has open, in which order they
  were opened, and every argument of \<open>close\<close>.  A wrapper that holds nothing holds \<open>-1\<close>, and its
  destructor calls \<open>close(-1)\<close>, which fails without effect.
\<close>

section \<open>UniqueValue and DescriptorWrapper\<close>

text \<open>Moving out of \<open>rhs\<close>: the new object and \<open>rhs\<close> afterwards; move assignment swaps.\<close>

definition UniqueValue_move :: "'a \<Rightarrow> 'a \<Rightarrow> 'a \<times> 'a" where
  "UniqueValue_move DefaultValue rhs = (rhs, DefaultValue)"

definition UniqueValue_assign :: "'a \<Rightarrow> 'a \<Rightarrow> 'a \<times> 'a" where
  "UniqueValue_assign lhs rhs = (rhs, lhs)"

record fdtable =
  wrappers :: "nat \<rightharpoonup> int"
  open_fds :: "int set"
  opened :: "int list"
  closes :: "int list"

definition sys_open :: "int \<Rightarrow> fdtable \<Rightarrow> fdtable" where
  "sys_open fd s = s\<lparr>open_fds := insert fd (open_fds s), opened := opened s @ [fd]\<rparr>"

definition sys_close :: "int \<Rightarrow> fdtable \<Rightarrow> fdtable" where
  "sys_close fd s = s\<lparr>open_fds := open_fds s - {fd}, closes := closes s @ [fd]\<rparr>"

definition DescriptorWrapper_new :: "nat \<Rightarrow> int \<Rightarrow> fdtable \<Rightarrow> fdtable" where
  "DescriptorWrapper_new a newFd s = s\<lparr>wrappers := (wrappers s)(a \<mapsto> newFd)\<rparr>"

definition DescriptorWrapper_Get :: "nat \<Rightarrow> fdtable \<Rightarrow> int" where
  "DescriptorWrapper_Get a s = (case wrappers s a of Some v \<Rightarrow> v | None \<Rightarrow> -1)"

definition DescriptorWrapper_move :: "nat \<Rightarrow> nat \<Rightarrow> fdtable \<Rightarrow> fdtable" where
  "DescriptorWrapper_move a rhs s = (case UniqueValue_move (-1) (DescriptorWrapper_Get rhs s) of
      (x, y) \<Rightarrow> s\<lparr>wrappers := (wrappers s)(rhs \<mapsto> y, a \<mapsto> x)\<rparr>)"

definition DescriptorWrapper_assign :: "nat \<Rightarrow> nat \<Rightarrow> fdtable \<Rightarrow> fdtable" where
  "DescriptorWrapper_assign a rhs s =
     (case UniqueValue_assign (DescriptorWrapper_Get a s) (DescriptorWrapper_Get rhs s) of
      (x, y) \<Rightarrow> s\<lparr>wrappers := (wrappers s)(rhs \<mapsto> y, a \<mapsto> x)\<rparr>)"

definition DescriptorWrapper_destroy :: "nat \<Rightarrow> fdtable \<Rightarrow> fdtable" where
  "DescriptorWrapper_destroy a s =
     sys_close (DescriptorWrapper_Get a s) (s\<lparr>wrappers := (wrappers s)(a := None)\<rparr>)"

section \<open>Every descriptor is closed once\<close>

text \<open>
  The life of wrapper objects: a wrapper is made around a descriptor the kernel has just given, or
  empty; objects are moved into new ones, assigned and destroyed, in any order.
\<close>

inductive fd_step :: "fdtable \<Rightarrow> fdtable \<Rightarrow> bool" where
  wraps: "0 \<le> fd \<Longrightarrow> fd \<notin> open_fds s \<Longrightarrow> wrappers s a = None \<Longrightarrow>
    fd_step s (DescriptorWrapper_new a fd (sys_open fd s))"
| empty: "wrappers s a = None \<Longrightarrow> fd_step s (DescriptorWrapper_new a (-1) s)"
| moves: "wrappers s a = None \<Longrightarrow> wrappers s b \<noteq> None \<Longrightarrow> fd_step s (DescriptorWrapper_move a b s)"
| assigns: "wrappers s a \<noteq> None \<Longrightarrow> wrappers s b \<noteq> None \<Longrightarrow> fd_step s (DescriptorWrapper_assign a b s)"
| destroys: "wrappers s a \<noteq> None \<Longrightarrow> fd_step s (DescriptorWrapper_destroy a s)"

definition no_fds :: fdtable where
  "no_fds = \<lparr>wrappers = Map.empty, open_fds = {}, opened = [], closes = []\<rparr>"

text \<open>The open descriptors are those the wrappers hold, each held once, and the books balance.\<close>

definition owns :: "fdtable \<Rightarrow> bool" where
  "owns s \<longleftrightarrow>
     (\<forall>v. v \<in> open_fds s \<longleftrightarrow> v \<noteq> -1 \<and> (\<exists>a. wrappers s a = Some v)) \<and>
     (\<forall>a b v. v \<noteq> -1 \<longrightarrow> wrappers s a = Some v \<longrightarrow> wrappers s b = Some v \<longrightarrow> a = b) \<and>
     (\<forall>v. v \<noteq> -1 \<longrightarrow> count_list (opened s) v = count_list (closes s) v + (if v \<in> open_fds s then 1 else 0))"

lemmas wrapper_defs = DescriptorWrapper_new_def DescriptorWrapper_Get_def DescriptorWrapper_move_def
  DescriptorWrapper_assign_def DescriptorWrapper_destroy_def sys_open_def sys_close_def
  UniqueValue_move_def UniqueValue_assign_def

lemma owns_balance:
  assumes "owns s" and "open_fds t = open_fds s" and "opened t = opened s" and "closes t = closes s"
    and "\<And>v. v \<noteq> -1 \<Longrightarrow> (\<exists>a. wrappers t a = Some v) \<longleftrightarrow> (\<exists>a. wrappers s a = Some v)"
    and "\<And>a b v. v \<noteq> -1 \<Longrightarrow> wrappers t a = Some v \<Longrightarrow> wrappers t b = Some v \<Longrightarrow> a = b"
  shows "owns t"
  using assms unfolding owns_def by metis

lemma owns_new:
  assumes "owns s" and "wrappers s a = None"
  shows "owns (DescriptorWrapper_new a (-1) s)"
    and "0 \<le> fd \<Longrightarrow> fd \<notin> open_fds s \<Longrightarrow> owns (DescriptorWrapper_new a fd (sys_open fd s))"
proof -
  show "owns (DescriptorWrapper_new a (-1) s)"
  proof (rule owns_balance [OF assms(1)])
    show "(\<exists>c. wrappers (DescriptorWrapper_new a (-1) s) c = Some u) \<longleftrightarrow> (\<exists>c. wrappers s c = Some u)"
      if "u \<noteq> -1" for u
      using assms(2) that unfolding wrapper_defs by simp (metis option.simps(3))
  qed (use assms(1) in \<open>auto simp: wrapper_defs owns_def split: if_splits\<close>)
  assume fd: "0 \<le> fd" "fd \<notin> open_fds s"
  then have out: "wrappers s b \<noteq> Some fd" for b using assms(1) unfolding owns_def by force
  have bal: "count_list (opened s) fd = count_list (closes s) fd"
    using assms(1) fd unfolding owns_def by force
  show "owns (DescriptorWrapper_new a fd (sys_open fd s))"
    using assms fd out bal unfolding owns_def wrapper_defs by auto (metis option.simps(3))
qed


lemma owns_move:
  assumes "owns s" and "wrappers s a = None" and "wrappers s b \<noteq> None"
  shows "owns (DescriptorWrapper_move a b s)"
proof -
  obtain v where v: "wrappers s b = Some v" using assms(3) by blast
  have "a \<noteq> b" using assms(2,3) by auto
  then have w: "wrappers (DescriptorWrapper_move a b s) = (wrappers s)(b \<mapsto> -1, a \<mapsto> v)"
    using v by (simp add: wrapper_defs)
  show ?thesis
  proof (rule owns_balance [OF assms(1)])
    show "(\<exists>c. wrappers (DescriptorWrapper_move a b s) c = Some u) \<longleftrightarrow> (\<exists>c. wrappers s c = Some u)"
      if "u \<noteq> -1" for u
      unfolding w using v assms(2) that by (metis fun_upd_apply option.inject option.simps(3))
    show "c = d" if "u \<noteq> -1" "wrappers (DescriptorWrapper_move a b s) c = Some u"
        "wrappers (DescriptorWrapper_move a b s) d = Some u" for c d u
      using that assms(1) v \<open>a \<noteq> b\<close> unfolding w owns_def by (auto split: if_splits)
  qed (simp_all add: wrapper_defs)
qed

lemma owns_assign:
  assumes "owns s" and "wrappers s a \<noteq> None" and "wrappers s b \<noteq> None"
  shows "owns (DescriptorWrapper_assign a b s)"
proof -
  obtain x y where v: "wrappers s a = Some x" "wrappers s b = Some y" using assms(2,3) by blast
  have w: "wrappers (DescriptorWrapper_assign a b s) = (wrappers s)(b \<mapsto> x, a \<mapsto> y)"
    using v by (simp add: wrapper_defs)
  show ?thesis
  proof (rule owns_balance [OF assms(1)])
    show "(\<exists>c. wrappers (DescriptorWrapper_assign a b s) c = Some u) \<longleftrightarrow> (\<exists>c. wrappers s c = Some u)" for u
      unfolding w using v by (metis fun_upd_apply)
    show "c = d" if "u \<noteq> -1" "wrappers (DescriptorWrapper_assign a b s) c = Some u"
        "wrappers (DescriptorWrapper_assign a b s) d = Some u" for c d u
      using that assms(1) v unfolding w owns_def by (auto split: if_splits)
  qed (simp_all add: wrapper_defs)
qed

lemma owns_destroy:
  assumes "owns s" and "wrappers s a \<noteq> None"
  shows "owns (DescriptorWrapper_destroy a s)"
proof -
  obtain v where v: "wrappers s a = Some v" using assms(2) by blast
  have "v \<in> open_fds s" if "v \<noteq> -1" using assms(1) v that unfolding owns_def by blast
  moreover have "b = a" if "wrappers s b = Some v" "v \<noteq> -1" for b using assms(1) v that unfolding owns_def by blast
  ultimately show ?thesis
    using assms(1) v unfolding owns_def wrapper_defs by auto (metis option.inject)
qed

lemma owns_step: "fd_step s t \<Longrightarrow> owns s \<Longrightarrow> owns t"
  by (induction rule: fd_step.induct) (auto intro: owns_new owns_move owns_assign owns_destroy)

lemma owns_no_fds: "owns no_fds"
  by (simp add: owns_def no_fds_def)

interpretation descriptors: invariant_system "\<lambda>s. s = no_fds" fd_step owns
  by unfold_locales (auto simp: owns_no_fds intro: owns_step)


section \<open>The functions that create descriptors\<close>

text \<open>A local or a member that is destroyed when an exception passes through its scope.\<close>

definition on_unwind :: "('s, 'a) prog \<Rightarrow> ('s \<Rightarrow> 's) \<Rightarrow> ('s, 'a) prog" where
  "on_unwind m d s = (case m s of
      (Inl f, t) \<Rightarrow> (Inl f, if unwinds f then d t else t)
    | (Inr x, t) \<Rightarrow> (Inr x, t))"

text \<open>The data members of \<open>ServerSocket\<close> and of \<open>Connection\<close> beside the descriptor.\<close>

record ServerSocket =
  sServerAddr :: string
  sServerPort :: "16 word"
  sBacklog :: nat

record Connection =
  kAddr :: string
  kPort :: nat
  kNonBlock :: bool

definition ServerSocket_GetPort :: "ServerSocket \<Rightarrow> 16 word" where
  "ServerSocket_GetPort s = sServerPort s"

definition ServerSocket_GetAddr :: "ServerSocket \<Rightarrow> string" where
  "ServerSocket_GetAddr s = sServerAddr s"

definition Connection_GetAddr :: "Connection \<Rightarrow> string" where
  "Connection_GetAddr s = kAddr s"

definition Connection_GetPort :: "Connection \<Rightarrow> nat" where
  "Connection_GetPort s = kPort s"

definition Connection_IsNonBlock :: "Connection \<Rightarrow> bool" where
  "Connection_IsNonBlock s = kNonBlock s"

text \<open>
  Moving a \<open>Connection\<close>: its text is left valid and unspecified (\<open>leftover\<close>), the two
  \<open>UniqueValue\<close>s go back to their defaults.  The first component is the new object.
\<close>

definition Connection_move :: "string \<Rightarrow> Connection \<Rightarrow> Connection \<times> Connection" where
  "Connection_move leftover rhs =
     (case (UniqueValue_move 0 (kPort rhs), UniqueValue_move False (kNonBlock rhs)) of
        ((p, p'), (n, n')) \<Rightarrow>
          (\<lparr>kAddr = kAddr rhs, kPort = p, kNonBlock = n\<rparr>, \<lparr>kAddr = leftover, kPort = p', kNonBlock = n'\<rparr>))"

text \<open>
  The constructor of \<open>ServerSocket\<close>: \<open>a\<close> is the address of the member \<open>SockFd\<close>, \<open>tmp\<close> that of the
  temporary in the assignment to it, \<open>newFd\<close> what \<open>socket()\<close> returns when it succeeds.
\<close>

definition ServerSocket_ctor ::
    "platform \<Rightarrow> 32 word \<Rightarrow> nat \<Rightarrow> nat \<Rightarrow> bind_result \<Rightarrow> int \<Rightarrow> nat \<Rightarrow> nat \<Rightarrow> (fdtable, ServerSocket) prog" where
  "ServerSocket_ctor pf addr port backlog r newFd a tmp =
     thenM (modifyM (DescriptorWrapper_new a (-1)))
     (on_unwind (case socket_err r of
        Some e \<Rightarrow> raise (throw_errno pf ''ServerSocket'' ''Failed to open socket'' e)
      | None \<Rightarrow>
          thenM (modifyM (sys_open newFd))
         (bindM (liftE (IpToString pf addr)) (\<lambda>name.
          thenM (modifyM (DescriptorWrapper_new tmp newFd))
         (thenM (modifyM (DescriptorWrapper_assign a tmp))
         (thenM (modifyM (DescriptorWrapper_destroy tmp))
         (case bind_err r of
            Some e \<Rightarrow> raise (throw_errno pf ''ServerSocket'' ''Failed to bind socket'' e)
          | None \<Rightarrow> (case listen_err r of
              Some e \<Rightarrow> raise (throw_errno pf ''ServerSocket'' ''listen() failed'' e)
            | None \<Rightarrow> ret \<lparr>sServerAddr = name, sServerPort = word_of_nat port, sBacklog = backlog\<rparr>)))))))
      (DescriptorWrapper_destroy a))"

text \<open>
  \<open>ServerSocket::Accept\<close> and \<open>ClientSocket::Connect\<close>: \<open>r\<close> is the address of the local \<open>retFd\<close> and
  \<open>k\<close> that of the descriptor in the connection they return.
\<close>

definition Accept_fds ::
    "platform \<Rightarrow> ServerSocket \<Rightarrow> accept_event \<Rightarrow> 32 word \<Rightarrow> bool \<Rightarrow> int \<Rightarrow> nat \<Rightarrow> nat \<Rightarrow> (fdtable, conn \<times> Connection) prog" where
  "Accept_fds pf sock acc peer nonBlock peerFd r k = (case ServerSocket_Accept pf acc of
      Inl f \<Rightarrow> raise f
    | Inr c \<Rightarrow>
        thenM (modifyM (DescriptorWrapper_new r peerFd \<circ> sys_open peerFd))
       (finallyM
         (bindM (liftE (IpToString pf peer)) (\<lambda>addrStr.
          thenM (modifyM (DescriptorWrapper_move k r))
         (ret (c, \<lparr>kAddr = addrStr, kPort = unat (sServerPort sock), kNonBlock = nonBlock\<rparr>))))
         (DescriptorWrapper_destroy r)))"

definition Connect_fds ::
    "platform \<Rightarrow> ClientSocket \<Rightarrow> dial \<Rightarrow> bool \<Rightarrow> int \<Rightarrow> nat \<Rightarrow> nat \<Rightarrow> (fdtable, conn \<times> Connection) prog" where
  "Connect_fds pf sock d nonBlock newFd r k = (case d of
      NoSocket e \<Rightarrow> raise (throw_errno pf ''Connect'' ''Failed to create socket'' e)
    | _ \<Rightarrow>
        thenM (modifyM (DescriptorWrapper_new r newFd \<circ> sys_open newFd))
       (finallyM
         (case d of
            Unreachable e \<Rightarrow> raise (throw_errno pf ''Connect'' ''Failed to connect'' e)
          | NoSocket e \<Rightarrow> raise (throw_errno pf ''Connect'' ''Failed to create socket'' e)
          | Linked c \<Rightarrow>
              thenM (modifyM (DescriptorWrapper_move k r))
             (ret (c, \<lparr>kAddr = cServerAddr sock, kPort = unat (cPortIn sock), kNonBlock = nonBlock\<rparr>)))
         (DescriptorWrapper_destroy r)))"

text \<open>
  The way of the socket of a handler: the dispatch moves it into the arguments of the new thread
  (\<open>b\<close>), the thread moves it into its local (\<open>c\<close>).  The data members are copied.
\<close>

definition hand_over :: "nat \<Rightarrow> nat \<Rightarrow> nat \<Rightarrow> fdtable \<Rightarrow> fdtable" where
  "hand_over a b c = DescriptorWrapper_move c b \<circ> DescriptorWrapper_move b a"


lemma owns_close_nothing [simp]: "owns (s\<lparr>closes := cs @ [-1]\<rparr>) \<longleftrightarrow> owns (s\<lparr>closes := cs\<rparr>)"
  by (simp add: owns_def)

text \<open>The tables after a new descriptor was wrapped, and after it was closed again.\<close>

definition with_fd :: "nat \<Rightarrow> int \<Rightarrow> fdtable \<Rightarrow> fdtable" where
  "with_fd a fd s = s\<lparr>wrappers := (wrappers s)(a \<mapsto> fd), open_fds := insert fd (open_fds s),
     opened := opened s @ [fd], closes := closes s @ [-1]\<rparr>"

definition tried_fd :: "int \<Rightarrow> fdtable \<Rightarrow> fdtable" where
  "tried_fd fd s = s\<lparr>opened := opened s @ [fd], closes := closes s @ [fd]\<rparr>"

lemma owns_with_fd:
  assumes "owns s" and "wrappers s a = None" and "0 \<le> fd" and "fd \<notin> open_fds s"
  shows "owns (with_fd a fd s)"
proof -
  let ?t = "DescriptorWrapper_new a fd (sys_open fd s)"
  have "with_fd a fd s = ?t\<lparr>closes := closes ?t @ [-1]\<rparr>" by (simp add: with_fd_def wrapper_defs)
  then show ?thesis using owns_new(2) [OF assms] by simp
qed

lemma owns_tried_fd:
  assumes "owns s"
  shows "owns (tried_fd fd s)"
  using assms unfolding owns_def tried_fd_def by simp

text \<open>Assumptions on the objects a function creates and on the descriptor the kernel gives it.\<close>

definition fresh :: "nat \<Rightarrow> nat \<Rightarrow> int \<Rightarrow> fdtable \<Rightarrow> bool" where
  "fresh a b fd s \<longleftrightarrow> wrappers s a = None \<and> wrappers s b = None \<and> a \<noteq> b \<and> 0 \<le> fd \<and> fd \<notin> open_fds s"

lemma fresh_tables:
  assumes "fresh a b fd s" and "owns s"
  shows "wrappers s a = None" "wrappers s b = None" "a \<noteq> b" "b \<noteq> a" "fd \<noteq> -1"
    "open_fds s - {-1} = open_fds s" "insert fd (open_fds s) - {-1} = insert fd (open_fds s)"
    "insert fd (open_fds s) - {fd} = open_fds s"
    "((wrappers s)(a \<mapsto> x))(b := None) = (wrappers s)(a \<mapsto> x)" "(wrappers s)(a := None) = wrappers s"
    "((wrappers s)(b \<mapsto> y, a \<mapsto> x))(b := None) = (wrappers s)(a \<mapsto> x)"
    "(wrappers s)(b := None) = wrappers s" "open_fds s - {fd} = open_fds s"
  using assms by (auto simp: fresh_def owns_def fun_eq_iff)

lemma ServerSocket_ctor_eq:
  assumes "fresh a tmp fd s" and "owns s"
  shows "\<exists>name. IpToString pf addr = Inr name \<and> ServerSocket_ctor pf addr port backlog r fd a tmp s =
    (case ServerSocket_new pf r of
       Inr u \<Rightarrow> (Inr \<lparr>sServerAddr = name, sServerPort = word_of_nat port, sBacklog = backlog\<rparr>, with_fd a fd s)
     | Inl f \<Rightarrow> (Inl f, if socket_err r = None then tried_fd fd (s\<lparr>closes := closes s @ [-1]\<rparr>)
                      else s\<lparr>closes := closes s @ [-1]\<rparr>))"
proof -
  obtain name where "IpToString pf addr = Inr name" using IpToString_eq by blast
  then show ?thesis
    by (cases "socket_err r"; cases "bind_err r"; cases "listen_err r")
      (simp_all add: ServerSocket_ctor_def ServerSocket_new_def on_unwind_def thenM_def bindM_def throw_errno_def
        wrapper_defs with_fd_def tried_fd_def fresh_tables [OF assms])
qed

lemma Accept_fds_eq:
  assumes "fresh k r fd s" and "owns s"
  shows "\<exists>name. IpToString pf peer = Inr name \<and> Accept_fds pf sock acc peer nonBlock fd r k s =
    (case ServerSocket_Accept pf acc of
       Inr c \<Rightarrow> (Inr (c, \<lparr>kAddr = name, kPort = unat (sServerPort sock), kNonBlock = nonBlock\<rparr>), with_fd k fd s)
     | Inl f \<Rightarrow> (Inl f, s))"
proof -
  obtain name where "IpToString pf peer = Inr name" using IpToString_eq by blast
  then show ?thesis
    by (cases "ServerSocket_Accept pf acc")
      (simp_all add: Accept_fds_def finallyM_def thenM_def bindM_def wrapper_defs with_fd_def fresh_tables [OF assms])
qed

lemma Connect_fds_eq:
  assumes "fresh k r fd s" and "owns s"
  shows "Connect_fds pf sock d nonBlock fd r k s = (case d of
       Linked c \<Rightarrow> (Inr (c, \<lparr>kAddr = cServerAddr sock, kPort = unat (cPortIn sock), kNonBlock = nonBlock\<rparr>), with_fd k fd s)
     | Unreachable e \<Rightarrow> (Inl (throw_errno pf ''Connect'' ''Failed to connect'' e), tried_fd fd s)
     | NoSocket e \<Rightarrow> (Inl (throw_errno pf ''Connect'' ''Failed to create socket'' e), s))"
  by (cases d) (simp_all add: Connect_fds_def finallyM_def thenM_def bindM_def throw_errno_def wrapper_defs with_fd_def
      tried_fd_def fresh_tables [OF assms])


section \<open>Properties\<close>

text \<open>
  C15: A descriptor in a wrapper has exactly one owner and is closed exactly once.  However wrappers are
  created, moved, assigned and destroyed, the open descriptors are those held by a wrapper, each by
  exactly one, every descriptor was closed once for each time it was opened (once less while it is
  open), and when the last wrapper is gone everything is closed.
\<close>

theorem descriptors_closed_once:
  assumes "reach no_fds fd_step s"
  shows "(\<forall>v. v \<in> open_fds s \<longleftrightarrow> v \<noteq> -1 \<and> (\<exists>!a. wrappers s a = Some v)) \<and>
    (\<forall>v. v \<noteq> -1 \<longrightarrow> count_list (opened s) v = count_list (closes s) v + (if v \<in> open_fds s then 1 else 0)) \<and>
    (wrappers s = Map.empty \<longrightarrow> open_fds s = {})"
proof -
  have "owns s" using descriptors.reachable_inv [OF refl assms] .
  then have held: "\<forall>v. v \<in> open_fds s \<longleftrightarrow> v \<noteq> -1 \<and> (\<exists>a. wrappers s a = Some v)"
    and once: "\<forall>a b v. v \<noteq> -1 \<longrightarrow> wrappers s a = Some v \<longrightarrow> wrappers s b = Some v \<longrightarrow> a = b"
    and books: "\<forall>v. v \<noteq> -1 \<longrightarrow> count_list (opened s) v = count_list (closes s) v + (if v \<in> open_fds s then 1 else 0)"
    unfolding owns_def by (rule conjunct1, blast, blast)
  show ?thesis using held once books by (intro conjI) (blast, blast, auto)
qed

text \<open>A descriptor is wrapped, moved into another object, and both are destroyed.\<close>

definition moved_fd :: fdtable where
  "moved_fd = DescriptorWrapper_destroy 3 (DescriptorWrapper_destroy 2
     (DescriptorWrapper_move 3 2 (DescriptorWrapper_new 2 7 (sys_open 7 no_fds))))"

theorem descriptors_closed_once_witness:
  "closes moved_fd = [-1, 7] \<and> open_fds moved_fd = {} \<and> count_list (opened moved_fd) 7 = count_list (closes moved_fd) 7"
proof -
  let ?a = "DescriptorWrapper_new 2 7 (sys_open 7 no_fds)"
  let ?b = "DescriptorWrapper_move 3 2 ?a"
  let ?c = "DescriptorWrapper_destroy 2 ?b"
  have w: "wrappers ?a = [2 \<mapsto> 7]" "wrappers ?b = [2 \<mapsto> -1, 3 \<mapsto> 7]" "wrappers ?c = [3 \<mapsto> 7]"
    by (auto simp: wrapper_defs no_fds_def fun_eq_iff)
  have "fd_step no_fds ?a" by (rule fd_step.wraps) (simp_all add: no_fds_def)
  moreover have "fd_step ?a ?b" by (rule fd_step.moves) (simp_all add: w)
  moreover have "fd_step ?b ?c" "fd_step ?c moved_fd"
    unfolding moved_fd_def by (rule fd_step.destroys; simp add: w)+
  ultimately have "reach no_fds fd_step moved_fd" by (meson reach_init reach_step)
  from descriptors_closed_once [OF this] show ?thesis
    by (auto simp: moved_fd_def wrapper_defs no_fds_def)
qed

text \<open>
  A program that builds an object around a new descriptor: its outcome is \<open>q\<close>; when it returns, the
  object at \<open>a\<close> holds the descriptor, and when it throws, wrappers and open descriptors are as before.
\<close>

definition keeps_books :: "nat \<Rightarrow> int \<Rightarrow> fdtable \<Rightarrow> (fdtable, 'a) prog \<Rightarrow> ('a \<Rightarrow> 'b) \<Rightarrow> 'b result \<Rightarrow> bool" where
  "keeps_books a fd s m view q \<longleftrightarrow> (case m s of
      (Inl f, t) \<Rightarrow> q = Inl f \<and> owns t \<and> wrappers t = wrappers s \<and> open_fds t = open_fds s
    | (Inr x, t) \<Rightarrow> q = Inr (view x) \<and> owns t \<and> wrappers t = (wrappers s)(a \<mapsto> fd) \<and>
        open_fds t = insert fd (open_fds s))"

text \<open>
  C16: The functions that create sockets keep the books.  The constructor of \<open>ServerSocket\<close>, \<open>Accept\<close>
  and \<open>Connect\<close> leave, when they succeed, exactly the new descriptor in the object they build, and
  when a system call fails they throw what their models without descriptors throw and leave no
  descriptor behind; a server socket knows the port it was made for in sixteen bits.
\<close>

theorem sockets_never_leak:
  assumes "owns s" and "fresh a b fd s"
  shows "keeps_books a fd s (ServerSocket_ctor pf addr port backlog r fd a b) (\<lambda>sock. ()) (ServerSocket_new pf r) \<and>
    (\<forall>sock t. ServerSocket_ctor pf addr port backlog r fd a b s = (Inr sock, t) \<longrightarrow>
       ServerSocket_GetPort sock = word_of_nat port) \<and>
    keeps_books a fd s (Accept_fds pf srv acc peer nonBlock fd b a) fst (ServerSocket_Accept pf acc) \<and>
    keeps_books a fd s (Connect_fds pf sock d nonBlock fd b a) fst
      (fst (ClientSocket_Connect pf sock \<lparr>dials = [d], dialled = []\<rparr>))"
proof (intro conjI)
  have new: "owns (with_fd a fd s)" using owns_with_fd [OF assms(1)] assms(2) by (simp add: fresh_def)
  have old: "owns (s\<lparr>closes := closes s @ [-1]\<rparr>)" using assms(1) by simp
  have t: "wrappers (with_fd a fd s) = (wrappers s)(a \<mapsto> fd)" "open_fds (with_fd a fd s) = insert fd (open_fds s)"
    "wrappers (tried_fd fd u) = wrappers u" "open_fds (tried_fd fd u) = open_fds u" for u
    by (simp_all add: with_fd_def tried_fd_def)
  note books = new old owns_tried_fd [OF old, of fd] owns_tried_fd [OF assms(1), of fd] assms(1) t
  note ctor = ServerSocket_ctor_eq [OF assms(2,1), of pf addr port backlog r]
  show "keeps_books a fd s (ServerSocket_ctor pf addr port backlog r fd a b) (\<lambda>sock. ()) (ServerSocket_new pf r)"
    using ctor books by (cases "ServerSocket_new pf r"; cases "socket_err r") (auto simp: keeps_books_def)
  show "\<forall>sock t. ServerSocket_ctor pf addr port backlog r fd a b s = (Inr sock, t) \<longrightarrow>
      ServerSocket_GetPort sock = word_of_nat port"
    using ctor by (cases "ServerSocket_new pf r") (auto simp: ServerSocket_GetPort_def)
  show "keeps_books a fd s (Accept_fds pf srv acc peer nonBlock fd b a) fst (ServerSocket_Accept pf acc)"
    using Accept_fds_eq [OF assms(2,1), of pf peer srv acc nonBlock] books
    by (cases "ServerSocket_Accept pf acc") (auto simp: keeps_books_def)
  show "keeps_books a fd s (Connect_fds pf sock d nonBlock fd b a) fst
      (fst (ClientSocket_Connect pf sock \<lparr>dials = [d], dialled = []\<rparr>))"
    using Connect_fds_eq [OF assms(2,1), of pf sock d nonBlock] books
    by (cases d) (auto simp: keeps_books_def ClientSocket_Connect_def Let_def throw_errno_def)
qed

theorem sockets_never_leak_witness:
  "keeps_books 2 7 no_fds (ServerSocket_ctor arm INADDR_ANY 8080 5
     \<lparr>socket_err = None, bind_err = Some EADDRINUSE, listen_err = None\<rparr> 7 2 3) (\<lambda>sock. ())
     (Inl (throw_errno arm ''ServerSocket'' ''Failed to bind socket'' EADDRINUSE))"
proof -
  have "fresh 2 3 7 no_fds" by (simp add: fresh_def no_fds_def)
  from sockets_never_leak [OF owns_no_fds this, of arm INADDR_ANY 8080 5
      "\<lparr>socket_err = None, bind_err = Some EADDRINUSE, listen_err = None\<rparr>"]
  show ?thesis by (simp add: ServerSocket_new_def)
qed

section \<open>The socket of a handler\<close>

text \<open>
  Handing a socket to a thread keeps it open; the two objects it passed through hold nothing, so only
  the destructor of the thread's local closes it.
\<close>

lemma hand_over_owner:
  assumes "owns s" and "wrappers s a = Some fd" and "fd \<noteq> -1" and "wrappers s b = None" and "wrappers s c = None" and "b \<noteq> c"
  shows "wrappers (hand_over a b c s) = (wrappers s)(a \<mapsto> -1, b \<mapsto> -1, c \<mapsto> fd)" and "owns (hand_over a b c s)"
    and "fd \<in> open_fds (DescriptorWrapper_destroy b (DescriptorWrapper_destroy a (hand_over a b c s)))"
    and "fd \<notin> open_fds (DescriptorWrapper_destroy c (hand_over a b c s))"
proof -
  have ne: "a \<noteq> b" "a \<noteq> c" using assms(2,4,5) by auto
  show w: "wrappers (hand_over a b c s) = (wrappers s)(a \<mapsto> -1, b \<mapsto> -1, c \<mapsto> fd)"
    using assms(2,6) ne by (auto simp: hand_over_def wrapper_defs fun_eq_iff)
  have "owns (DescriptorWrapper_move b a s)" using assms(1,2,4) by (intro owns_move) auto
  then show "owns (hand_over a b c s)"
    unfolding hand_over_def o_apply using assms(2,5,6) ne
    by (intro owns_move [of "DescriptorWrapper_move b a s" c b]) (auto simp: wrapper_defs)
  have "fd \<in> open_fds s" using assms(1,2,3) unfolding owns_def by blast
  then show "fd \<in> open_fds (DescriptorWrapper_destroy b (DescriptorWrapper_destroy a (hand_over a b c s)))"
    using w assms(2,3,4,6) ne by (auto simp: hand_over_def wrapper_defs)
  show "fd \<notin> open_fds (DescriptorWrapper_destroy c (hand_over a b c s))"
    using w by (simp add: DescriptorWrapper_destroy_def DescriptorWrapper_Get_def sys_close_def)
qed

end
