(* ===== verification/Server_Threads.thy ===== *)
theory Server_Threads
  imports Mb_Prelude
begin

text \<open>
  The threads of the server of \<open>Src/Server.cpp\<close> and the two containers that track them: the map
  \<open>Handlers\<close> of the handler threads and the queue \<open>Joinables\<close> of those that have ended.

  Four kinds of threads take steps: the main thread (\<open>Run\<close>), the dispatch thread
  (\<open>DispatchRoutine\<close>), the cleanup thread (\<open>CleanupRoutine\<close>) and one thread per client
  (\<open>HandlerRoutine\<close>; what it does between \<open>Accept\<close> and its end is the session of
  \<open>Server_Session\<close>).  A section under \<open>JoinablesMutex\<close> is one step, except that a thread which is
  about to block in \<open>ReadyToJoin.wait\<close> holds the mutex between the test of the predicate and the
  wait.  Accepting a connection, finding a port for its handler and starting the thread are one
  step of the dispatch, which a cancellation can cut short in the \<open>sleep\<close> between two attempts for a
  port.  A notification wakes a thread that is blocked and is lost on one that is not; wake-ups
  without a notification are not modelled.  The main thread in \<open>pause\<close> waits for a signal in the same
  way, with a gap between the test of \<open>DoShutdown\<close> and the call.
\<close>

section \<open>The state\<close>

datatype dispatch_pc =
    DLoop                  \<comment> \<open>at the test of \<open>DoShutdown\<close>\<close>
  | DAccept                \<comment> \<open>in \<open>Socket.Accept()\<close>\<close>
  | DSpawned nat           \<comment> \<open>the handler thread runs, it is not in \<open>Handlers\<close> yet\<close>
  | DTest nat              \<comment> \<open>before the test of \<open>ready\<close> in \<open>readyCond.wait\<close>\<close>
  | DFalling nat           \<comment> \<open>\<open>ready\<close> was false, the wait has not begun\<close>
  | DBlocked nat           \<comment> \<open>blocked in \<open>readyCond.wait\<close>\<close>
  | DHello nat             \<comment> \<open>before \<open>hello.Send\<close>\<close>
  | DStopped               \<comment> \<open>the routine has been left\<close>

datatype handler_pc =
    TNone                  \<comment> \<open>no such thread\<close>
  | TStarted               \<comment> \<open>before \<open>ready = true\<close>\<close>
  | TFlagged               \<comment> \<open>before \<open>readyCond.notify_all()\<close>\<close>
  | TServing               \<comment> \<open>in \<open>socket.Accept()\<close> or in the request loop\<close>
  | TPushed                \<comment> \<open>the deferred \<open>Joinables.push(id)\<close> has run\<close>

datatype cleanup_pc =
    CTest                  \<comment> \<open>at the top of the loop\<close>
  | CFalling               \<comment> \<open>the predicate was false, the wait has not begun; holds \<open>JoinablesMutex\<close>\<close>
  | CBlocked               \<comment> \<open>blocked in \<open>ReadyToJoin.wait\<close>\<close>
  | CDone
  | CCrashed               \<comment> \<open>\<open>Handlers.at(id)\<close> threw: \<open>std::terminate\<close>\<close>

datatype main_pc =
    MTest                  \<comment> \<open>at the test of \<open>while (!DoShutdown) pause()\<close>\<close>
  | MFalling               \<comment> \<open>\<open>DoShutdown\<close> was false, \<open>pause\<close> has not begun\<close>
  | MPause                 \<comment> \<open>in \<open>pause()\<close>\<close>
  | MJoinDispatch          \<comment> \<open>\<open>pthread_cancel(dispatch)\<close> was called\<close>
  | MCancelHandlers
  | MNotify
  | MJoinCleanup
  | MDone

record server =
  Handlers :: "nat set"
  Joinables :: "nat list"
  DoShutdown :: bool
  CurrentId :: nat
  CurrentPort :: nat
  ports :: "(nat \<times> nat) list"           \<comment> \<open>the port of each handler socket\<close>
  cancelled :: "nat set"                \<comment> \<open>the handlers \<open>pthread_cancel\<close> was called for\<close>
  threads :: "nat \<Rightarrow> handler_pc"
  joined :: "nat list"                  \<comment> \<open>the threads the cleanup has joined, in order\<close>
  dispatch :: dispatch_pc
  cleanup :: cleanup_pc
  main_thread :: main_pc

definition StartingPort :: nat where
  "StartingPort = 8080"

definition server_new :: server where
  "server_new = \<lparr>Handlers = {}, Joinables = [], DoShutdown = False, CurrentId = 0,
     CurrentPort = StartingPort, ports = [], cancelled = {}, threads = (\<lambda>_. TNone), joined = [],
     dispatch = DLoop, cleanup = CTest, main_thread = MTest\<rparr>"

section \<open>The steps\<close>

text \<open>
  \<open>CreateHandlerSocket\<close>: the counter goes up before each attempt; \<open>failures\<close> attempts fail.  The
  port is the counter in the sixteen bits of \<open>sin_port\<close>.
\<close>

definition CreateHandlerSocket :: "nat \<Rightarrow> server \<Rightarrow> nat \<times> server" where
  "CreateHandlerSocket failures s =
     (let p = CurrentPort s + Suc failures in (p mod 65536, s\<lparr>CurrentPort := p\<rparr>))"

datatype server_event =
    Accepts nat            \<comment> \<open>the dispatch accepts, with so many failed attempts for a port\<close>
  | AcceptFails
  | Inserts
  | Dispatches             \<comment> \<open>the next step of the loop test or of \<open>readyCond.wait\<close>\<close>
  | Hello bool             \<comment> \<open>\<open>hello.Send\<close>, and whether it succeeds\<close>
  | DispatchUnwinds        \<comment> \<open>the cancellation reaches the dispatch thread\<close>
  | PortUnwinds nat        \<comment> \<open>the same in the \<open>sleep(1)\<close> after so many failed attempts and one more\<close>
  | SpawnFails nat         \<comment> \<open>the same as \<open>Accepts\<close>, but \<open>std::thread\<close> throws: there is no thread\<close>
  | Handler nat            \<comment> \<open>the next step of a handler thread\<close>
  | Cleans                 \<comment> \<open>the next step of the cleanup thread\<close>
  | Signal                 \<comment> \<open>\<open>SIGTERM\<close> or \<open>SIGINT\<close>\<close>
  | MainGoes               \<comment> \<open>the next step of the main thread\<close>

definition set_thread :: "nat \<Rightarrow> handler_pc \<Rightarrow> server \<Rightarrow> server" where
  "set_thread i p s = s\<lparr>threads := (threads s)(i := p)\<rparr>"

text \<open>\<open>ReadyToJoin.notify_all()\<close>.\<close>

definition notify_cleanup :: "server \<Rightarrow> server" where
  "notify_cleanup s = (if cleanup s = CBlocked then s\<lparr>cleanup := CTest\<rparr> else s)"

text \<open>The dispatch thread.\<close>

fun dispatch_step :: "server_event \<Rightarrow> server \<Rightarrow> server option" where
  "dispatch_step (Accepts failures) s =
     (if dispatch s = DAccept then
        (let i = CurrentId s; (p, s1) = CreateHandlerSocket failures (s\<lparr>CurrentId := Suc i\<rparr>) in
         Some (set_thread i TStarted (s1\<lparr>ports := ports s1 @ [(i, p)], dispatch := DSpawned i\<rparr>)))
      else None)"
| "dispatch_step AcceptFails s = (if dispatch s = DAccept then Some (s\<lparr>dispatch := DStopped\<rparr>) else None)"
| "dispatch_step Inserts s = (case dispatch s of
      DSpawned i \<Rightarrow>
        if cleanup s = CFalling then None else Some (s\<lparr>Handlers := insert i (Handlers s), dispatch := DTest i\<rparr>)
    | _ \<Rightarrow> None)"
| "dispatch_step Dispatches s = (case dispatch s of
      DLoop \<Rightarrow> Some (s\<lparr>dispatch := (if DoShutdown s then DStopped else DAccept)\<rparr>)
    | DTest i \<Rightarrow> Some (s\<lparr>dispatch := (if threads s i = TStarted then DFalling i else DHello i)\<rparr>)
    | DFalling i \<Rightarrow> Some (s\<lparr>dispatch := DBlocked i\<rparr>)
    | _ \<Rightarrow> None)"
| "dispatch_step (Hello ok) s = (case dispatch s of
      DHello i \<Rightarrow> Some (s\<lparr>dispatch := (if ok then DLoop else DStopped)\<rparr>)
    | _ \<Rightarrow> None)"
| "dispatch_step DispatchUnwinds s =
     (if main_thread s = MJoinDispatch then
        (case dispatch s of
           DAccept \<Rightarrow> Some (s\<lparr>dispatch := DStopped\<rparr>)
         | DFalling i \<Rightarrow> Some (s\<lparr>dispatch := DStopped\<rparr>)
         | DBlocked i \<Rightarrow> Some (s\<lparr>dispatch := DStopped\<rparr>)
         | DHello i \<Rightarrow> Some (s\<lparr>dispatch := DStopped\<rparr>)
         | _ \<Rightarrow> None)
      else None)"
| "dispatch_step (PortUnwinds failures) s =
     (if main_thread s = MJoinDispatch \<and> dispatch s = DAccept then
        Some ((snd (CreateHandlerSocket failures (s\<lparr>CurrentId := Suc (CurrentId s)\<rparr>)))\<lparr>dispatch := DStopped\<rparr>)
      else None)"
| "dispatch_step (SpawnFails failures) s =
     (if dispatch s = DAccept then
        Some ((snd (CreateHandlerSocket failures (s\<lparr>CurrentId := Suc (CurrentId s)\<rparr>)))\<lparr>dispatch := DStopped\<rparr>)
      else None)"
| "dispatch_step e s = None"

text \<open>
  A handler thread: \<open>ready = true\<close>, the notification, and at its end (whatever the reason) the
  deferred push under \<open>JoinablesMutex\<close> with its notification.
\<close>

definition handler_step :: "nat \<Rightarrow> server \<Rightarrow> server option" where
  "handler_step i s = (case threads s i of
      TStarted \<Rightarrow> Some (set_thread i TFlagged s)
    | TFlagged \<Rightarrow> Some (set_thread i TServing
        (if dispatch s = DBlocked i then s\<lparr>dispatch := DTest i\<rparr> else s))
    | TServing \<Rightarrow>
        if cleanup s = CFalling then None
        else Some (notify_cleanup (set_thread i TPushed (s\<lparr>Joinables := Joinables s @ [i]\<rparr>)))
    | _ \<Rightarrow> None)"

text \<open>The cleanup thread; \<open>drain\<close> is the inner loop.\<close>

fun drain :: "nat list \<Rightarrow> server \<Rightarrow> server" where
  "drain [] s = s"
| "drain (i # js) s =
     (if i \<in> Handlers s
      then drain js (s\<lparr>Handlers := Handlers s - {i}, Joinables := js, joined := joined s @ [i]\<rparr>)
      else s\<lparr>cleanup := CCrashed\<rparr>)"

definition cleanup_step :: "server \<Rightarrow> server option" where
  "cleanup_step s = (case cleanup s of
      CTest \<Rightarrow>
        if Joinables s \<noteq> [] \<or> DoShutdown s then
          (if DoShutdown s \<and> Handlers s = {} then Some (s\<lparr>cleanup := CDone\<rparr>)
           else Some (drain (Joinables s) s))
        else Some (s\<lparr>cleanup := CFalling\<rparr>)
    | CFalling \<Rightarrow> Some (s\<lparr>cleanup := CBlocked\<rparr>)
    | _ \<Rightarrow> None)"

text \<open>The main thread after the threads were started.\<close>

definition main_step :: "server \<Rightarrow> server option" where
  "main_step s = (case main_thread s of
      MTest \<Rightarrow> Some (s\<lparr>main_thread := (if DoShutdown s then MJoinDispatch else MFalling)\<rparr>)
    | MFalling \<Rightarrow> Some (s\<lparr>main_thread := MPause\<rparr>)
    | MPause \<Rightarrow> None
    | MJoinDispatch \<Rightarrow> if dispatch s = DStopped then Some (s\<lparr>main_thread := MCancelHandlers\<rparr>) else None
    | MCancelHandlers \<Rightarrow> Some (s\<lparr>cancelled := Handlers s, main_thread := MNotify\<rparr>)
    | MNotify \<Rightarrow> Some (notify_cleanup (s\<lparr>main_thread := MJoinCleanup\<rparr>))
    | MJoinCleanup \<Rightarrow> if cleanup s = CDone then Some (s\<lparr>main_thread := MDone\<rparr>) else None
    | MDone \<Rightarrow> None)"

text \<open>
  The signal handler that \<open>Run\<close> installs, executed by the main thread.  It makes \<open>pause\<close> return when
  the thread is in it, and only then: a signal between the test and \<open>pause\<close> does not keep the thread
  from waiting.
\<close>

definition take_signal :: "server \<Rightarrow> server" where
  "take_signal s = s\<lparr>DoShutdown := True,
     main_thread := (if main_thread s = MPause then MTest else main_thread s)\<rparr>"

text \<open>One step of the process; a terminated process takes none.\<close>

definition server_next :: "server_event \<Rightarrow> server \<Rightarrow> server option" where
  "server_next e s =
     (if cleanup s = CCrashed then None
      else (case e of
        Handler i \<Rightarrow> handler_step i s
      | Cleans \<Rightarrow> cleanup_step s
      | Signal \<Rightarrow> Some (take_signal s)
      | MainGoes \<Rightarrow> main_step s
      | _ \<Rightarrow> dispatch_step e s))"

inductive server_step :: "server \<Rightarrow> server \<Rightarrow> bool" where
  event: "server_next e s = Some t \<Longrightarrow> server_step s t"

lemma server_reach:
  "run_schedule server_next es s = Some t \<Longrightarrow> reach s0 server_step s \<Longrightarrow> reach s0 server_step t"
  by (rule run_schedule_reach [of server_next server_step]) (blast intro: server_step.event)

section \<open>The invariant of the registry\<close>

text \<open>
  Every thread that was started is registered, joined, or about to be registered, and these are
  exclusive; the queue holds exactly the threads that have ended and are not joined, once each.
\<close>

definition registry_inv :: "server \<Rightarrow> bool" where
  "registry_inv s \<longleftrightarrow>
     (\<forall>i. CurrentId s \<le> i \<longrightarrow> threads s i = TNone) \<and>
     Handlers s \<union> set (joined s) \<union> {i. dispatch s = DSpawned i} = {i. threads s i \<noteq> TNone} \<and>
     Handlers s \<inter> set (joined s) = {} \<and>
     (\<forall>i. dispatch s = DSpawned i \<longrightarrow> i \<notin> Handlers s \<and> i \<notin> set (joined s)) \<and>
     distinct (joined s) \<and> distinct (Joinables s) \<and>
     (\<forall>i. i \<in> set (Joinables s) \<union> set (joined s) \<longleftrightarrow> threads s i = TPushed) \<and>
     set (Joinables s) \<inter> set (joined s) = {}"

text \<open>The counter of the ports, and the ports handed out.\<close>

definition port_inv :: "server \<Rightarrow> bool" where
  "port_inv s \<longleftrightarrow> StartingPort \<le> CurrentPort s \<and>
     distinct (map fst (ports s)) \<and> fst ` set (ports s) = {i. threads s i \<noteq> TNone} \<and>
     (\<forall>i. CurrentId s \<le> i \<longrightarrow> threads s i = TNone) \<and>
     (CurrentPort s < 65536 \<longrightarrow>
        sorted_wrt (<) (StartingPort # map snd (ports s)) \<and> (\<forall>p \<in> set (ports s). snd p \<le> CurrentPort s))"

definition server_inv :: "server \<Rightarrow> bool" where
  "server_inv s \<longleftrightarrow> registry_inv s \<and> port_inv s"

section \<open>The invariant is kept\<close>

lemma drain_frame [simp]:
  "threads (drain js s) = threads s" "CurrentId (drain js s) = CurrentId s"
  "dispatch (drain js s) = dispatch s" "CurrentPort (drain js s) = CurrentPort s"
  "ports (drain js s) = ports s" "main_thread (drain js s) = main_thread s"
  by (induction js s rule: drain.induct) auto

lemma registry_inv_drain:
  "registry_inv s \<Longrightarrow> Joinables s = js \<Longrightarrow> registry_inv (drain js s)"
proof (induction js s rule: drain.induct)
  case (2 i js s)
  show ?case
  proof (cases "i \<in> Handlers s")
    case True
    let ?t = "s\<lparr>Handlers := Handlers s - {i}, Joinables := js, joined := joined s @ [i]\<rparr>"
    have "registry_inv ?t" using "2.prems" True unfolding registry_inv_def by (auto; blast)
    with "2.IH" [OF True] True show ?thesis by simp
  qed (use 2 in \<open>simp add: registry_inv_def\<close>)
qed simp

lemmas registry_defs = registry_inv_def notify_cleanup_def set_thread_def

lemma registry_inv_cong:
  "registry_inv s \<Longrightarrow> threads t = threads s \<Longrightarrow> CurrentId t = CurrentId s \<Longrightarrow> Handlers t = Handlers s \<Longrightarrow>
   joined t = joined s \<Longrightarrow> Joinables t = Joinables s \<Longrightarrow>
   (\<And>i. dispatch t = DSpawned i \<longleftrightarrow> dispatch s = DSpawned i) \<Longrightarrow> registry_inv t"
  by (simp add: registry_inv_def)

lemma registry_inv_dispatch:
  assumes "registry_inv s" and "dispatch_step e s = Some t"
  shows "registry_inv t"
proof (cases e)
  case (Accepts n)
  with assms(2) have d: "dispatch s = DAccept" and
    t: "t = set_thread (CurrentId s) TStarted (s\<lparr>CurrentId := Suc (CurrentId s),
          CurrentPort := CurrentPort s + Suc n,
          ports := ports s @ [(CurrentId s, (CurrentPort s + Suc n) mod 65536)], dispatch := DSpawned (CurrentId s)\<rparr>)"
    by (auto simp: CreateHandlerSocket_def Let_def split: if_splits)
  have new: "threads s (CurrentId s) = TNone" using assms(1) unfolding registry_inv_def by blast
  then have sub: "CurrentId s \<notin> Handlers s" "CurrentId s \<notin> set (joined s)" "CurrentId s \<notin> set (Joinables s)"
    using assms(1) unfolding registry_inv_def by (blast, blast, metis UnCI handler_pc.distinct(7))
  show ?thesis
    using assms(1) d sub new unfolding t registry_defs by (auto; blast)
next
  case (PortUnwinds n)
  with assms show ?thesis by (auto simp: registry_inv_def CreateHandlerSocket_def Let_def split: if_splits)
next
  case (SpawnFails n)
  with assms show ?thesis by (auto simp: registry_inv_def CreateHandlerSocket_def Let_def split: if_splits)
next
  case Inserts
  with assms obtain i where i: "dispatch s = DSpawned i" "t = s\<lparr>Handlers := insert i (Handlers s), dispatch := DTest i\<rparr>"
    by (auto split: dispatch_pc.splits if_splits)
  with assms(1) show ?thesis unfolding registry_inv_def by auto
qed (use assms in \<open>auto elim!: registry_inv_cong split: dispatch_pc.splits if_splits\<close>)

lemma registry_inv_threads:
  assumes "registry_inv s" and "threads s i \<noteq> TNone" and "p \<noteq> TNone"
    and "threads s i \<noteq> TPushed" and "\<And>j. threads t j = (if j = i then p else threads s j)"
    and "if p = TPushed then Joinables t = Joinables s @ [i] else Joinables t = Joinables s"
    and "CurrentId t = CurrentId s" "Handlers t = Handlers s" "joined t = joined s"
    and "\<And>j. dispatch t = DSpawned j \<longleftrightarrow> dispatch s = DSpawned j"
  shows "registry_inv t"
proof -
  have out: "i \<notin> set (Joinables s)" "i \<notin> set (joined s)"
    using assms(1,4) unfolding registry_inv_def by blast+
  have dist: "distinct (Joinables t)" using assms(1,6) out unfolding registry_inv_def by (auto split: if_splits)
  have mem: "set (Joinables t) = (if p = TPushed then insert i (set (Joinables s)) else set (Joinables s))"
    using assms(6) by (auto split: if_splits)
  have none: "threads t j = TNone \<longleftrightarrow> threads s j = TNone" for j
    using assms(2,3,5) by auto
  have push: "j \<in> set (Joinables t) \<union> set (joined s) \<longleftrightarrow> threads t j = TPushed" for j
    using assms(1,4,5) mem out unfolding registry_inv_def by (cases "j = i") auto
  have "set (Joinables t) \<inter> set (joined s) = {}"
    using assms(1) mem out unfolding registry_inv_def by auto
  then show ?thesis
    using assms(1) dist push unfolding registry_inv_def assms(7-10) none by blast
qed

lemma registry_inv_handler:
  assumes "registry_inv s" and "handler_step i s = Some t"
  shows "registry_inv t"
proof (cases "threads s i")
  case TStarted
  with assms show ?thesis
    by (intro registry_inv_threads [OF assms(1), of i TFlagged]) (auto simp: handler_step_def set_thread_def)
next
  case TFlagged
  with assms show ?thesis
    by (intro registry_inv_threads [OF assms(1), of i TServing])
      (auto simp: handler_step_def set_thread_def split: if_splits)
next
  case TServing
  with assms show ?thesis
    by (intro registry_inv_threads [OF assms(1), of i TPushed])
      (auto simp: handler_step_def set_thread_def notify_cleanup_def split: if_splits)
qed (use assms in \<open>simp_all add: handler_step_def\<close>)

lemma registry_inv_cleanup:
  assumes "registry_inv s" and "cleanup_step s = Some t"
  shows "registry_inv t"
proof (cases "t = drain (Joinables s) s")
  case True
  then show ?thesis using registry_inv_drain [OF assms(1)] by simp
next
  case False
  with assms(2) obtain p where "t = s\<lparr>cleanup := p\<rparr>"
    by (auto simp: cleanup_step_def split: cleanup_pc.splits if_splits)
  with assms(1) show ?thesis by (simp add: registry_inv_def)
qed

lemma registry_inv_main:
  "registry_inv s \<Longrightarrow> main_step s = Some t \<Longrightarrow> registry_inv t"
  by (auto simp: main_step_def notify_cleanup_def elim!: registry_inv_cong
      split: main_pc.splits if_splits)

lemma port_inv_cong:
  "port_inv s \<Longrightarrow> CurrentId t = CurrentId s \<Longrightarrow> CurrentPort t = CurrentPort s \<Longrightarrow> ports t = ports s \<Longrightarrow>
   (\<And>i. threads t i = TNone \<longleftrightarrow> threads s i = TNone) \<Longrightarrow> port_inv t"
  by (simp add: port_inv_def)

lemma port_frame:
  "handler_step i s = Some t \<Longrightarrow> CurrentId t = CurrentId s \<and> CurrentPort t = CurrentPort s \<and> ports t = ports s \<and>
     (\<forall>j. threads t j = TNone \<longleftrightarrow> threads s j = TNone)"
  "cleanup_step s = Some t \<Longrightarrow> CurrentId t = CurrentId s \<and> CurrentPort t = CurrentPort s \<and> ports t = ports s \<and>
     (\<forall>j. threads t j = TNone \<longleftrightarrow> threads s j = TNone)"
  "main_step s = Some t \<Longrightarrow> CurrentId t = CurrentId s \<and> CurrentPort t = CurrentPort s \<and> ports t = ports s \<and>
     (\<forall>j. threads t j = TNone \<longleftrightarrow> threads s j = TNone)"
  by (auto simp: handler_step_def cleanup_step_def main_step_def notify_cleanup_def set_thread_def
      split: if_splits handler_pc.splits cleanup_pc.splits main_pc.splits)

text \<open>A socket was made, and no thread got it.\<close>

lemma port_inv_abandon:
  assumes "port_inv s"
  shows "port_inv (s\<lparr>CurrentId := Suc (CurrentId s), CurrentPort := Suc (CurrentPort s + n), dispatch := DStopped\<rparr>)"
proof -
  have "\<forall>p \<in> set (ports s). snd p \<le> Suc (CurrentPort s + n)" if "Suc (CurrentPort s + n) < 65536"
    using assms that unfolding port_inv_def by (fastforce intro: le_SucI trans_le_add1)
  then show ?thesis using assms unfolding port_inv_def by simp
qed

lemma port_inv_dispatch:
  assumes "port_inv s" and "dispatch_step e s = Some t"
  shows "port_inv t"
proof (cases e)
  case (Accepts n)
  then have t: "t = set_thread (CurrentId s) TStarted (s\<lparr>CurrentId := Suc (CurrentId s),
      CurrentPort := CurrentPort s + Suc n,
      ports := ports s @ [(CurrentId s, (CurrentPort s + Suc n) mod 65536)], dispatch := DSpawned (CurrentId s)\<rparr>)"
    using assms(2) by (auto simp: CreateHandlerSocket_def Let_def split: if_splits)
  have new: "CurrentId s \<notin> fst ` set (ports s)" using assms(1) by (auto simp: port_inv_def)
  show ?thesis
    using assms(1) new unfolding t
    by (auto simp: port_inv_def set_thread_def sorted_wrt_append)
next
  case (PortUnwinds n)
  with assms port_inv_abandon [of s n] show ?thesis by (auto simp: CreateHandlerSocket_def Let_def split: if_splits)
next
  case (SpawnFails n)
  with assms port_inv_abandon [of s n] show ?thesis by (auto simp: CreateHandlerSocket_def Let_def split: if_splits)
qed (use assms in \<open>auto elim!: port_inv_cong split: dispatch_pc.splits if_splits\<close>)

lemma registry_inv_signal: "registry_inv s \<Longrightarrow> registry_inv (take_signal s)"
  by (simp add: registry_inv_def take_signal_def)

lemma port_inv_signal: "port_inv s \<Longrightarrow> port_inv (take_signal s)"
  by (simp add: port_inv_def take_signal_def)

lemma server_step_cases:
  assumes "server_step s t"
  obtains e where "dispatch_step e s = Some t" | i where "handler_step i s = Some t"
    | "cleanup_step s = Some t" | "main_step s = Some t" | "t = take_signal s"
proof -
  obtain e where "server_next e s = Some t" using assms by (auto elim: server_step.cases)
  then have "dispatch_step e s = Some t \<or> (\<exists>i. handler_step i s = Some t) \<or> cleanup_step s = Some t \<or>
      main_step s = Some t \<or> t = take_signal s"
    by (auto simp: server_next_def split: if_splits server_event.splits)
  then show ?thesis using that by blast
qed

lemma server_inv_step:
  assumes "server_step s t" and "server_inv s"
  shows "server_inv t"
proof -
  have reg: "registry_inv s" and prt: "port_inv s" using assms(2) by (simp_all add: server_inv_def)
  show ?thesis using assms(1)
  proof (cases rule: server_step_cases)
    case (1 e)
    with reg prt show ?thesis
      by (auto simp: server_inv_def intro: registry_inv_dispatch port_inv_dispatch)
  qed (use reg prt in \<open>auto simp: server_inv_def dest: port_frame intro: registry_inv_handler registry_inv_cleanup
        registry_inv_main registry_inv_signal port_inv_signal port_inv_cong\<close>)
qed

lemma server_inv_new: "server_inv server_new"
  by (simp add: server_inv_def registry_inv_def port_inv_def server_new_def lessThan_0)

interpretation server_threads: invariant_system "\<lambda>s. s = server_new" server_step server_inv
  by unfold_locales (auto simp: server_inv_new intro: server_inv_step)

section \<open>The hello comes after the handler is ready\<close>

definition hello_inv :: "server \<Rightarrow> bool" where
  "hello_inv s \<longleftrightarrow>
     (\<forall>i. dispatch s \<in> {DSpawned i, DTest i, DFalling i, DBlocked i} \<longrightarrow> threads s i \<noteq> TNone) \<and>
     (\<forall>i. dispatch s = DHello i \<longrightarrow> threads s i \<noteq> TNone \<and> threads s i \<noteq> TStarted)"

lemma hello_inv_cong:
  "hello_inv s \<Longrightarrow> threads t = threads s \<Longrightarrow> dispatch t = dispatch s \<or> dispatch t = DStopped \<Longrightarrow> hello_inv t"
  by (auto simp: hello_inv_def)

lemma hello_inv_step:
  assumes "server_step s t" and "hello_inv s"
  shows "hello_inv t"
  using assms(1)
proof (cases rule: server_step_cases)
  case (1 e)
  with assms(2) show ?thesis
    by (cases e) (auto simp: hello_inv_def CreateHandlerSocket_def Let_def set_thread_def
        split: if_splits dispatch_pc.splits)
next
  case (2 i)
  with assms(2) show ?thesis
    by (auto simp: hello_inv_def handler_step_def set_thread_def notify_cleanup_def split: handler_pc.splits if_splits)
qed (use assms(2) in \<open>auto elim!: hello_inv_cong simp: cleanup_step_def main_step_def notify_cleanup_def take_signal_def
      split: cleanup_pc.splits main_pc.splits if_splits\<close>)

lemma hello_inv_new: "hello_inv server_new"
  by (simp add: hello_inv_def server_new_def)

interpretation hello: invariant_system "\<lambda>s. s = server_new" server_step hello_inv
  by unfold_locales (auto simp: hello_inv_new intro: hello_inv_step)

section \<open>Properties\<close>

text \<open>A run of the server from its start.\<close>

definition server_after :: "server_event list \<Rightarrow> server" where
  "server_after es = the (run_schedule server_next es server_new)"

lemma server_after_reach:
  "run_schedule server_next es server_new \<noteq> None \<Longrightarrow> reach server_new server_step (server_after es)"
  unfolding server_after_def by (auto intro: server_reach reach_init)

text \<open>The definitions that evaluate a run.\<close>

lemmas server_eval = server_after_def server_new_def server_next_def handler_step_def cleanup_step_def
  main_step_def take_signal_def notify_cleanup_def set_thread_def CreateHandlerSocket_def Let_def StartingPort_def

text \<open>
  C14: No thread is lost and none is joined twice.  In every reachable state each handler thread that
  was ever started is in exactly one place: registered in \<open>Handlers\<close>, joined by the cleanup, or
  just started by the dispatch and about to be registered; every joined thread has ended.
\<close>

theorem threads_accounted_for:
  assumes "reach server_new server_step s"
  shows "Handlers s \<union> set (joined s) \<union> {i. dispatch s = DSpawned i} = {i. threads s i \<noteq> TNone} \<and>
    Handlers s \<inter> set (joined s) = {} \<and>
    (\<forall>i. dispatch s = DSpawned i \<longrightarrow> i \<notin> Handlers s \<and> i \<notin> set (joined s)) \<and>
    distinct (joined s) \<and> (\<forall>i. i \<in> set (joined s) \<longrightarrow> threads s i = TPushed)"
  using server_threads.reachable_inv [OF refl assms] unfolding server_inv_def registry_inv_def by auto

definition one_client :: "server_event list" where
  "one_client = [Dispatches, Accepts 0, Inserts, Dispatches, Dispatches, Handler 0, Handler 0, Dispatches,
     Hello True, Cleans, Cleans, Handler 0, Cleans]"

theorem threads_accounted_for_witness:
  "Handlers (server_after one_client) \<union> {0} = {i. threads (server_after one_client) i \<noteq> TNone} \<and> joined (server_after one_client) = [0] \<and>
   threads (server_after one_client) 0 = TPushed"
proof -
  have "run_schedule server_next one_client server_new \<noteq> None" by (simp add: server_eval one_client_def)
  note inv = threads_accounted_for [OF server_after_reach [OF this]]
  moreover have "joined (server_after one_client) = [0]" by (simp add: server_eval one_client_def)
  moreover have "dispatch (server_after one_client) = DLoop" by (simp add: server_eval one_client_def)
  ultimately show ?thesis by simp
qed

text \<open>
  As long as the port counter has not left the sixteen bits of a port number, every handler
  thread that was started listens on a port of its own, above the starting port 8080.
\<close>

lemma handler_ports_distinct:
  assumes "reach server_new server_step s" and "CurrentPort s < 65536"
  shows "distinct (map snd (ports s)) \<and> (\<forall>p \<in> set (ports s). 8080 < snd p) \<and>
    distinct (map fst (ports s)) \<and> fst ` set (ports s) = {i. threads s i \<noteq> TNone}"
proof -
  have inv: "port_inv s" using server_threads.reachable_inv [OF refl assms(1)] by (simp add: server_inv_def)
  then have "sorted_wrt (<) (StartingPort # map snd (ports s))" using assms(2) by (simp add: port_inv_def)
  then have "sorted_wrt (<) (map snd (ports s))" "\<forall>p \<in> set (ports s). 8080 < snd p"
    by (simp_all add: StartingPort_def)
  with inv show ?thesis using strict_sorted_iff by (auto simp: port_inv_def)
qed

text \<open>
  C36: The cleanup can crash only on a thread the dispatch has not registered yet: when \<open>Handlers.at\<close>
  throws, the queue holds the thread the dispatch has just started.
\<close>

theorem cleanup_crash_window:
  assumes "reach server_new server_step s" and "cleanup_step s = Some t" and "cleanup t = CCrashed"
  shows "\<exists>i. dispatch s = DSpawned i \<and> i \<in> set (Joinables s)"
proof -
  have inv: "registry_inv s" using server_threads.reachable_inv [OF refl assms(1)] by (simp add: server_inv_def)
  have crash: "cleanup (drain js u) = CCrashed \<Longrightarrow> cleanup u \<noteq> CCrashed \<Longrightarrow> distinct js \<Longrightarrow>
      \<exists>i \<in> set js. i \<notin> Handlers u" for js u
    by (induction js u rule: drain.induct) (auto split: if_splits)
  have "t = drain (Joinables s) s" "cleanup s = CTest"
    using assms(2,3) by (auto simp: cleanup_step_def split: cleanup_pc.splits if_splits)
  then obtain i where i: "i \<in> set (Joinables s)" "i \<notin> Handlers s"
    using crash [of "Joinables s" s] assms(3) inv by (auto simp: registry_inv_def)
  then have "i \<notin> set (joined s)" "threads s i = TPushed" using inv unfolding registry_inv_def by auto
  moreover from this(2) have "threads s i \<noteq> TNone" by simp
  ultimately have "dispatch s = DSpawned i" using inv i(2) unfolding registry_inv_def by blast
  with i(1) show ?thesis by blast
qed

definition hasty_handler :: "server_event list" where
  "hasty_handler = [Dispatches, Accepts 0, Handler 0, Handler 0, Handler 0]"

theorem cleanup_crash_window_witness:
  "cleanup (the (cleanup_step (server_after hasty_handler))) = CCrashed \<and>
   (\<exists>i. dispatch (server_after hasty_handler) = DSpawned i \<and> i \<in> set (Joinables (server_after hasty_handler)))"
proof -
  have 1: "run_schedule server_next hasty_handler server_new \<noteq> None" by (simp add: server_eval hasty_handler_def)
  have 2: "cleanup (the (cleanup_step (server_after hasty_handler))) = CCrashed" by (simp add: server_eval hasty_handler_def)
  have "cleanup_step (server_after hasty_handler) \<noteq> None" by (simp add: server_eval hasty_handler_def)
  then obtain t where "cleanup_step (server_after hasty_handler) = Some t" by blast
  with cleanup_crash_window [OF server_after_reach [OF 1]] 2 show ?thesis by simp
qed

definition lost_wakeup :: "server_event list" where
  "lost_wakeup = [Dispatches, Cleans, Signal, MainGoes, DispatchUnwinds, MainGoes, MainGoes, MainGoes, Cleans]"

text \<open>
  C37: A shutdown can hang.  The main thread notifies the cleanup without holding \<open>JoinablesMutex\<close>;
  when the notification falls between the cleanup's test of its predicate and its wait, it is
  lost: there is a reachable state without any handler in which the main thread waits for the
  cleanup, the cleanup waits for a notification, and no step changes anything.
\<close>

theorem shutdown_can_hang:
  "\<exists>s. reach server_new server_step s \<and> DoShutdown s \<and> main_thread s = MJoinCleanup \<and> cleanup s = CBlocked \<and>
     {t. server_step s t} = {s}"
proof -
  let ?s = "server_after lost_wakeup"
  have run: "run_schedule server_next lost_wakeup server_new \<noteq> None" by (simp add: server_eval lost_wakeup_def)
  have f: "DoShutdown ?s" "main_thread ?s = MJoinCleanup" "cleanup ?s = CBlocked" "dispatch ?s = DStopped"
    "CurrentId ?s = 0"
    by (simp_all add: server_eval lost_wakeup_def)
  have inv: "registry_inv ?s"
    using server_threads.reachable_inv [OF refl server_after_reach [OF run]] by (simp add: server_inv_def)
  have none: "threads ?s i = TNone" for i using inv f(5) unfolding registry_inv_def by simp
  have "t = ?s" if "server_next e ?s = Some t" for e t
    using that f none
    by (cases e) (auto simp: server_next_def handler_step_def cleanup_step_def main_step_def take_signal_def)
  moreover have "server_next Signal ?s = Some ?s" using f by (simp add: server_next_def take_signal_def)
  ultimately have "{t. server_step ?s t} = {?s}" by (auto elim: server_step.cases intro: server_step.event)
  then show ?thesis using f(1-3) server_after_reach [OF run] by blast
qed

definition late_client :: "server_event list" where
  "late_client = [Dispatches, Signal, Cleans, Accepts 0, Inserts, MainGoes, Handler 0, Handler 0, Dispatches,
     DispatchUnwinds, MainGoes, MainGoes, MainGoes, MainGoes]"

text \<open>
  A shutdown can leave a thread behind.  The cleanup ends as soon as it sees \<open>DoShutdown\<close> and no
  registered handler, while the dispatch may still be accepting: there is a reachable state in
  which the main thread is done and a handler thread is still registered and was never joined.
\<close>

lemma shutdown_can_leave_thread:
  "\<exists>s i. reach server_new server_step s \<and> main_thread s = MDone \<and> i \<in> Handlers s \<and> threads s i = TServing"
proof -
  have run: "run_schedule server_next late_client server_new \<noteq> None" by (simp add: server_eval late_client_def)
  moreover have "main_thread (server_after late_client) = MDone" by (simp add: server_eval late_client_def)
  moreover have "0 \<in> Handlers (server_after late_client)" by (simp add: server_eval late_client_def)
  moreover have "threads (server_after late_client) 0 = TServing" by (simp add: server_eval late_client_def)
  ultimately show ?thesis using server_after_reach by blast
qed

text \<open>
  The handler thread refers to \<open>ready\<close> and \<open>readyCond\<close>, locals of an iteration of the dispatch.  It can
  use them after the iteration is over: it has set the flag and not notified yet when the dispatch sees
  the flag, sends the hello and goes on.
\<close>

lemma handler_outlives_ready:
  "\<exists>s. reach server_new server_step s \<and> threads s 0 = TFlagged \<and> dispatch s = DLoop"
proof -
  let ?es = "[Dispatches, Accepts 0, Inserts, Handler 0, Dispatches, Hello True]"
  have "run_schedule server_next ?es server_new \<noteq> None" by (simp add: server_eval)
  moreover have "threads (server_after ?es) 0 = TFlagged" "dispatch (server_after ?es) = DLoop"
    by (simp_all add: server_eval)
  ultimately show ?thesis using server_after_reach by blast
qed

text \<open>A dispatch that sleeps on a handler which has notified it already.\<close>

definition stalled :: "nat \<Rightarrow> server \<Rightarrow> bool" where
  "stalled i s \<longleftrightarrow> dispatch s = DBlocked i \<and> threads s i \<in> {TServing, TPushed} \<and> \<not> DoShutdown s \<and>
     main_thread s \<in> {MTest, MFalling, MPause}"

lemma drain_stalled [simp]: "stalled i (drain js s) = stalled i s"
  by (induction js s rule: drain.induct) (auto simp: stalled_def)

lemma stalled_next:
  assumes "stalled i s" and "server_next e s = Some t" and "e \<noteq> Signal"
  shows "stalled i t"
proof (cases "cleanup_step s = Some t")
  case True
  then show ?thesis
    using assms(1) drain_stalled [of i "Joinables s" s]
    by (auto simp: cleanup_step_def stalled_def split: cleanup_pc.splits if_splits)
next
  case False
  with assms show ?thesis
    by (cases e) (auto simp: stalled_def server_next_def handler_step_def main_step_def set_thread_def
        notify_cleanup_def split: if_splits handler_pc.splits main_pc.splits)
qed

lemma stalled_run:
  assumes "run_schedule server_next es s = Some t" and "stalled i s" and "Signal \<notin> set es"
  shows "stalled i t"
  by (rule run_schedule_keeps [of "stalled i" server_next "\<lambda>e. e \<noteq> Signal", OF _ assms(1,2)])
    (use assms(3) in \<open>auto intro: stalled_next\<close>)

definition lost_ready :: "server_event list" where
  "lost_ready = [Dispatches, Accepts 0, Inserts, Dispatches, Handler 0, Handler 0, Dispatches]"

text \<open>
  C38: The daemon can stall on a client.  A handler thread sets \<open>ready\<close> and notifies without holding
  \<open>readyMutex\<close>; when this falls between the test of \<open>ready\<close> and the wait of the dispatch, the
  notification is lost: there is a reachable state in which the handler waits for its client and the
  dispatch waits for the handler, and until a signal arrives it does so in every later state, so the
  client gets no hello and no other client is accepted.
\<close>

theorem dispatch_can_stall:
  "\<exists>s. reach server_new server_step s \<and> threads s 0 = TServing \<and> \<not> DoShutdown s \<and>
     {dispatch t |t es. Signal \<notin> set es \<and> run_schedule server_next es s = Some t} = {DBlocked 0}"
proof -
  let ?s = "server_after lost_ready"
  have run: "run_schedule server_next lost_ready server_new \<noteq> None" by (simp add: server_eval lost_ready_def)
  have s: "stalled 0 ?s" "threads ?s 0 = TServing" "\<not> DoShutdown ?s"
    by (simp_all add: stalled_def server_eval lost_ready_def)
  have "dispatch t = DBlocked 0" if "Signal \<notin> set es" "run_schedule server_next es ?s = Some t" for es t
    using stalled_run [OF that(2) s(1) that(1)] by (simp add: stalled_def)
  moreover have "Signal \<notin> set []" "run_schedule server_next [] ?s = Some ?s" by simp_all
  moreover have "dispatch ?s = DBlocked 0" using s(1) by (simp add: stalled_def)
  ultimately have "{dispatch t |t es. Signal \<notin> set es \<and> run_schedule server_next es ?s = Some t} = {DBlocked 0}"
    by (auto intro!: exI [of _ ?s] exI [of _ "[]"] simp: eq_commute [of "DBlocked 0"])
  then show ?thesis using s(2,3) server_after_reach [OF run] by blast
qed

end
