(* ===== verification/Server_Shutdown.thy ===== *)
theory Server_Shutdown
  imports Server_Threads
begin

text \<open>
  The shutdown of the server: what happens after \<open>DoShutdown\<close> is set (\<open>Run\<close>, \<open>CleanupRoutine\<close>,
  \<open>DispatchRoutine\<close> and \<open>HandlerRoutine\<close> of \<open>Src/Server.cpp\<close>).

  While handlers are registered and none has ended, the cleanup thread does not wait: its predicate
  holds because of \<open>DoShutdown\<close>, its inner loop has nothing to do, and it starts over.  Such a step
  changes nothing.  A step that changes the state, with \<open>DoShutdown\<close> set, makes the measure
  \<open>shutdown_work\<close> smaller; so every run ends, and the states without a further change are
  classified.
\<close>

section \<open>The work that is left\<close>

fun dispatch_work :: "dispatch_pc \<Rightarrow> nat" where
  "dispatch_work DStopped = 0"
| "dispatch_work DLoop = 1"
| "dispatch_work (DHello i) = 2"
| "dispatch_work (DBlocked i) = 3"
| "dispatch_work (DFalling i) = 4"
| "dispatch_work (DTest i) = 5"
| "dispatch_work (DSpawned i) = 6"
| "dispatch_work DAccept = 13"

fun handler_work :: "handler_pc \<Rightarrow> nat" where
  "handler_work TNone = 0"
| "handler_work TPushed = 0"
| "handler_work TServing = 2"
| "handler_work TFlagged = 5"
| "handler_work TStarted = 6"

fun cleanup_work :: "cleanup_pc \<Rightarrow> nat" where
  "cleanup_work CDone = 0"
| "cleanup_work CCrashed = 0"
| "cleanup_work CTest = 1"
| "cleanup_work CBlocked = 2"
| "cleanup_work CFalling = 3"

fun main_work :: "main_pc \<Rightarrow> nat" where
  "main_work MDone = 0"
| "main_work MJoinCleanup = 1"
| "main_work MNotify = 2"
| "main_work MCancelHandlers = 3"
| "main_work MJoinDispatch = 4"
| "main_work MTest = 5"
| "main_work MPause = 6"
| "main_work MFalling = 7"

definition shutdown_work :: "server \<Rightarrow> nat" where
  "shutdown_work s = dispatch_work (dispatch s) + (\<Sum>i < CurrentId s. handler_work (threads s i)) +
     length (Joinables s) + cleanup_work (cleanup s) + main_work (main_thread s)"

section \<open>Every change is progress\<close>

lemma notify_cleanup_work:
  "cleanup_work (cleanup (notify_cleanup s)) \<le> cleanup_work (cleanup s)"
  by (simp add: notify_cleanup_def)

lemma notify_cleanup_frame [simp]:
  "dispatch (notify_cleanup s) = dispatch s" "threads (notify_cleanup s) = threads s"
  "CurrentId (notify_cleanup s) = CurrentId s" "Joinables (notify_cleanup s) = Joinables s"
  "main_thread (notify_cleanup s) = main_thread s" "Handlers (notify_cleanup s) = Handlers s"
  "DoShutdown (notify_cleanup s) = DoShutdown s" "joined (notify_cleanup s) = joined s"
  by (simp_all add: notify_cleanup_def)

lemma drain_work:
  assumes "cleanup s = CTest" and "Joinables s = js" and "js \<noteq> []"
  shows "length (Joinables (drain js s)) + cleanup_work (cleanup (drain js s)) < length js + 1"
  using assms
proof (induction js s rule: drain.induct)
  case (2 i js s)
  then show ?case by (cases "js = []") auto
qed simp

lemma sum_change:
  fixes f g :: "nat \<Rightarrow> nat"
  assumes "i < n" and "\<And>j. j \<noteq> i \<Longrightarrow> g j = f j"
  shows "(\<Sum>j < n. g j) + f i = (\<Sum>j < n. f j) + g i"
proof -
  have "(\<Sum>j < n. h j) = h i + (\<Sum>j \<in> {..<n} - {i}. h j)" for h :: "nat \<Rightarrow> nat"
    using assms(1) by (simp add: sum.remove)
  moreover have "(\<Sum>j \<in> {..<n} - {i}. g j) = (\<Sum>j \<in> {..<n} - {i}. f j)"
    using assms(2) by (intro sum.cong) auto
  ultimately show ?thesis by simp
qed

lemma dispatch_progress:
  assumes "registry_inv s" and "dispatch_step e s = Some t" and "DoShutdown s"
  shows "shutdown_work t < shutdown_work s"
proof (cases e)
  case (Accepts n)
  have new: "threads s (CurrentId s) = TNone" using assms(1) unfolding registry_inv_def by blast
  have "(\<Sum>i < CurrentId s. handler_work (((threads s)(CurrentId s := TStarted)) i)) =
      (\<Sum>i < CurrentId s. handler_work (threads s i))"
    by (intro sum.cong) auto
  with Accepts assms(2) new show ?thesis
    by (auto simp: CreateHandlerSocket_def Let_def shutdown_work_def set_thread_def split: if_splits)
next
  case (PortUnwinds n)
  have "threads s (CurrentId s) = TNone" using assms(1) unfolding registry_inv_def by blast
  with PortUnwinds assms(2) show ?thesis
    by (auto simp: CreateHandlerSocket_def Let_def shutdown_work_def split: if_splits)
next
  case (SpawnFails n)
  have "threads s (CurrentId s) = TNone" using assms(1) unfolding registry_inv_def by blast
  with SpawnFails assms(2) show ?thesis
    by (auto simp: CreateHandlerSocket_def Let_def shutdown_work_def split: if_splits)
qed (use assms in \<open>auto simp: shutdown_work_def split: dispatch_pc.splits if_splits\<close>)

lemma handler_progress:
  assumes "registry_inv s" and "handler_step i s = Some t"
  shows "shutdown_work t < shutdown_work s"
proof -
  have here: "threads s i \<noteq> TNone" using assms(2) by (auto simp: handler_step_def split: handler_pc.splits)
  then have lt: "i < CurrentId s" using assms(1) unfolding registry_inv_def by (meson not_le)
  have other: "threads t j = threads s j" if "j \<noteq> i" for j
    using assms(2) that by (auto simp: handler_step_def set_thread_def split: handler_pc.splits if_splits)
  have sum: "(\<Sum>j < CurrentId s. handler_work (threads t j)) + handler_work (threads s i) =
      (\<Sum>j < CurrentId s. handler_work (threads s j)) + handler_work (threads t i)"
    using sum_change [OF lt, of "\<lambda>j. handler_work (threads t j)" "\<lambda>j. handler_work (threads s j)"] other by simp
  have "dispatch_work (dispatch t) + handler_work (threads t i) + length (Joinables t) + cleanup_work (cleanup t) <
      dispatch_work (dispatch s) + handler_work (threads s i) + length (Joinables s) + cleanup_work (cleanup s)"
    and "CurrentId t = CurrentId s" "main_thread t = main_thread s"
    using assms(2) by (auto simp: handler_step_def set_thread_def notify_cleanup_def
        split: handler_pc.splits if_splits)
  with sum show ?thesis by (simp add: shutdown_work_def)
qed

lemma cleanup_progress:
  assumes "cleanup_step s = Some t" and "t \<noteq> s" and "DoShutdown s"
  shows "shutdown_work t < shutdown_work s"
proof (cases "cleanup s = CTest \<and> Handlers s \<noteq> {}")
  case True
  then have t: "t = drain (Joinables s) s" using assms by (auto simp: cleanup_step_def)
  then have "Joinables s \<noteq> []" using assms(2) by (cases "Joinables s") auto
  with drain_work [of s "Joinables s"] True show ?thesis unfolding t by (simp add: shutdown_work_def)
next
  case False
  with assms show ?thesis
    by (auto simp: cleanup_step_def shutdown_work_def split: cleanup_pc.splits if_splits)
qed

lemma main_progress:
  assumes "main_step s = Some t" and "DoShutdown s"
  shows "shutdown_work t < shutdown_work s"
  using assms notify_cleanup_work [of "s\<lparr>main_thread := MJoinCleanup\<rparr>"]
  by (auto simp: main_step_def shutdown_work_def split: main_pc.splits if_splits)


section \<open>The states at rest\<close>

text \<open>A thread that has not ended can take a step, when the cleanup is not between its test and its wait.\<close>

lemma handler_can_step:
  assumes "threads s i \<noteq> TNone" and "threads s i \<noteq> TPushed" and "cleanup s \<noteq> CFalling"
  shows "\<exists>t. handler_step i s = Some t"
  using assms by (cases "threads s i") (auto simp: handler_step_def)

lemma dispatch_can_step:
  assumes "dispatch s \<noteq> DStopped" and "main_thread s = MJoinDispatch" and "cleanup s \<noteq> CFalling"
  shows "\<exists>e t. dispatch_step e s = Some t"
proof -
  from assms have "dispatch_step DispatchUnwinds s \<noteq> None \<or> dispatch_step Dispatches s \<noteq> None \<or>
      dispatch_step Inserts s \<noteq> None"
    by (cases "dispatch s") auto
  then show ?thesis by blast
qed

lemma signal_progress:
  assumes "take_signal s \<noteq> s" and "DoShutdown s"
  shows "shutdown_work (take_signal s) < shutdown_work s"
  using assms by (cases "main_thread s = MPause") (simp_all add: take_signal_def shutdown_work_def)

text \<open>In a state at rest no step of any thread changes anything, unless another signal arrives.\<close>

definition at_rest :: "server \<Rightarrow> bool" where
  "at_rest s \<longleftrightarrow> (\<forall>e t. e \<noteq> Signal \<longrightarrow> server_next e s = Some t \<longrightarrow> t = s)"

lemma at_rest_steps:
  assumes "at_rest s" and "registry_inv s" and "DoShutdown s" and "cleanup s \<noteq> CCrashed"
  shows "dispatch_step e s = None" "handler_step i s = None" "main_step s = None"
    "cleanup_step s = Some t \<Longrightarrow> t = s"
proof -
  have rest: "t = s" if "e \<noteq> Signal" "server_next e s = Some t" for e t
    using assms(1) that by (auto simp: at_rest_def)
  have stuck: "server_next e s \<noteq> Some t" if "e \<noteq> Signal" "shutdown_work t < shutdown_work s" for e t
    using rest [of e t] that by blast
  show "dispatch_step e s = None"
  proof (cases "dispatch_step e s")
    case (Some t)
    then have "server_next e s = Some t" "e \<noteq> Signal" using assms(4) by (cases e; simp add: server_next_def)+
    then show ?thesis using stuck dispatch_progress [OF assms(2) Some assms(3)] by blast
  qed
  show "handler_step i s = None"
  proof (cases "handler_step i s")
    case (Some t)
    then have "server_next (Handler i) s = Some t" using assms(4) by (simp add: server_next_def)
    then show ?thesis using stuck [of "Handler i" t] handler_progress [OF assms(2) Some] by simp
  qed
  show "main_step s = None"
  proof (cases "main_step s")
    case (Some t)
    then have "server_next MainGoes s = Some t" using assms(4) by (simp add: server_next_def)
    then show ?thesis using stuck [of MainGoes t] main_progress [OF Some assms(3)] by simp
  qed
  show "t = s" if "cleanup_step s = Some t"
    using rest [of Cleans t] that assms(4) by (simp add: server_next_def)
qed

lemma cleanup_rest:
  assumes "at_rest s" and "registry_inv s" and "DoShutdown s" and "cleanup s \<noteq> CCrashed"
  shows "cleanup s = CDone \<or> cleanup s = CBlocked"
proof (rule ccontr)
  note rest = at_rest_steps [OF assms]
  have same: "cleanup t = cleanup s" "shutdown_work t = shutdown_work s" if "cleanup_step s = Some t" for t
    using rest(4) [OF that] by simp_all
  assume "\<not> (cleanup s = CDone \<or> cleanup s = CBlocked)"
  then have test: "cleanup s = CTest"
    using same(1) [of "s\<lparr>cleanup := CBlocked\<rparr>"] assms(4) by (cases "cleanup s") (simp_all add: cleanup_step_def)
  have some: "Handlers s \<noteq> {}"
    using same(1) [of "s\<lparr>cleanup := CDone\<rparr>"] test assms(3) by (auto simp: cleanup_step_def)
  then obtain i where i: "i \<in> Handlers s" by blast
  then have out: "threads s i \<noteq> TNone" "i \<notin> set (joined s)" using assms(2) unfolding registry_inv_def by blast+
  then have "threads s i = TPushed" using handler_can_step [of s i] rest(2) [of i] test by force
  with out(2) have ne: "Joinables s \<noteq> []"
    using assms(2) unfolding registry_inv_def by (metis UnE empty_iff empty_set)
  have step: "cleanup_step s = Some (drain (Joinables s) s)" using test some assms(3) by (simp add: cleanup_step_def)
  show False using same(2) [OF step] drain_work [OF test refl ne] test by (simp add: shutdown_work_def)
qed

lemma rest_classified:
  assumes "at_rest s" and "registry_inv s" and "DoShutdown s"
  shows "main_thread s = MDone \<or> cleanup s = CCrashed \<or> main_thread s = MPause \<or>
    main_thread s = MJoinCleanup \<and> cleanup s = CBlocked"
proof (cases "cleanup s = CCrashed")
  case False
  note rest = at_rest_steps [OF assms False]
  have c: "cleanup s = CDone \<or> cleanup s = CBlocked" using cleanup_rest [OF assms False] .
  then have "dispatch s = DStopped" if "main_thread s = MJoinDispatch"
    using dispatch_can_step [OF _ that] rest(1) by force
  with c rest(3) assms(3) show ?thesis by (cases "main_thread s") (auto simp: main_step_def)
qed simp


section \<open>The shutdown as a system of its own\<close>

lemma drain_DoShutdown [simp]: "DoShutdown (drain js s) = DoShutdown s"
  by (induction js s rule: drain.induct) auto

lemma DoShutdown_stays:
  assumes "server_step s t" and "DoShutdown s"
  shows "DoShutdown t"
  using assms(1)
proof (cases rule: server_step_cases)
  case (1 e)
  with assms(2) show ?thesis
    by (cases e) (auto simp: CreateHandlerSocket_def Let_def set_thread_def split: if_splits dispatch_pc.splits)
qed (use assms(2) in \<open>auto simp: handler_step_def cleanup_step_def main_step_def take_signal_def set_thread_def
      split: handler_pc.splits cleanup_pc.splits main_pc.splits if_splits\<close>)

definition shutting_down :: "server \<Rightarrow> bool" where
  "shutting_down s \<longleftrightarrow> server_inv s \<and> DoShutdown s"

lemma shutdown_progress:
  assumes "server_step s t" and "shutting_down s" and "t \<noteq> s"
  shows "shutdown_work t < shutdown_work s"
  using assms(1)
proof (cases rule: server_step_cases)
  case 5
  with assms(2,3) signal_progress show ?thesis by (simp add: shutting_down_def)
qed (use assms(2,3) in \<open>auto simp: shutting_down_def server_inv_def
      intro: dispatch_progress handler_progress cleanup_progress main_progress\<close>)

interpretation shutdown: ranked_system shutting_down server_step shutting_down shutdown_work
  by unfold_locales (auto simp: shutting_down_def intro: server_inv_step DoShutdown_stays
      intro!: shutdown_progress)

text \<open>
  The cleanup hears of the shutdown: it is not between its test and its wait when \<open>DoShutdown\<close> is
  set, and while it waits the notification of the main thread is still to come.
\<close>

definition cleanup_hears :: "server \<Rightarrow> bool" where
  "cleanup_hears s \<longleftrightarrow> DoShutdown s \<and> cleanup s \<noteq> CFalling \<and>
     (cleanup s = CBlocked \<longrightarrow> main_thread s \<noteq> MJoinCleanup \<and> main_thread s \<noteq> MDone)"

lemma drain_cleanup: "cleanup (drain js s) = cleanup s \<or> cleanup (drain js s) = CCrashed"
  by (induction js s rule: drain.induct) auto

lemma cleanup_hears_step:
  assumes "server_step s t" and "cleanup_hears s"
  shows "cleanup_hears t"
  using assms(1)
proof (cases rule: server_step_cases)
  case (1 e)
  with assms(2) show ?thesis unfolding cleanup_hears_def
    by (cases e) (auto simp: CreateHandlerSocket_def Let_def set_thread_def split: if_splits dispatch_pc.splits)
next
  case 3
  with assms(2) drain_cleanup [of "Joinables s" s] show ?thesis unfolding cleanup_hears_def
    by (auto simp: cleanup_step_def split: cleanup_pc.splits if_splits)
qed (use assms(2) in \<open>auto simp: cleanup_hears_def handler_step_def main_step_def take_signal_def set_thread_def
      notify_cleanup_def
      split: handler_pc.splits main_pc.splits if_splits\<close>)

interpretation heard: invariant_system cleanup_hears server_step cleanup_hears
  by unfold_locales (auto intro: cleanup_hears_step)

text \<open>
  The main thread hears of the shutdown: it is not between its test and \<open>pause\<close>, and not in \<open>pause\<close>,
  when \<open>DoShutdown\<close> is set.
\<close>

definition main_hears :: "server \<Rightarrow> bool" where
  "main_hears s \<longleftrightarrow> DoShutdown s \<and> main_thread s \<noteq> MFalling \<and> main_thread s \<noteq> MPause"

lemma main_hears_step:
  assumes "server_step s t" and "main_hears s"
  shows "main_hears t"
proof -
  have "DoShutdown t" using DoShutdown_stays [OF assms(1)] assms(2) by (simp add: main_hears_def)
  moreover from assms(1) have "main_thread t = main_thread s \<or> main_step s = Some t \<or> t = take_signal s"
  proof (cases rule: server_step_cases)
    case (1 e)
    then show ?thesis
      by (cases e) (auto simp: CreateHandlerSocket_def Let_def set_thread_def split: if_splits dispatch_pc.splits)
  qed (auto simp: handler_step_def cleanup_step_def set_thread_def
      split: handler_pc.splits cleanup_pc.splits if_splits)
  ultimately show ?thesis
    using assms(2) by (auto simp: main_hears_def main_step_def take_signal_def split: main_pc.splits if_splits)
qed

interpretation awake: invariant_system main_hears server_step main_hears
  by unfold_locales (auto intro: main_hears_step)

lemma shutting_down_reach:
  assumes "reach server_new server_step s" and "DoShutdown s"
  shows "shutting_down s"
  using server_threads.reachable_inv [OF refl assms(1)] assms(2) by (simp add: shutting_down_def)

text \<open>What becomes of a shutdown, from any state in which \<open>DoShutdown\<close> is set.\<close>

lemma shutdown_outcome:
  assumes "reach server_new server_step s" and "DoShutdown s"
  shows "(\<nexists>f. f 0 = s \<and> (\<forall>i. server_step (f i) (f (Suc i)) \<and> f (Suc i) \<noteq> f i)) \<and>
    (\<forall>t. reach s server_step t \<longrightarrow> at_rest t \<longrightarrow>
       main_thread t = MDone \<or> cleanup t = CCrashed \<or> main_thread t = MPause \<and> \<not> main_hears s \<or>
       main_thread t = MJoinCleanup \<and> cleanup t = CBlocked \<and> \<not> cleanup_hears s)"
proof (intro conjI allI impI notI)
  have init: "shutting_down s" using shutting_down_reach [OF assms] .
  show False if "\<exists>f. f 0 = s \<and> (\<forall>i. server_step (f i) (f (Suc i)) \<and> f (Suc i) \<noteq> f i)"
    using that shutdown.no_endless_change init by metis
  fix t
  assume "reach s server_step t" and rest: "at_rest t"
  then have "shutting_down t" and "cleanup_hears s \<Longrightarrow> cleanup_hears t" and "main_hears s \<Longrightarrow> main_hears t"
    using shutdown.reachable_inv [OF init] heard.reachable_inv awake.reachable_inv by blast+
  with rest_classified [OF rest] show "main_thread t = MDone \<or> cleanup t = CCrashed \<or> main_thread t = MPause \<and> \<not> main_hears s \<or>
       main_thread t = MJoinCleanup \<and> cleanup t = CBlocked \<and> \<not> cleanup_hears s"
    by (auto simp: shutting_down_def server_inv_def cleanup_hears_def main_hears_def)
qed

section \<open>Properties\<close>


text \<open>One client is served when the signal arrives; the run below it ends with everything joined.\<close>

definition busy_shutdown :: "server_event list" where
  "busy_shutdown = [Dispatches, Accepts 0, Inserts, Handler 0, Handler 0, Dispatches, Hello True, Dispatches, Signal]"

definition orderly_end :: "server_event list" where
  "orderly_end = [MainGoes, DispatchUnwinds, MainGoes, MainGoes, Handler 0, Cleans, Cleans, MainGoes, MainGoes]"


end
