(* ===== verification/Server_Signals.thy ===== *)
theory Server_Signals
  imports Server_Shutdown
begin

text \<open>
  The signals of the daemon: the masks, the handlers and the order in which \<open>Run\<close> of \<open>Src/Server.cpp\<close>
  blocks all signals, starts its threads, installs its handlers and unblocks \<open>SIGTERM\<close> and \<open>SIGINT\<close>;
  \<open>BlockAllSignals\<close> at the start of the cleanup and of every handler thread.

  The kernel side is the documented behaviour of POSIX threads: a new thread inherits the mask of its
  creator; a signal is pending for the process or for one thread until a thread that does not block it
  takes it; a second instance of a pending signal is merged with the first.  The steps of the server
  itself are those of \<open>Server_Threads\<close>, with the thread that takes them; what \<open>Signal\<close> is there is here the
  delivery of a signal to the main thread.
\<close>

section \<open>The process\<close>

text \<open>
  The signals a process can block.  \<open>SIGOTHER\<close> stands for every other one whose default action ends the
  process.
\<close>

datatype signal = SIGHUP | SIGINT | SIGPIPE | SIGTERM | SIGCHLD | SIGOTHER nat

datatype action =
    SIG_DFL
  | SetsShutdown           \<comment> \<open>the lambda \<open>handler\<close> of \<open>Run\<close>\<close>

definition ends_process :: "signal \<Rightarrow> bool" where
  "ends_process sig \<longleftrightarrow> sig \<noteq> SIGCHLD"

datatype tid = Main | Dispatch | Cleanup | Serves nat

datatype boot_pc =
    BStart                 \<comment> \<open>before \<open>pthread_sigmask(SIG_BLOCK, ...)\<close>\<close>
  | BBlocked               \<comment> \<open>before the dispatch thread is started\<close>
  | BDispatch              \<comment> \<open>before the cleanup thread is started\<close>
  | BCleanup               \<comment> \<open>before \<open>std::signal(SIGTERM, handler)\<close>\<close>
  | BTerm                  \<comment> \<open>before \<open>std::signal(SIGINT, handler)\<close>\<close>
  | BInt                   \<comment> \<open>before \<open>pthread_sigmask(SIG_UNBLOCK, ...)\<close>\<close>
  | BRun                   \<comment> \<open>at the loop around \<open>pause\<close> or behind it\<close>

record process =
  srv :: server
  boot :: boot_pc
  blocked :: "tid \<Rightarrow> signal set"             \<comment> \<open>the signals a thread blocks\<close>
  fresh :: "tid set"                      \<comment> \<open>threads before their \<open>BlockAllSignals()\<close>\<close>
  actions :: "signal \<Rightarrow> action"
  shared :: "signal set"                  \<comment> \<open>pending for the process\<close>
  own :: "tid \<Rightarrow> signal set"              \<comment> \<open>pending for one thread\<close>
  ended :: bool                           \<comment> \<open>a default action has ended the process\<close>

text \<open>The process when it enters \<open>Run\<close>, with the mask it was started with.\<close>

definition process_new :: "signal set \<Rightarrow> process" where
  "process_new m = \<lparr>srv = server_new, boot = BStart, blocked = (\<lambda>_. m), fresh = {}, actions = (\<lambda>_. SIG_DFL),
     shared = {}, own = (\<lambda>_. {}), ended = False\<rparr>"

section \<open>The steps\<close>

text \<open>\<open>sigfillset\<close> and \<open>pthread_sigmask(SIG_BLOCK, &set, NULL)\<close>.\<close>

definition BlockAllSignals :: "tid \<Rightarrow> process \<Rightarrow> process" where
  "BlockAllSignals t p = p\<lparr>blocked := (blocked p)(t := UNIV)\<rparr>"

text \<open>\<open>std::thread\<close>: the new thread has the mask of the thread that starts it.\<close>

definition start_thread :: "tid \<Rightarrow> tid \<Rightarrow> process \<Rightarrow> process" where
  "start_thread parent child p = p\<lparr>blocked := (blocked p)(child := blocked p parent)\<rparr>"

text \<open>The statements of \<open>Run\<close> up to its loop.\<close>

fun boot_step :: "process \<Rightarrow> process option" where
  "boot_step p = (case boot p of
      BStart \<Rightarrow> Some ((BlockAllSignals Main p)\<lparr>boot := BBlocked\<rparr>)
    | BBlocked \<Rightarrow> Some ((start_thread Main Dispatch p)\<lparr>boot := BDispatch\<rparr>)
    | BDispatch \<Rightarrow> Some ((start_thread Main Cleanup p)\<lparr>fresh := insert Cleanup (fresh p), boot := BCleanup\<rparr>)
    | BCleanup \<Rightarrow> Some (p\<lparr>actions := (actions p)(SIGTERM := SetsShutdown), boot := BTerm\<rparr>)
    | BTerm \<Rightarrow> Some (p\<lparr>actions := (actions p)(SIGINT := SetsShutdown), boot := BInt\<rparr>)
    | BInt \<Rightarrow> Some (p\<lparr>blocked := (blocked p)(Main := blocked p Main - {SIGTERM, SIGINT}), boot := BRun\<rparr>)
    | BRun \<Rightarrow> None)"

text \<open>Which thread takes a step of the server, and which threads there are.\<close>

fun actor :: "server_event \<Rightarrow> tid" where
  "actor (Handler i) = Serves i"
| "actor Cleans = Cleanup"
| "actor MainGoes = Main"
| "actor Signal = Main"
| "actor e = Dispatch"

fun has_thread :: "process \<Rightarrow> tid \<Rightarrow> bool" where
  "has_thread p Main = True"
| "has_thread p Dispatch = (boot p \<notin> {BStart, BBlocked})"
| "has_thread p Cleanup = (boot p \<notin> {BStart, BBlocked, BDispatch})"
| "has_thread p (Serves i) = (threads (srv p) i \<noteq> TNone)"

definition can_act :: "process \<Rightarrow> tid \<Rightarrow> bool" where
  "can_act p t \<longleftrightarrow> has_thread p t \<and> t \<notin> fresh p \<and> (t = Main \<longrightarrow> boot p = BRun)"

text \<open>
  A step of the server by its thread.  When the dispatch accepts a client it starts a handler thread,
  which begins with \<open>BlockAllSignals()\<close>.
\<close>

definition server_acts :: "server_event \<Rightarrow> process \<Rightarrow> process option" where
  "server_acts e p =
     (if e \<noteq> Signal \<and> can_act p (actor e) then
        (case server_next e (srv p) of
           None \<Rightarrow> None
         | Some s \<Rightarrow> Some (case e of
             Accepts n \<Rightarrow> let i = CurrentId (srv p) in
               (start_thread Dispatch (Serves i) p)\<lparr>srv := s, fresh := insert (Serves i) (fresh p)\<rparr>
           | _ \<Rightarrow> p\<lparr>srv := s\<rparr>))
      else None)"

text \<open>
  A signal is taken: the default action, or the handler on the thread that takes it.  Only on the main
  thread does it interrupt \<open>pause\<close>.
\<close>

definition take_action :: "tid \<Rightarrow> signal \<Rightarrow> process \<Rightarrow> process" where
  "take_action t sig p = (case actions p sig of
      SIG_DFL \<Rightarrow> if ends_process sig then p\<lparr>ended := True\<rparr> else p
    | SetsShutdown \<Rightarrow> p\<lparr>srv := (if t = Main then take_signal (srv p) else (srv p)\<lparr>DoShutdown := True\<rparr>)\<rparr>)"

definition deliver :: "tid \<Rightarrow> signal \<Rightarrow> process \<Rightarrow> process option" where
  "deliver t sig p =
     (if has_thread p t \<and> sig \<notin> blocked p t then
        (if sig \<in> own p t then Some (take_action t sig (p\<lparr>own := (own p)(t := own p t - {sig})\<rparr>))
         else if sig \<in> shared p then Some (take_action t sig (p\<lparr>shared := shared p - {sig}\<rparr>))
         else None)
      else None)"

datatype process_event =
    Boots                  \<comment> \<open>the next statement of \<open>Run\<close> before its loop\<close>
  | Masks tid              \<comment> \<open>the \<open>BlockAllSignals()\<close> of a new thread\<close>
  | Runs server_event
  | Raise signal           \<comment> \<open>\<open>kill\<close> for the process\<close>
  | RaiseAt tid signal     \<comment> \<open>\<open>pthread_kill\<close>, or \<open>SIGPIPE\<close> of a \<open>send\<close>\<close>
  | Deliver tid signal

fun process_event_step :: "process_event \<Rightarrow> process \<Rightarrow> process option" where
  "process_event_step Boots p = boot_step p"
| "process_event_step (Masks t) p =
     (if t \<in> fresh p then Some ((BlockAllSignals t p)\<lparr>fresh := fresh p - {t}\<rparr>) else None)"
| "process_event_step (Runs e) p = server_acts e p"
| "process_event_step (Raise sig) p = Some (p\<lparr>shared := insert sig (shared p)\<rparr>)"
| "process_event_step (RaiseAt t sig) p =
     (if has_thread p t then Some (p\<lparr>own := (own p)(t := insert sig (own p t))\<rparr>) else None)"
| "process_event_step (Deliver t sig) p = deliver t sig p"

definition process_next :: "process_event \<Rightarrow> process \<Rightarrow> process option" where
  "process_next e p = (if ended p \<or> cleanup (srv p) = CCrashed then None else process_event_step e p)"

inductive process_step :: "process \<Rightarrow> process \<Rightarrow> bool" where
  event: "process_next e p = Some q \<Longrightarrow> process_step p q"

inductive_cases process_stepE: "process_step p q"

section \<open>The invariant of the masks\<close>

text \<open>
  Once \<open>Run\<close> has blocked its signals, every other thread blocks all of them, the main thread lets
  \<open>SIGTERM\<close> and \<open>SIGINT\<close> through only when their handlers are installed, and no default action has ended
  the process.
\<close>

definition signal_inv :: "process \<Rightarrow> bool" where
  "signal_inv p \<longleftrightarrow>
     (boot p \<in> {BStart, BBlocked} \<longrightarrow> srv p = server_new) \<and>
     (\<forall>t. t \<noteq> Main \<longrightarrow> has_thread p t \<longrightarrow> blocked p t = UNIV) \<and>
     (boot p \<noteq> BStart \<longrightarrow> blocked p Main = (if boot p = BRun then UNIV - {SIGTERM, SIGINT} else UNIV)) \<and>
     actions p = (\<lambda>sig. if sig = SIGTERM \<and> boot p \<in> {BTerm, BInt, BRun} \<or> sig = SIGINT \<and> boot p \<in> {BInt, BRun}
       then SetsShutdown else SIG_DFL) \<and>
     Main \<notin> fresh p \<and> (ended p \<longrightarrow> boot p = BStart)"

lemma no_thread_new [simp]: "threads server_new i = TNone"
  by (simp add: server_new_def)

lemma signal_inv_new: "signal_inv (process_new m)"
proof -
  have "\<not> has_thread (process_new m) t" if "t \<noteq> Main" for t
    using that by (cases t) (simp_all add: process_new_def)
  then show ?thesis by (auto simp: signal_inv_def) (simp_all add: process_new_def)
qed

lemma signal_inv_boot:
  assumes "signal_inv p" and "boot_step p = Some q" and "\<not> ended p"
  shows "signal_inv q"
proof -
  have "blocked q t = UNIV" if "t \<noteq> Main" "has_thread q t" for t
    using assms(1,2) that unfolding signal_inv_def
    by (cases t) (auto simp: BlockAllSignals_def start_thread_def split: boot_pc.splits)
  then show ?thesis
    using assms unfolding signal_inv_def
    by (auto simp: BlockAllSignals_def start_thread_def fun_eq_iff split: boot_pc.splits)
qed

text \<open>Only the dispatch starts threads, and it starts the next one.\<close>

lemma new_thread:
  assumes "server_next e s = Some t" and "threads t i \<noteq> TNone"
  shows "threads s i \<noteq> TNone \<or> (\<exists>n. e = Accepts n \<and> i = CurrentId s)"
  using assms
  by (cases e) (auto simp: server_next_def handler_step_def cleanup_step_def main_step_def take_signal_def
      notify_cleanup_def set_thread_def CreateHandlerSocket_def Let_def
      split: if_splits handler_pc.splits cleanup_pc.splits main_pc.splits dispatch_pc.splits)

lemma server_acts_frame:
  assumes "server_acts e p = Some q"
  shows "boot q = boot p" "actions q = actions p" "ended q = ended p" "shared q = shared p" "own q = own p"
    "blocked q = (case e of Accepts n \<Rightarrow> (blocked p)(Serves (CurrentId (srv p)) := blocked p Dispatch) | _ \<Rightarrow> blocked p)"
    "server_next e (srv p) = Some (srv q)" "can_act p (actor e)" "e \<noteq> Signal" "Main \<in> fresh q \<longleftrightarrow> Main \<in> fresh p"
  using assms
  by (auto simp: server_acts_def start_thread_def Let_def split: if_splits option.splits server_event.splits)

lemma signal_inv_server:
  assumes inv: "signal_inv p" and step: "server_acts e p = Some q"
  shows "signal_inv q"
proof -
  note frame = server_acts_frame [OF step]
  have dispatch: "blocked p Dispatch = UNIV" if "e = Accepts n" for n
    using inv frame(8) that unfolding signal_inv_def by (simp add: can_act_def)
  have "blocked q t = UNIV" if t: "t \<noteq> Main" "has_thread q t" for t
  proof (cases "has_thread p t")
    case True
    then show ?thesis
      using inv t dispatch frame(6) unfolding signal_inv_def by (auto split: server_event.splits)
  next
    case False
    with t frame(1) obtain i where i: "t = Serves i" by (cases t) auto
    with False t new_thread [OF frame(7), of i] obtain n where "e = Accepts n" "i = CurrentId (srv p)" by auto
    with i dispatch frame(6) show ?thesis by simp
  qed
  moreover have "blocked q Main = blocked p Main" using frame(6) by (auto split: server_event.splits)
  moreover have "boot p \<notin> {BStart, BBlocked}"
    using inv frame(8) unfolding signal_inv_def by (cases "actor e") (auto simp: can_act_def)
  ultimately show ?thesis using inv frame(1-3,10) unfolding signal_inv_def by auto
qed

text \<open>What can be delivered once the signals are blocked.\<close>

lemma deliver_main:
  assumes "signal_inv p" and "boot p \<noteq> BStart" and "deliver t sig p = Some q"
  shows "t = Main \<and> sig \<in> {SIGTERM, SIGINT} \<and> boot p = BRun \<and> srv q = take_signal (srv p) \<and>
    boot q = boot p \<and> blocked q = blocked p \<and> actions q = actions p \<and> fresh q = fresh p \<and> ended q = ended p"
proof -
  have ok: "has_thread p t" "sig \<notin> blocked p t" using assms(3) by (auto simp: deliver_def split: if_splits)
  then have t: "t = Main" using assms(1) unfolding signal_inv_def by blast
  with ok assms(1,2) have sig: "boot p = BRun" "sig \<in> {SIGTERM, SIGINT}"
    unfolding signal_inv_def by (auto split: if_splits)
  then have "actions p sig = SetsShutdown" using assms(1) unfolding signal_inv_def by auto
  with t sig assms(3) show ?thesis by (auto simp: deliver_def take_action_def split: if_splits)
qed

text \<open>Before, a delivery has the default action.\<close>

lemma deliver_start:
  assumes "signal_inv p" and "boot p = BStart" and "deliver t sig p = Some q"
  shows "srv q = srv p \<and> boot q = boot p \<and> blocked q = blocked p \<and> actions q = actions p \<and> fresh q = fresh p"
proof -
  have "actions p sig = SIG_DFL" using assms(1,2) unfolding signal_inv_def by auto
  with assms(3) show ?thesis by (auto simp: deliver_def take_action_def split: if_splits)
qed

lemma has_thread_cong:
  "boot q = boot p \<Longrightarrow> (\<And>i. threads (srv q) i = TNone \<longleftrightarrow> threads (srv p) i = TNone) \<Longrightarrow>
   has_thread q t = has_thread p t"
  by (cases t) simp_all

lemma signal_inv_cong:
  assumes "signal_inv p" and "boot q = boot p" and "blocked q = blocked p" and "actions q = actions p"
    and "fresh q = fresh p" and "ended q \<longrightarrow> boot p = BStart" and "srv q = srv p \<or> boot p = BRun \<and> srv q = take_signal (srv p)"
  shows "signal_inv q"
proof -
  have "has_thread q = has_thread p"
    using assms(2,7) by (intro ext has_thread_cong) (auto simp: take_signal_def)
  with assms show ?thesis unfolding signal_inv_def by auto
qed

lemma signal_inv_step:
  assumes "process_step p q" and inv: "signal_inv p"
  shows "signal_inv q"
proof -
  obtain e where e: "process_event_step e p = Some q" "\<not> ended p"
    using assms(1) by (auto elim!: process_stepE simp: process_next_def split: if_splits)
  show ?thesis
  proof (cases e)
    case Boots
    with e signal_inv_boot [OF inv] show ?thesis by simp
  next
    case (Masks t)
    with e inv have "has_thread q = has_thread p"
      by (intro ext has_thread_cong) (auto simp: BlockAllSignals_def split: if_splits)
    with Masks e inv show ?thesis
      unfolding signal_inv_def by (auto simp: BlockAllSignals_def split: if_splits)
  next
    case (Runs x)
    with e signal_inv_server [OF inv] show ?thesis by simp
  next
    case (Deliver t sig)
    with e have d: "deliver t sig p = Some q" by simp
    show ?thesis
    proof (cases "boot p = BStart")
      case True
      with deliver_start [OF inv True d] show ?thesis by (intro signal_inv_cong [OF inv]) auto
    next
      case False
      with deliver_main [OF inv False d] e(2) show ?thesis by (intro signal_inv_cong [OF inv]) auto
    qed
  qed (use e in \<open>auto intro!: signal_inv_cong [OF inv] split: if_splits\<close>)
qed

text \<open>
  The process refines the server: seen through \<open>srv\<close>, a step of the process is a step of the server, a
  delivered signal being the event \<open>Signal\<close>.
\<close>

lemma process_simulated:
  assumes "process_step p q" and inv: "signal_inv p"
  shows "server_step (srv p) (srv q) \<or> srv q = srv p"
proof -
  obtain e where e: "process_event_step e p = Some q" "cleanup (srv p) \<noteq> CCrashed"
    using assms(1) by (auto elim!: process_stepE simp: process_next_def split: if_splits)
  show ?thesis
  proof (cases e)
    case Boots
    with e show ?thesis by (auto simp: BlockAllSignals_def start_thread_def split: boot_pc.splits)
  next
    case (Runs x)
    with e have "server_acts x p = Some q" by simp
    from server_acts_frame(7) [OF this] show ?thesis by (blast intro: server_step.event)
  next
    case (Deliver t sig)
    with e have d: "deliver t sig p = Some q" by simp
    show ?thesis
    proof (cases "boot p = BStart")
      case True
      then show ?thesis using deliver_start [OF inv _ d] by blast
    next
      case False
      then have "server_next Signal (srv p) = Some (srv q)"
        using deliver_main [OF inv _ d] e(2) by (simp add: server_next_def)
      then show ?thesis by (blast intro: server_step.event)
    qed
  qed (use e in \<open>auto simp: BlockAllSignals_def split: if_splits\<close>)
qed

interpretation signals: refined_system "\<lambda>p. \<exists>m. p = process_new m" process_step signal_inv server_step srv
  by unfold_locales (auto simp: signal_inv_new intro: signal_inv_step dest: process_simulated)

lemma process_reach_server:
  assumes "reach (process_new m) process_step p"
  shows "reach server_new server_step (srv p)"
  using signals.reach_abstract [OF _ assms] by (auto simp: process_new_def)

lemma process_reach_inv: "reach (process_new m) process_step p \<Longrightarrow> signal_inv p"
  by (rule signals.reachable_inv) auto

section \<open>A signal is not lost\<close>

text \<open>A termination signal that has been raised is pending for the main thread or has been handled.\<close>

definition signal_kept :: "signal \<Rightarrow> process \<Rightarrow> bool" where
  "signal_kept sig p \<longleftrightarrow> signal_inv p \<and> boot p \<noteq> BStart \<and>
     (sig \<in> shared p \<or> sig \<in> own p Main \<or> DoShutdown (srv p))"

lemma signal_kept_step:
  assumes "process_step p q" and kept: "signal_kept sig p"
  shows "signal_kept sig q"
proof -
  obtain e where e: "process_event_step e p = Some q"
    using assms(1) by (auto elim!: process_stepE simp: process_next_def split: if_splits)
  have inv: "signal_inv p" "boot p \<noteq> BStart" using kept by (simp_all add: signal_kept_def)
  have "boot q \<noteq> BStart \<and> (sig \<in> shared q \<or> sig \<in> own q Main \<or> DoShutdown (srv q))"
  proof (cases e)
    case (Runs x)
    with e have run: "server_acts x p = Some q" by simp
    have "DoShutdown (srv q)" if "DoShutdown (srv p)"
      using DoShutdown_stays [OF server_step.event [OF server_acts_frame(7) [OF run]] that] .
    with kept server_acts_frame [OF run] show ?thesis by (auto simp: signal_kept_def)
  next
    case (Deliver t s)
    with e deliver_main [OF inv] show ?thesis by (auto simp: take_signal_def)
  qed (use e kept in \<open>auto simp: signal_kept_def BlockAllSignals_def start_thread_def split: if_splits boot_pc.splits\<close>)
  with signal_inv_step [OF assms(1) inv(1)] show ?thesis by (simp add: signal_kept_def)
qed

interpretation kept: invariant_system "signal_kept sig" process_step "signal_kept sig" for sig
  by unfold_locales (auto intro: signal_kept_step)

text \<open>A process that has taken its signals off the mask can deliver what is pending for its main thread.\<close>

lemma pending_delivered:
  assumes "signal_kept sig p" and "boot p = BRun" and "sig \<in> {SIGTERM, SIGINT}" and "\<not> DoShutdown (srv p)"
    and "cleanup (srv p) \<noteq> CCrashed"
  shows "\<exists>q. process_next (Deliver Main sig) p = Some q \<and> DoShutdown (srv q)"
proof -
  have inv: "signal_inv p" and pending: "sig \<in> own p Main \<or> sig \<in> shared p"
    using assms(1,4) by (auto simp: signal_kept_def)
  from inv assms(2,3) have "sig \<notin> blocked p Main" "\<not> ended p"
    unfolding signal_inv_def by auto
  with pending obtain q where q: "deliver Main sig p = Some q"
    by (cases "sig \<in> own p Main") (auto simp: deliver_def)
  then have "process_next (Deliver Main sig) p = Some q"
    using assms(5) \<open>\<not> ended p\<close> by (simp add: process_next_def)
  moreover have "DoShutdown (srv q)" using deliver_main [OF inv _ q] assms(2) by (simp add: take_signal_def)
  ultimately show ?thesis by blast
qed

text \<open>
  A request to shut down: the thread of a client raises \<open>SIGTERM\<close> for the main thread, as often as it was
  asked to, and the signal is delivered.
\<close>

lemma raise_own:
  assumes "\<not> ended p" and "cleanup (srv p) \<noteq> CCrashed"
  shows "run_schedule process_next (replicate (Suc n) (RaiseAt Main sig)) p =
    Some (p\<lparr>own := (own p)(Main := insert sig (own p Main))\<rparr>)"
  using assms by (induction n arbitrary: p) (simp_all add: process_next_def)

lemma shutdown_delivered:
  assumes "signal_inv p" and "boot p = BRun" and "cleanup (srv p) \<noteq> CCrashed" and "0 < n"
  shows "\<exists>q. run_schedule process_next (replicate n (RaiseAt Main SIGTERM) @ [Deliver Main SIGTERM]) p = Some q \<and>
    srv q = take_signal (srv p)"
proof -
  let ?u = "p\<lparr>own := (own p)(Main := insert SIGTERM (own p Main))\<rparr>"
  have live: "\<not> ended p" using assms(1,2) unfolding signal_inv_def by auto
  have u: "run_schedule process_next (replicate n (RaiseAt Main SIGTERM)) p = Some ?u"
    using raise_own [OF live assms(3), of "n - 1" SIGTERM] assms(4) by simp
  have "SIGTERM \<notin> blocked p Main" "actions p SIGTERM = SetsShutdown"
    using assms(1,2) unfolding signal_inv_def by auto
  then obtain q where "process_next (Deliver Main SIGTERM) ?u = Some q" "srv q = take_signal (srv p)"
    using live assms(3) by (simp add: process_next_def deliver_def take_action_def)
  with u show ?thesis by (simp add: run_schedule_append)
qed

section \<open>Properties\<close>

lemma process_reach:
  "run_schedule process_next es p = Some q \<Longrightarrow> reach p0 process_step p \<Longrightarrow> reach p0 process_step q"
  by (rule run_schedule_reach [of process_next process_step]) (blast intro: process_step.event)

definition process_after :: "process_event list \<Rightarrow> process" where
  "process_after es = the (run_schedule process_next es (process_new {}))"

lemma process_after_reach:
  "run_schedule process_next es (process_new {}) \<noteq> None \<Longrightarrow>
   reach (process_new {}) process_step (process_after es)"
  unfolding process_after_def by (auto intro: process_reach reach_init)

lemmas process_eval = process_after_def process_new_def process_next_def BlockAllSignals_def start_thread_def
  server_acts_def can_act_def deliver_def take_action_def ends_process_def

text \<open>The start of the daemon, up to the loop around \<open>pause\<close>.\<close>

definition booted :: "process_event list" where
  "booted = [Boots, Boots, Boots, Boots, Boots, Boots, Masks Cleanup]"

text \<open>
  C30: Signals never disturb a thread that serves.  After the first statement of \<open>Run\<close> no signal ends the
  daemon, neither a \<open>SIGPIPE\<close> from a client that hung up nor any other one; every thread but the main
  thread blocks all signals; what is delivered is \<open>SIGTERM\<close> or \<open>SIGINT\<close>, to the main thread, and has the
  effect of the event \<open>Signal\<close> of the server, so that the states of the daemon are those of the server.
\<close>

theorem signals_masked:
  assumes "reach (process_new m) process_step p" and "boot p \<noteq> BStart"
  shows "reach server_new server_step (srv p) \<and> \<not> ended p \<and>
    (\<forall>t. t \<noteq> Main \<longrightarrow> has_thread p t \<longrightarrow> blocked p t = UNIV) \<and>
    (\<forall>t sig q. process_next (Deliver t sig) p = Some q \<longrightarrow>
       t = Main \<and> sig \<in> {SIGTERM, SIGINT} \<and> srv q = take_signal (srv p))"
proof -
  have inv: "signal_inv p" using process_reach_inv [OF assms(1)] .
  then have "\<not> ended p" "\<forall>t. t \<noteq> Main \<longrightarrow> has_thread p t \<longrightarrow> blocked p t = UNIV"
    using assms(2) unfolding signal_inv_def by blast+
  moreover have "t = Main \<and> sig \<in> {SIGTERM, SIGINT} \<and> srv q = take_signal (srv p)"
    if "process_next (Deliver t sig) p = Some q" for t sig q
    using that deliver_main [OF inv assms(2), of t sig q] by (simp add: process_next_def split: if_splits)
  ultimately show ?thesis using process_reach_server [OF assms(1)] by blast
qed

text \<open>A client is accepted and its connection breaks.\<close>

definition broken_pipe :: "process_event list" where
  "broken_pipe = booted @ [Runs Dispatches, Runs (Accepts 0), Masks (Serves 0), RaiseAt (Serves 0) SIGPIPE, Raise SIGHUP]"

theorem signals_masked_witness:
  "blocked (process_after broken_pipe) (Serves 0) = UNIV \<and> SIGPIPE \<in> own (process_after broken_pipe) (Serves 0) \<and>
   \<not> ended (process_after broken_pipe) \<and> process_next (Deliver (Serves 0) SIGPIPE) (process_after broken_pipe) = None"
proof -
  have run: "run_schedule process_next broken_pipe (process_new {}) \<noteq> None"
    by (simp add: process_eval server_eval broken_pipe_def booted_def)
  have "boot (process_after broken_pipe) \<noteq> BStart" "has_thread (process_after broken_pipe) (Serves 0)"
    "SIGPIPE \<in> own (process_after broken_pipe) (Serves 0)"
    by (simp_all add: process_eval server_eval broken_pipe_def booted_def)
  with signals_masked [OF process_after_reach [OF run]] show ?thesis
    by (metis option.exhaust tid.distinct(5))
qed

text \<open>
  C35: No termination signal is lost.  A \<open>SIGTERM\<close> or \<open>SIGINT\<close> that is sent to the daemon, or to its main
  thread, at any time after the first statement of \<open>Run\<close>, before the handlers are installed included,
  stays pending until the main thread has set \<open>DoShutdown\<close>: in every later state this has happened, or
  the start of the daemon can go on, or the signal can be delivered and sets \<open>DoShutdown\<close> (unless the
  cleanup has crashed and the process is gone).
\<close>

theorem signal_not_lost:
  assumes "reach (process_new m) process_step p" and "boot p \<noteq> BStart" and "sig \<in> {SIGTERM, SIGINT}"
    and "process_next e p = Some q" and "e = Raise sig \<or> e = RaiseAt Main sig" and "reach q process_step r"
  shows "DoShutdown (srv r) \<or> cleanup (srv r) = CCrashed \<or>
    boot r \<noteq> BRun \<and> (\<exists>u. process_next Boots r = Some u) \<or>
    (\<exists>u. process_next (Deliver Main sig) r = Some u \<and> DoShutdown (srv u))"
proof -
  have "signal_inv q" using signal_inv_step [OF process_step.event [OF assms(4)] process_reach_inv [OF assms(1)]] .
  then have "signal_kept sig q" using assms(2,4,5) by (auto simp: signal_kept_def process_next_def split: if_splits)
  then have r: "signal_kept sig r" using kept.reachable_inv [OF _ assms(6)] by blast
  show ?thesis
  proof (cases "boot r = BRun")
    case True
    then show ?thesis using pending_delivered [OF r True assms(3)] by blast
  next
    case False
    have "\<not> ended r" using r unfolding signal_kept_def signal_inv_def by blast
    with False show ?thesis by (cases "boot r") (simp_all add: process_next_def)
  qed
qed

definition early_signal :: "process_event list" where
  "early_signal = [Boots, Boots, Raise SIGTERM]"

theorem signal_not_lost_witness:
  "\<not> DoShutdown (srv (process_after (early_signal @ [Boots, Boots, Boots, Boots]))) \<and>
   (\<exists>u. process_next (Deliver Main SIGTERM) (process_after (early_signal @ [Boots, Boots, Boots, Boots])) = Some u \<and>
     DoShutdown (srv u))"
proof -
  let ?p = "process_after [Boots, Boots]" and ?q = "process_after early_signal"
    and ?r = "process_after (early_signal @ [Boots, Boots, Boots, Boots])"
  have run: "run_schedule process_next [Boots, Boots] (process_new {}) \<noteq> None" by (simp add: process_eval server_eval)
  have raise: "process_next (Raise SIGTERM) ?p = Some ?q" "boot ?p \<noteq> BStart"
    by (simp_all add: process_eval server_eval early_signal_def)
  have "run_schedule process_next [Boots, Boots, Boots, Boots] ?q = Some ?r"
    by (simp add: process_eval server_eval early_signal_def)
  then have later: "reach ?q process_step ?r" by (rule process_reach) (rule reach_init)
  have "\<not> DoShutdown (srv ?r)" "cleanup (srv ?r) \<noteq> CCrashed" "boot ?r = BRun"
    by (simp_all add: process_eval server_eval early_signal_def)
  with signal_not_lost [OF process_after_reach [OF run] raise(2) _ raise(1) _ later] show ?thesis by auto
qed

text \<open>Sending a signal, and a main thread that no pending signal will wake.\<close>

fun raises :: "process_event \<Rightarrow> bool" where
  "raises (Raise sig) = True"
| "raises (RaiseAt t sig) = True"
| "raises e = False"

definition lost_signal :: "process_event list" where
  "lost_signal = booted @ [Runs MainGoes, Raise SIGTERM, Deliver Main SIGTERM, Runs MainGoes]"

definition overslept :: "process \<Rightarrow> bool" where
  "overslept p \<longleftrightarrow> boot p = BRun \<and> main_thread (srv p) = MPause \<and> shared p = {} \<and> (\<forall>t. own p t = {})"

lemma server_next_main:
  "server_next e s = Some t \<Longrightarrow> e \<noteq> Signal \<Longrightarrow> e \<noteq> MainGoes \<Longrightarrow> main_thread t = main_thread s"
  by (cases e) (auto simp: server_next_def handler_step_def cleanup_step_def set_thread_def
      CreateHandlerSocket_def Let_def split: if_splits handler_pc.splits cleanup_pc.splits dispatch_pc.splits)

lemma overslept_next:
  assumes "overslept p" and "process_next e p = Some q" and "\<not> raises e"
  shows "overslept q"
proof (cases e)
  case (Runs x)
  with assms(2) have run: "server_acts x p = Some q" by (simp add: process_next_def split: if_splits)
  have "x \<noteq> MainGoes"
    using server_acts_frame(7) [OF run] assms(1) by (auto simp: overslept_def server_next_def main_step_def split: if_splits)
  with server_acts_frame [OF run] server_next_main assms(1) show ?thesis by (simp add: overslept_def)
qed (use assms in \<open>auto simp: overslept_def process_next_def BlockAllSignals_def deliver_def split: if_splits\<close>)

lemma overslept_run:
  assumes "run_schedule process_next es p = Some q" and "overslept p" and "filter raises es = []"
  shows "overslept q"
  by (rule run_schedule_keeps [of overslept process_next "\<lambda>e. \<not> raises e", OF _ assms(1,2)])
    (use assms(3) in \<open>auto intro: overslept_next simp: filter_empty_conv\<close>)

text \<open>
  C39: A signal can pass the main thread by.  When it is delivered between the test of \<open>DoShutdown\<close> and
  \<open>pause()\<close>, the main thread waits all the same: there is a reachable state with \<open>DoShutdown\<close> set in which
  the main thread is in \<open>pause\<close> and stays there, whatever the other threads do, until another signal is
  sent.
\<close>

theorem signal_before_pause:
  "\<exists>p. reach (process_new {}) process_step p \<and> DoShutdown (srv p) \<and>
     {main_thread (srv q) |q es. filter raises es = [] \<and> run_schedule process_next es p = Some q} = {MPause}"
proof -
  let ?p = "process_after lost_signal"
  have run: "run_schedule process_next lost_signal (process_new {}) \<noteq> None"
    by (simp add: process_eval server_eval lost_signal_def booted_def)
  have p: "DoShutdown (srv ?p)" "overslept ?p"
    by (simp_all add: overslept_def process_eval server_eval lost_signal_def booted_def)
  then have "main_thread (srv q) = MPause" if "filter raises es = []" "run_schedule process_next es ?p = Some q" for es q
    using overslept_run [OF that(2) _ that(1)] by (simp add: overslept_def)
  moreover have "filter raises [] = []" "run_schedule process_next [] ?p = Some ?p" by simp_all
  moreover have "main_thread (srv ?p) = MPause" using p(2) by (simp add: overslept_def)
  ultimately have "{main_thread (srv q) |q es. filter raises es = [] \<and> run_schedule process_next es ?p = Some q} = {MPause}"
    by (auto intro!: exI [of _ ?p] exI [of _ "[]"] simp: eq_commute [of MPause])
  then show ?thesis using p(1) process_after_reach [OF run] by blast
qed

end
