(* ===== verification/Daemon_CLI.thy ===== *)
theory Daemon_CLI
  imports Daemon_Tools
begin

text \<open>
  The command line of \<open>Inc/roki-mb-daemon/CLI.hpp\<close>, \<open>Src/CLI.cpp\<close> and \<open>Src/CLIMain.cpp\<close>: the token
  reader, the command dispatch of \<open>Run\<close>, the commands, and the messages.

  The terminal is a string that grows.  What a command finds outside the process is an argument:
  the environment variables, the answers to the probes of \<open>IsRunning\<close>, the network, and the pipe of
  \<open>LaunchAt\<close>.  The name of the executable and of the environment variables are fixed by the build.
\<close>

section \<open>The state\<close>

record config =
  cPf :: platform
  CLI_EXECUTABLE :: string
  cNames :: env_names
  cEnviron :: "string \<Rightarrow> string option"
  cPid :: "32 word"
  cGarbage :: "byte list"        \<comment> \<open>the uninitialized package buffer of a new client\<close>

record shell =
  Tokens :: "string list"
  CurrentToken :: nat
  PrevToken :: nat
  cout :: string
  probes :: "bind_result list"   \<comment> \<open>what successive probes of the daemon's port meet\<close>
  Net :: net
  launch :: "int option \<times> int option \<times> pipe_end"   \<comment> \<open>\<open>errno\<close> of \<open>pipe\<close> and \<open>fork\<close>, and the pipe\<close>
  served :: "unit result"        \<comment> \<open>how a server run in this process ends\<close>
  systems :: "string list"       \<comment> \<open>the commands given to \<open>system()\<close>\<close>
  wire :: "byte list"            \<comment> \<open>what the clients of this process have sent\<close>

definition newline :: string where
  "newline = [CHR 0x0A]"

definition TAB :: string where
  "TAB = '' - ''"

definition put :: "string \<Rightarrow> (shell, unit) prog" where
  "put txt = modifyM (\<lambda>s. s\<lparr>cout := cout s @ txt\<rparr>)"

definition putln :: "string \<Rightarrow> (shell, unit) prog" where
  "putln txt = put (txt @ newline)"

section \<open>Tokens\<close>

definition GetNextToken :: "(shell, string) prog" where
  "GetNextToken s =
     (if CurrentToken s = length (Tokens s)
      then (Inl (Exn (SyntaxException ''Unexpected end of command'' (PrevToken s))), s)
      else (Inr (Tokens s ! CurrentToken s),
            s\<lparr>PrevToken := CurrentToken s, CurrentToken := Suc (CurrentToken s)\<rparr>))"

definition UnknownToken :: "(shell, unit) prog" where
  "UnknownToken s = (Inl (Exn (SyntaxException ''Unknown token'' (PrevToken s))), s)"

section \<open>Messages\<close>

definition MakeErrorMessage :: "string \<Rightarrow> (shell, unit) prog" where
  "MakeErrorMessage msg = putln (''Error: '' @ msg)"

definition PrintUsage :: "config \<Rightarrow> (shell, unit) prog" where
  "PrintUsage cf = putln (''Usage: '' @ CLI_EXECUTABLE cf @ '' <COMMAND> <ARGS>'')"

definition MakeRed :: string where "MakeRed = CHR 0x1B # ''[91m''"
definition MakeDefault :: string where "MakeDefault = CHR 0x1B # ''[39m''"

definition marked_tokens :: "nat \<Rightarrow> string list \<Rightarrow> string" where
  "marked_tokens k ts = concat (map (\<lambda>(i, t).
     (if i = k then MakeRed @ ''=> '' else []) @ t @ (if i = k then '' <='' @ MakeDefault else []) @ '' '')
     (zip [0..<length ts] ts))"

definition MakeSyntaxErrorMessage :: "config \<Rightarrow> nat \<Rightarrow> string \<Rightarrow> (shell, unit) prog" where
  "MakeSyntaxErrorMessage cf tokenInd msg =
     thenM (putln (''Syntax error: '' @ msg))
    (bindM (getM Tokens) (\<lambda>ts.
     thenM (putln (''Reason: '' @ marked_tokens tokenInd ts))
    (thenM (PrintUsage cf)
    (putln (''See \"'' @ CLI_EXECUTABLE cf @ '' help\"'')))))"

definition PutDescription :: "config \<Rightarrow> string list \<Rightarrow> string \<Rightarrow> string \<Rightarrow> (shell, unit) prog" where
  "PutDescription cf tokens description prefix =
     (if tokens = [] then raise Assert
      else putln (TAB @ ''\"'' @ prefix @ CLI_EXECUTABLE cf @ '' '' @
        concat (map (\<lambda>t. t @ '' '') (butlast tokens)) @ last tokens @ ''\": '' @ description))"

text \<open>The lines of the help text: the three groups of commands.\<close>

definition daemon_help :: "(string list \<times> string \<times> string) list" where
  "daemon_help =
    [([''daemon'', ''start''], ''Starts daemon'', ''sudo -E ''),
     ([''daemon'', ''stop''], ''Stops daemon'', ''''),
     ([''daemon'', ''status''], ''Prints status info on daemon'', ''''),
     ([''daemon'', ''logs''], ''Prints daemon logs'', ''''),
     ([''daemon'', ''kill''], ''Forcefully kills daemon'', '''')]"

definition chip_help :: "(string list \<times> string \<times> string) list" where
  "chip_help =
    [([''chip'', ''start''], ''Starts firmware'', ''''),
     ([''chip'', ''stop''], ''Stops firmware'', ''''),
     ([''chip'', ''flash'', ''<PATH>''], ''Flashes selected firmware'', ''''),
     ([''chip'', ''status''], ''Prints status info on firmware'', '''')]"

definition debug_help :: "(string list \<times> string \<times> string) list" where
  "debug_help =
    [([''debug'', ''start''], ''Launches daemon in this session'', ''''),
     ([''debug'', ''block''], ''Performs blocking request on daemon'', ''''),
     ([''debug'', ''throw''], ''Performs throwing request on daemon'', ''''),
     ([''debug'', ''connect''], ''Marks motherboard port acquired'', ''''),
     ([''debug'', ''disconnect''], ''Frees motherboard port'', '''')]"

fun put_all :: "config \<Rightarrow> (string list \<times> string \<times> string) list \<Rightarrow> (shell, unit) prog" where
  "put_all cf [] = ret ()"
| "put_all cf ((ts, d, p) # r) = thenM (PutDescription cf ts d p) (put_all cf r)"

definition DoHelp :: "config \<Rightarrow> (shell, unit) prog" where
  "DoHelp cf =
     thenM (putln (newline @ ''mbctl : Motherboard Firmware Manager CLI''))
    (thenM (putln (''Author: Lekhterev V.V. @tndrd, Starkit 2024'' @ newline))
    (thenM (PrintUsage cf)
    (thenM (putln (newline @ ''List of available commands: ''))
    (thenM (put_all cf daemon_help)
    (thenM (putln [])
    (thenM (put_all cf chip_help)
    (thenM (putln [])
    (thenM (PutDescription cf [''help''] ''Prints this text'' [])
    (thenM (putln (newline @ ''List of debug commands: ''))
    (thenM (put_all cf debug_help)
    (putln [])))))))))))"

section \<open>The daemon's tools\<close>

definition params_of :: "config \<Rightarrow> params result" where
  "params_of cf = GetParams (cNames cf) (cEnviron cf)"

text \<open>One call of \<open>IsRunning\<close>.\<close>

definition probe :: "config \<Rightarrow> (shell, bool) prog" where
  "probe cf s = (case params_of cf of
      Inl f \<Rightarrow> (Inl f, s)
    | Inr p \<Rightarrow> (case probes s of
        [] \<Rightarrow> (Inl Block, s)
      | r # rs \<Rightarrow> (IsRunning (cPf cf) (Inr p) r, s\<lparr>probes := rs\<rparr>)))"

text \<open>\<open>MakeClient\<close>: \<open>DaemonTools{}.Connect()\<close>.\<close>

definition MakeClient :: "config \<Rightarrow> (shell, rpc) prog" where
  "MakeClient cf =
     bindM (probe cf) (\<lambda>running.
     if \<not> running then raise (throw_runtime ''Connect'' ''Daemon is not running'')
     else bindM (liftE (params_of cf)) (\<lambda>p.
          zoom Net (\<lambda>n. Net_update (\<lambda>_. n)) (connect_daemon (cPf cf) p (cGarbage cf))))"

text \<open>
  What a command does with its local \<open>Client\<close>: a program over the client and the rest of the process.
  The client's destructor closes the connection.
\<close>

definition on_client :: "(rpc, 'a) prog \<Rightarrow> (rpc \<times> shell, 'a) prog" where
  "on_client = zoom fst (\<lambda>c p. (c, snd p))"

definition on_shell :: "(shell, 'a) prog \<Rightarrow> (rpc \<times> shell, 'a) prog" where
  "on_shell = zoom snd (\<lambda>s p. (fst p, s))"

definition with_client :: "config \<Rightarrow> (rpc \<times> shell, 'a) prog \<Rightarrow> (shell, 'a) prog" where
  "with_client cf m = bindM (MakeClient cf) (\<lambda>c s.
     case m (c, s) of (q, (c', s')) \<Rightarrow> (q, s'\<lparr>wire := wire s' @ sent (Conn c')\<rparr>))"

text \<open>The parent's half of \<open>LaunchAt\<close>, and \<open>Launch\<close>.\<close>

definition LaunchAt_parent :: "platform \<Rightarrow> int option \<times> int option \<times> pipe_end \<Rightarrow> LaunchResult result" where
  "LaunchAt_parent pf l = (case l of (pipe_err, fork_err, p) \<Rightarrow> (case pipe_err of
      Some e \<Rightarrow> Inl (throw_errno pf ''LaunchAt'' ''pipe()'' e)
    | None \<Rightarrow> (case fork_err of
        Some e \<Rightarrow> Inl (throw_errno pf ''LaunchAt'' ''fork()'' e)
      | None \<Rightarrow> fst (ReadResult pf p))))"

definition Launch :: "config \<Rightarrow> (shell, unit) prog" where
  "Launch cf =
     bindM (probe cf) (\<lambda>running.
     if running then raise (throw_runtime ''Launch'' ''Daemon already running'')
     else bindM (liftE (params_of cf)) (\<lambda>p.
          bindM (getM launch) (\<lambda>l.
          bindM (liftE (LaunchAt_parent (cPf cf) l)) (\<lambda>result.
          if \<not> lOk result then raise (throw_runtime ''Launch'' (''Failed to run daemon: '' @ lMsg result))
          else ret ()))))"

definition RunHere :: "config \<Rightarrow> (shell, unit) prog" where
  "RunHere cf =
     bindM (probe cf) (\<lambda>running.
     if running then raise (throw_runtime ''RunHere'' ''Daemon already running'')
     else bindM (liftE (params_of cf)) (\<lambda>p.
          bindM (getM served) liftE))"

section \<open>The commands\<close>

text \<open>A client that makes one call and says goodbye.\<close>

definition call_and_leave :: "config \<Rightarrow> procedure \<Rightarrow> (shell, unit) prog" where
  "call_and_leave cf p = with_client cf
     (thenM (on_client (Call_Empty (cPf cf) p)) (on_client (SoftDisconnect (cPf cf))))"

definition DoChipStart :: "config \<Rightarrow> (shell, unit) prog" where
  "DoChipStart cf = call_and_leave cf Start"

definition DoChipStop :: "config \<Rightarrow> (shell, unit) prog" where
  "DoChipStop cf = call_and_leave cf Reset"

text \<open>\<open>CheckFile\<close>, which no command calls; \<open>err\<close> is the \<open>errno\<close> of a failed \<open>open\<close>.\<close>

definition CheckFile :: "platform \<Rightarrow> int option \<Rightarrow> unit result" where
  "CheckFile pf err = (case err of
      Some e \<Rightarrow> Inl (throw_errno pf ''CheckFile'' ''Failed to open firmware file'' e)
    | None \<Rightarrow> Inr ())"

definition DoChipFlash :: "config \<Rightarrow> string \<Rightarrow> (shell, unit) prog" where
  "DoChipFlash cf path = with_client cf
     (thenM (on_client (Call_Flash (cPf cf) path)) (on_client (SoftDisconnect (cPf cf))))"

text \<open>The strings of the response are read through its pointers into the client's buffer.\<close>

definition DoChipStatus :: "config \<Rightarrow> (shell, unit) prog" where
  "DoChipStatus cf = with_client cf
     (bindM (on_client (Call_GetStatus (cPf cf))) (\<lambda>m.
      bindM (on_client (getM Buffer)) (\<lambda>mem.
      thenM (on_shell (put ''Chip status: ''))
     (bindM (liftE (ToCxxStr (cPf cf) mem (Description m))) (\<lambda>d.
      thenM (on_shell (putln d))
     (thenM (on_shell (putln (''Is acquired: '' @ (if Acquired m then ''Yes'' else ''No''))))
     (thenM (if Acquired m then
          thenM (on_shell (put ''User name:  ''))
         (bindM (liftE (ToCxxStr (cPf cf) mem (Name (User m)))) (\<lambda>n.
          thenM (on_shell (putln n))
         (on_shell (putln (''User PID:   '' @ show_int (sint (PID (User m))))))))
        else ret ())
     (on_client (SoftDisconnect (cPf cf))))))))))"

definition PutDaemonParams :: "params \<Rightarrow> (shell, unit) prog" where
  "PutDaemonParams p =
     thenM (putln ''Daemon parameters: '')
    (thenM (putln (TAB @ ''Port:    '' @ show_nat (unat (Port p))))
    (thenM (putln (TAB @ ''Backlog: '' @ show_nat (Backlog p)))
    (putln (TAB @ ''Logs at: '' @ LogPath p))))"

definition DoDaemonStart :: "config \<Rightarrow> (shell, unit) prog" where
  "DoDaemonStart cf =
     thenM (Launch cf)
    (thenM (putln ''Daemon launched successfully'')
    (bindM (liftE (params_of cf)) PutDaemonParams))"

definition DoDaemonStop :: "config \<Rightarrow> (shell, unit) prog" where
  "DoDaemonStop cf = call_and_leave cf Shutdown"

definition run_system :: "string \<Rightarrow> (shell, unit) prog" where
  "run_system cmd = modifyM (\<lambda>s. s\<lparr>systems := systems s @ [cmd]\<rparr>)"

definition DoDaemonKill :: "config \<Rightarrow> (shell, unit) prog" where
  "DoDaemonKill cf = bindM (liftE (params_of cf)) (\<lambda>p.
     let cmd = ''sudo fuser -k '' @ show_nat (unat (Port p)) @ ''/tcp'' in
     thenM (run_system cmd) (putln cmd))"

definition DoDaemonLogs :: "config \<Rightarrow> (shell, unit) prog" where
  "DoDaemonLogs cf = bindM (liftE (params_of cf)) (\<lambda>p. run_system (''cat '' @ LogPath p))"

definition DoDaemonStatus :: "config \<Rightarrow> (shell, unit) prog" where
  "DoDaemonStatus cf =
     bindM (probe cf) (\<lambda>running.
     if \<not> running then putln ''Daemon status: not running''
     else
       thenM (putln ''Daemon status: running'')
      (thenM (bindM (liftE (params_of cf)) PutDaemonParams)
      (with_client cf
        (thenM (catchM (on_client (Call_Empty (cPf cf) Ping)) (\<lambda>e.
           thenM (on_shell (putln (''Failed to ping daemon: '' @ what e))) (raise (Exn e))))
        (thenM (on_shell (putln ''Daemon ping: OK''))
        (on_client (SoftDisconnect (cPf cf))))))))"

definition DoDaemonDebugStart :: "config \<Rightarrow> (shell, unit) prog" where
  "DoDaemonDebugStart cf = RunHere cf"

definition DoDaemonDebugBlock :: "config \<Rightarrow> (shell, unit) prog" where
  "DoDaemonDebugBlock cf = call_and_leave cf DebugBlock"

definition DoDaemonDebugConnect :: "config \<Rightarrow> (shell, unit) prog" where
  "DoDaemonDebugConnect cf = with_client cf
     (bindM (on_client (Call_Connect (cPf cf) (''CLI Debug'', cPid cf))) (\<lambda>m.
      bindM (on_client (getM Buffer)) (\<lambda>mem.
      thenM (on_shell (put ''Motherboard port is ''))
     (bindM (liftE (ToCxxStr (cPf cf) mem m)) (\<lambda>path.
      thenM (on_shell (putln path))
     (on_client (SoftDisconnect (cPf cf))))))))"

definition DoDaemonDebugDisconnect :: "config \<Rightarrow> (shell, unit) prog" where
  "DoDaemonDebugDisconnect cf = call_and_leave cf Disconnect"

text \<open>\<open>catch (ProcException&)\<close>: only an error the server reported is printed and swallowed.\<close>

definition DoDaemonDebugThrow :: "config \<Rightarrow> (shell, unit) prog" where
  "DoDaemonDebugThrow cf = with_client cf
     (thenM (catchM (on_client (Call_Empty (cPf cf) DebugThrow)) (\<lambda>e. case e of
         ProcException msg \<Rightarrow> on_shell (putln (''Error arrived: '' @ msg))
       | _ \<Rightarrow> raise (Exn e)))
     (on_client (SoftDisconnect (cPf cf))))"

section \<open>Run\<close>

datatype keyword =
    KwDaemon | KwChip | KwFlash | KwStart | KwStop | KwStatus | KwHelp
  | KwDebug | KwBlock | KwThrow | KwConnect | KwDisconnect | KwKill | KwLogs

fun KeyWords :: "keyword \<Rightarrow> string" where
  "KeyWords KwDaemon = ''daemon''"
| "KeyWords KwChip = ''chip''"
| "KeyWords KwFlash = ''flash''"
| "KeyWords KwStart = ''start''"
| "KeyWords KwStop = ''stop''"
| "KeyWords KwStatus = ''status''"
| "KeyWords KwHelp = ''help''"
| "KeyWords KwDebug = ''debug''"
| "KeyWords KwBlock = ''block''"
| "KeyWords KwThrow = ''throw''"
| "KeyWords KwConnect = ''connect''"
| "KeyWords KwDisconnect = ''disconnect''"
| "KeyWords KwKill = ''kill''"
| "KeyWords KwLogs = ''logs''"

definition Run_body :: "config \<Rightarrow> (shell, unit) prog" where
  "Run_body cf =
     thenM GetNextToken
    (bindM GetNextToken (\<lambda>cmd.
     if cmd = KeyWords KwChip then
       bindM GetNextToken (\<lambda>cmd.
       if cmd = KeyWords KwStart then DoChipStart cf
       else if cmd = KeyWords KwStop then DoChipStop cf
       else if cmd = KeyWords KwFlash then bindM GetNextToken (DoChipFlash cf)
       else if cmd = KeyWords KwStatus then DoChipStatus cf
       else UnknownToken)
     else if cmd = KeyWords KwDaemon then
       bindM GetNextToken (\<lambda>cmd.
       if cmd = KeyWords KwStart then DoDaemonStart cf
       else if cmd = KeyWords KwStop then DoDaemonStop cf
       else if cmd = KeyWords KwStatus then DoDaemonStatus cf
       else if cmd = KeyWords KwKill then DoDaemonKill cf
       else if cmd = KeyWords KwLogs then DoDaemonLogs cf
       else UnknownToken)
     else if cmd = KeyWords KwDebug then
       bindM GetNextToken (\<lambda>cmd.
       if cmd = KeyWords KwStart then DoDaemonDebugStart cf
       else if cmd = KeyWords KwThrow then DoDaemonDebugThrow cf
       else if cmd = KeyWords KwBlock then DoDaemonDebugBlock cf
       else if cmd = KeyWords KwConnect then DoDaemonDebugConnect cf
       else if cmd = KeyWords KwDisconnect then DoDaemonDebugDisconnect cf
       else UnknownToken)
     else if cmd = KeyWords KwHelp then DoHelp cf
     else UnknownToken))"

text \<open>The two \<open>catch\<close> clauses of \<open>Run\<close>.\<close>

definition report_errors :: "config \<Rightarrow> (shell, unit) prog \<Rightarrow> (shell, unit) prog" where
  "report_errors cf m = catchM m (\<lambda>e. case e of
      SyntaxException msg i \<Rightarrow> thenM (MakeSyntaxErrorMessage cf i msg) (raise (Exn e))
    | _ \<Rightarrow> thenM (MakeErrorMessage (what e)) (raise (Exn e)))"

definition Run :: "config \<Rightarrow> (shell, unit) prog" where
  "Run cf = report_errors cf (Run_body cf)"

text \<open>
  \<open>Execute(tokens)\<close>, on the state of the process; \<open>undef\<close> is the uninitialized \<open>PrevToken\<close>.
  \<open>main\<close> catches everything, and the exit status is 0.
\<close>

definition Execute_tokens :: "config \<Rightarrow> nat \<Rightarrow> string list \<Rightarrow> (shell, unit) prog" where
  "Execute_tokens cf undef tokens =
     thenM (modifyM (\<lambda>s. s\<lparr>Tokens := tokens, CurrentToken := 0, PrevToken := undef\<rparr>))
    (if length tokens = 1 then DoHelp cf else Run cf)"

definition Execute_argv :: "config \<Rightarrow> nat \<Rightarrow> string option list option \<Rightarrow> (shell, unit) prog" where
  "Execute_argv cf undef argv = (case argv of
      None \<Rightarrow> raise (throw_runtime ''Execute'' ''argv is NULL'')
    | Some vs \<Rightarrow> (case find (\<lambda>i. vs ! i = None) [0..<length vs] of
        Some i \<Rightarrow> raise (throw_runtime ''Execute'' (''argv['' @ show_nat i @ ''] is NULL''))
      | None \<Rightarrow> Execute_tokens cf undef (map the vs)))"

definition CLI_main :: "config \<Rightarrow> nat \<Rightarrow> string option list option \<Rightarrow> (shell, nat) prog" where
  "CLI_main cf undef argv s = (case Execute_argv cf undef argv s of
      (Inl (Exn e), t) \<Rightarrow> (Inr 0, t)
    | (Inl f, t) \<Rightarrow> (Inl f, t)
    | (Inr u, t) \<Rightarrow> (Inr 0, t))"

section \<open>The grammar\<close>

text \<open>What the token reader recognizes, as a function on the list of tokens.\<close>

datatype action =
    AChipStart | AChipStop | AChipFlash string | AChipStatus
  | ADaemonStart | ADaemonStop | ADaemonStatus | ADaemonKill | ADaemonLogs
  | ADebugStart | ADebugThrow | ADebugBlock | ADebugConnect | ADebugDisconnect
  | AHelp

fun perform :: "config \<Rightarrow> action \<Rightarrow> (shell, unit) prog" where
  "perform cf AChipStart = DoChipStart cf"
| "perform cf AChipStop = DoChipStop cf"
| "perform cf (AChipFlash path) = DoChipFlash cf path"
| "perform cf AChipStatus = DoChipStatus cf"
| "perform cf ADaemonStart = DoDaemonStart cf"
| "perform cf ADaemonStop = DoDaemonStop cf"
| "perform cf ADaemonStatus = DoDaemonStatus cf"
| "perform cf ADaemonKill = DoDaemonKill cf"
| "perform cf ADaemonLogs = DoDaemonLogs cf"
| "perform cf ADebugStart = DoDaemonDebugStart cf"
| "perform cf ADebugThrow = DoDaemonDebugThrow cf"
| "perform cf ADebugBlock = DoDaemonDebugBlock cf"
| "perform cf ADebugConnect = DoDaemonDebugConnect cf"
| "perform cf ADebugDisconnect = DoDaemonDebugDisconnect cf"
| "perform cf AHelp = DoHelp cf"

definition commands :: "(string \<times> (string \<times> action) list) list" where
  "commands =
    [(''chip'', [(''start'', AChipStart), (''stop'', AChipStop), (''status'', AChipStatus)]),
     (''daemon'', [(''start'', ADaemonStart), (''stop'', ADaemonStop), (''status'', ADaemonStatus),
        (''kill'', ADaemonKill), (''logs'', ADaemonLogs)]),
     (''debug'', [(''start'', ADebugStart), (''throw'', ADebugThrow), (''block'', ADebugBlock),
        (''connect'', ADebugConnect), (''disconnect'', ADebugDisconnect)])]"

definition eoc :: string where "eoc = ''Unexpected end of command''"
definition unknown :: string where "unknown = ''Unknown token''"

text \<open>The result \<open>Inl (msg, i)\<close> is a syntax error at token \<open>i\<close>.\<close>

fun parse :: "string list \<Rightarrow> (string \<times> nat) + action" where
  "parse (x # c # d # r) =
     (if c = ''chip'' \<and> d = ''flash'' then (case r of [] \<Rightarrow> Inl (eoc, 2) | p # _ \<Rightarrow> Inr (AChipFlash p))
      else if c = ''help'' then Inr AHelp
      else (case map_of commands c of
         None \<Rightarrow> Inl (unknown, 1)
       | Some subs \<Rightarrow> (case map_of subs d of None \<Rightarrow> Inl (unknown, 2) | Some a \<Rightarrow> Inr a)))"
| "parse [x, c] =
     (if c = ''help'' then Inr AHelp
      else (case map_of commands c of None \<Rightarrow> Inl (unknown, 1) | Some subs \<Rightarrow> Inl (eoc, 1)))"
| "parse ts = Inl (eoc, 0)"

text \<open>The reader after \<open>n\<close> tokens.\<close>

definition reader_at :: "nat \<Rightarrow> shell \<Rightarrow> shell" where
  "reader_at n s = s\<lparr>CurrentToken := n, PrevToken := n - 1\<rparr>"

lemma GetNextToken_first:
  "CurrentToken s = 0 \<Longrightarrow> Tokens s = x # ts \<Longrightarrow> GetNextToken s = (Inr x, reader_at 1 s)"
  by (simp add: GetNextToken_def reader_at_def)

lemma GetNextToken_at:
  "0 < n \<Longrightarrow> n < length (Tokens s) \<Longrightarrow>
   GetNextToken (reader_at n s) = (Inr (Tokens s ! n), reader_at (Suc n) s)"
  by (simp add: GetNextToken_def reader_at_def)

lemma GetNextToken_end:
  "n = length (Tokens s) \<Longrightarrow>
   GetNextToken (reader_at n s) = (Inl (Exn (SyntaxException eoc (n - 1))), reader_at n s)"
  by (simp add: GetNextToken_def reader_at_def eoc_def)

lemma UnknownToken_at:
  "UnknownToken (reader_at n s) = (Inl (Exn (SyntaxException unknown (n - 1))), reader_at n s)"
  by (simp add: UnknownToken_def reader_at_def unknown_def)

lemmas reader_simps = GetNextToken_first GetNextToken_at GetNextToken_end UnknownToken_at

lemmas parse_cases = parse.cases [case_names three two none one]

lemma Run_body_parse:
  assumes "CurrentToken s = 0" and "Tokens s = ts" and "ts \<noteq> []"
  shows "\<exists>n. Run_body cf s = (case parse ts of
      Inl (msg, i) \<Rightarrow> (Inl (Exn (SyntaxException msg i)), reader_at n s)
    | Inr a \<Rightarrow> perform cf a (reader_at n s))"
proof (cases ts rule: parse_cases)
  case (three x c d r)
  have t: "GetNextToken s = (Inr x, reader_at 1 s)" "GetNextToken (reader_at 1 s) = (Inr c, reader_at 2 s)"
    "GetNextToken (reader_at 2 s) = (Inr d, reader_at 3 s)"
    using reader_simps(1) [OF assms(1)] reader_simps(2) [of 1 s] reader_simps(2) [of 2 s] assms(2) three
    by (simp_all add: numeral_2_eq_2 numeral_3_eq_3)
  have fl: "GetNextToken (reader_at 3 s) = (case r of
      [] \<Rightarrow> (Inl (Exn (SyntaxException eoc 2)), reader_at 3 s) | p # _ \<Rightarrow> (Inr p, reader_at 4 s))"
    using reader_simps(2) [of 3 s] reader_simps(3) [of 3 s] assms(2) three by (cases r) (simp_all add: numeral_eq_Suc)
  let ?n = "if c = ''chip'' \<and> d = ''flash'' then (case r of [] \<Rightarrow> 3 | _ \<Rightarrow> 4)
     else if c = ''help'' \<or> map_of commands c = None then 2 else 3 :: nat"
  have "UnknownToken (reader_at 2 s) = (Inl (Exn (SyntaxException unknown 1)), reader_at 2 s)"
    "UnknownToken (reader_at 3 s) = (Inl (Exn (SyntaxException unknown 2)), reader_at 3 s)"
    using UnknownToken_at [of 2 s] UnknownToken_at [of 3 s] by simp_all
  then show ?thesis
    using t fl three by (intro exI [of _ ?n])
      (auto simp: Run_body_def thenM_def bindM_def commands_def split: list.splits)
next
  case (two x c)
  have t: "GetNextToken s = (Inr x, reader_at 1 s)" "GetNextToken (reader_at 1 s) = (Inr c, reader_at 2 s)"
    "GetNextToken (reader_at 2 s) = (Inl (Exn (SyntaxException eoc 1)), reader_at 2 s)"
    using reader_simps(1) [OF assms(1)] reader_simps(2) [of 1 s] reader_simps(3) [of 2 s] assms(2) two
    by (simp_all add: numeral_2_eq_2)
  have "UnknownToken (reader_at 2 s) = (Inl (Exn (SyntaxException unknown 1)), reader_at 2 s)"
    using UnknownToken_at [of 2 s] by simp
  then show ?thesis
    using t two by (intro exI [of _ 2]) (auto simp: Run_body_def thenM_def bindM_def commands_def)
next
  case none
  with assms(3) show ?thesis by simp
next
  case (one x)
  have "GetNextToken s = (Inr x, reader_at 1 s)"
    "GetNextToken (reader_at 1 s) = (Inl (Exn (SyntaxException eoc 0)), reader_at 1 s)"
    using reader_simps(1) [OF assms(1)] reader_simps(3) [of 1 s] assms(2) one by simp_all
  then show ?thesis using one by (intro exI [of _ 1]) (simp add: Run_body_def thenM_def bindM_def)
qed

lemma parse_error_index:
  "parse ts = Inl (msg, i) \<Longrightarrow> ts \<noteq> [] \<Longrightarrow> i < length ts"
  by (cases ts rule: parse.cases) (auto split: if_splits list.splits option.splits)

text \<open>\<open>MakeClient\<close> is \<open>DaemonTools::Connect\<close> on the part of the process that it uses.\<close>

lemma MakeClient_Connect:
  assumes "params_of cf = Inr p" and "probes s = r # rs"
  shows "MakeClient cf s = zoom Net (\<lambda>n. Net_update (\<lambda>_. n))
    (DaemonTools_Connect (cPf cf) (params_of cf) r (cGarbage cf)) (s\<lparr>probes := rs\<rparr>)"
  using assms
  by (cases "IsRunning (cPf cf) (Inr p) r")
    (auto simp: MakeClient_def probe_def DaemonTools_Connect_def bindM_def zoom_def split: prod.splits)

section \<open>A command that makes one call\<close>

lemma SoftDisconnect_ok:
  assumes "rpc_wf c" and "ErrCode c = Error_ID" and "tx_after 12 (tx (Conn c)) = Some t1" and "tx_after 12 t1 = Some t2"
  shows "\<exists>c'. SoftDisconnect pf c = (Inr (), c') \<and> sent (Conn c') = sent (Conn c) @
    package Error_ID (to_bytes ''Disconnect'') @ package Error_ID (to_bytes ''Disconnect'')"
proof -
  have "length ''Disconnect'' \<le> char_limit pf" by (simp add: char_limit_def)
  from PackError_SendPackage [OF assms(1) this, of t1 t2] assms(2-4) show ?thesis
    by (simp add: SoftDisconnect_def numeral_eq_Suc)
qed

text \<open>The farewell of \<open>SoftDisconnect\<close>: the error package, which goes out twice.\<close>

definition farewell :: "byte list" where
  "farewell = package Error_ID (to_bytes ''Disconnect'') @ package Error_ID (to_bytes ''Disconnect'')"

text \<open>A client that does something, says goodbye and is destroyed.\<close>

abbreviation then_leave :: "config \<Rightarrow> (rpc, unit) prog \<Rightarrow> (shell, unit) prog" where
  "then_leave cf m \<equiv> with_client cf (thenM (on_client m) (on_client (SoftDisconnect (cPf cf))))"

lemma leave_ok:
  assumes "MakeClient cf s = (Inr c, s1)" and "m c = (Inr (), c1)" and "rpc_wf c1" and "ErrCode c1 = Error_ID"
    and "tx_open (tx (Conn c1)) 2"
  shows "then_leave cf m s = (Inr (), s1\<lparr>wire := wire s1 @ sent (Conn c1) @ farewell\<rparr>)"
proof -
  obtain t1 where t1: "tx_after 12 (tx (Conn c1)) = Some t1" "tx_open t1 1"
    using tx_open_after [of "tx (Conn c1)" 1 12] assms(5) by (auto simp: numeral_2_eq_2)
  then obtain t2 where "tx_after 12 t1 = Some t2" using tx_open_after [of t1 0 12] by auto
  with SoftDisconnect_ok [OF assms(3,4) t1(1), of t2 "cPf cf"] obtain c2 where
    "SoftDisconnect (cPf cf) c1 = (Inr (), c2)" "sent (Conn c2) = sent (Conn c1) @ farewell"
    unfolding farewell_def by blast
  with assms(1,2) show ?thesis by (simp add: with_client_def on_client_def zoom_def thenM_def bindM_def)
qed

lemma leave_error:
  assumes "MakeClient cf s = (Inr c, s1)" and "m c = (Inl f, c1)"
  shows "then_leave cf m s = (Inl f, s1\<lparr>wire := wire s1 @ sent (Conn c1)\<rparr>)"
  using assms by (simp add: with_client_def on_client_def zoom_def thenM_def bindM_def)

section \<open>Properties\<close>

definition tokens_read :: "nat \<Rightarrow> string list \<Rightarrow> shell \<Rightarrow> shell" where
  "tokens_read n tokens s = reader_at n (s\<lparr>Tokens := tokens\<rparr>)"

lemma Execute_tokens_parse:
  assumes "2 \<le> length tokens"
  shows "\<exists>n. Execute_tokens cf undef tokens s = (case parse tokens of
      Inl (msg, i) \<Rightarrow>
        thenM (MakeSyntaxErrorMessage cf i msg) (raise (Exn (SyntaxException msg i))) (tokens_read n tokens s)
    | Inr a \<Rightarrow> report_errors cf (perform cf a) (tokens_read n tokens s))"
proof -
  let ?s = "s\<lparr>Tokens := tokens, CurrentToken := 0, PrevToken := undef\<rparr>"
  obtain n where n: "Run_body cf ?s = (case parse tokens of
      Inl (msg, i) \<Rightarrow> (Inl (Exn (SyntaxException msg i)), reader_at n ?s)
    | Inr a \<Rightarrow> perform cf a (reader_at n ?s))"
    using Run_body_parse [of ?s tokens cf] assms by fastforce
  have eq: "reader_at n ?s = tokens_read n tokens s" by (simp add: reader_at_def tokens_read_def)
  show ?thesis
    using n assms unfolding eq
    by (intro exI [of _ n])
      (auto simp: Execute_tokens_def thenM_def bindM_def Run_def report_errors_def catchM_def split: sum.splits prod.splits)
qed


definition demo_config :: config where
  "demo_config = \<lparr>cPf = arm, CLI_EXECUTABLE = ''mbctl'', cNames = \<lparr>port_env = ''PORT'', backlog_env = ''BACKLOG'',
     logfile_env = ''LOG'', count_env = ''COUNT'', period_env = ''PERIOD''\<rparr>,
     cEnviron = map_of [(''PORT'', ''8080''), (''BACKLOG'', ''5''), (''LOG'', ''/tmp/log''), (''COUNT'', ''2''), (''PERIOD'', ''10'')],
     cPid = 1234, cGarbage = replicate 256 0\<rparr>"

definition demo_shell :: "conn list \<Rightarrow> shell" where
  "demo_shell cs = \<lparr>Tokens = [], CurrentToken = 0, PrevToken = 0, cout = [],
     probes = [\<lparr>socket_err = None, bind_err = Some EADDRINUSE, listen_err = None\<rparr>],
     Net = \<lparr>dials = map Linked cs, dialled = []\<rparr>, launch = (None, None, demo_pipe []), served = Inr (),
     systems = [], wire = []\<rparr>"

lemma demo_params:
  "params_of demo_config = Inr \<lparr>Port = 8080, Backlog = 5, LogPath = ''/tmp/log'', ConnAttemptCount = 2,
     ConnAttemptPeriod = 10\<rparr>"
  by (simp add: params_of_def demo_config_def GetParams_def GetEnv_def stoul_def is_space_def is_digit_def
      digits_value_def)

lemma demo_config_sel: "cPf demo_config = arm" "cGarbage demo_config = replicate 256 0"
  by (simp_all add: demo_config_def)

lemma demo_MakeClient:
  "\<exists>s1. MakeClient demo_config (demo_shell [demo_conn [RxData [145, 31]], c]) = (Inr (Client_new c (replicate 256 0)), s1) \<and>
     wire s1 = []"
proof -
  have "hello_bytes 8081 = [145, 31]" by code_simp
  then have "Factory_Connect arm (factory_for arm INADDR_ANY 8080) (replicate 256 0)
        \<lparr>dials = [Linked (demo_conn [RxData [145, 31]]), Linked c], dialled = []\<rparr> =
      (Inr (Client_new c (replicate 256 0)), \<lparr>dials = [], dialled = [(INADDR_ANY, 8080), (INADDR_ANY, 8081)]\<rparr>)"
    using Factory_Connect_ok [of _ "demo_conn [RxData [145, 31]]" c "[]" 8081 "[]"] by (simp add: demo_conn_def)
  then show ?thesis
    by (auto simp: MakeClient_def probe_def demo_params demo_shell_def IsRunning_def ServerSocket_new_def throw_errno_def
        mk_ErrnoException_def bindM_def zoom_def demo_config_sel connect_daemon_def Factory_new_eq ConnectLoop_success)
qed


text \<open>
  C23: A command line the grammar does not accept is refused: the syntax error names a token that is
  there, it is printed with the tokens and that token marked, and nothing is sent, started, probed
  or dialled.
\<close>

theorem cli_refuses_bad_syntax:
  assumes "2 \<le> length tokens" and "parse tokens = Inl (msg, i)"
  shows "i < length tokens \<and> (\<exists>n. Execute_tokens cf undef tokens s = (Inl (Exn (SyntaxException msg i)),
    (tokens_read n tokens s)\<lparr>cout := cout s @ ''Syntax error: '' @ msg @ newline @
      ''Reason: '' @ marked_tokens i tokens @ newline @
      ''Usage: '' @ CLI_EXECUTABLE cf @ '' <COMMAND> <ARGS>'' @ newline @
      ''See \"'' @ CLI_EXECUTABLE cf @ '' help\"'' @ newline\<rparr>))"
proof -
  obtain n where n: "Execute_tokens cf undef tokens s =
      thenM (MakeSyntaxErrorMessage cf i msg) (raise (Exn (SyntaxException msg i))) (tokens_read n tokens s)"
    using Execute_tokens_parse [OF assms(1), of cf undef s] assms(2) by auto
  have "tokens \<noteq> []" using assms(1) by auto
  then show ?thesis
    using n parse_error_index [OF assms(2)]
    by (auto simp: MakeSyntaxErrorMessage_def PrintUsage_def putln_def put_def thenM_def bindM_def
        tokens_read_def reader_at_def)
qed

theorem cli_refuses_bad_syntax_witness:
  "fst (Execute_tokens demo_config 0 [''mbctl'', ''chip'', ''flash''] (demo_shell [])) =
     Inl (Exn (SyntaxException ''Unexpected end of command'' 2)) \<and>
   wire (snd (Execute_tokens demo_config 0 [''mbctl'', ''chip'', ''flash''] (demo_shell []))) = []"
  using cli_refuses_bad_syntax [of "[''mbctl'', ''chip'', ''flash'']" eoc 2 demo_config 0 "demo_shell []"]
  by (auto simp: eoc_def tokens_read_def reader_at_def demo_shell_def)

text \<open>
  The help text and the grammar agree: every line of the help is a command the reader accepts,
  and every command has a line (\<open>chip flash\<close> with its placeholder for the path).
\<close>

lemma help_agrees_with_grammar:
  "map (\<lambda>(ts, d, p). parse (exe # ts)) (daemon_help @ chip_help @ [([''help''], ''Prints this text'', '''')] @ debug_help) =
   map Inr [ADaemonStart, ADaemonStop, ADaemonStatus, ADaemonLogs, ADaemonKill,
     AChipStart, AChipStop, AChipFlash ''<PATH>'', AChipStatus, AHelp,
     ADebugStart, ADebugBlock, ADebugThrow, ADebugConnect, ADebugDisconnect]"
  by (simp add: daemon_help_def chip_help_def debug_help_def commands_def)

end
