(* ===== verification/Daemon_System.thy ===== *)
theory Daemon_System
  imports Session_Safety Server_Signals Daemon_CLI
begin

text \<open>
  The command line and the daemon together.  The commands \<open>chip start\<close>, \<open>chip stop\<close>, \<open>chip flash\<close>,
  \<open>daemon stop\<close>, \<open>debug block\<close> and \<open>debug disconnect\<close> make one call and leave.  Here such a command runs
  against the session that the daemon has for its client: what one end sends is what the other end
  receives, however it is cut into segments.

  \<open>remote\<close> says which command of the session's specification a command line action asks for;
  \<open>remote_call\<close> is the call it makes.
\<close>

section \<open>Actions that make one call\<close>

fun remote :: "action \<Rightarrow> command option" where
  "remote AChipStart = Some CStart"
| "remote AChipStop = Some CReset"
| "remote (AChipFlash path) = Some (CFlash path)"
| "remote ADaemonStop = Some CShutdown"
| "remote ADebugBlock = Some CDebugBlock"
| "remote ADebugDisconnect = Some CDisconnect"
| "remote a = None"

fun remote_call :: "platform \<Rightarrow> command \<Rightarrow> (rpc, unit) prog" where
  "remote_call pf (CFlash path) = Call_Flash pf path"
| "remote_call pf c = Call_Empty pf (proc_of c)"

lemma perform_remote: "remote a = Some cmd \<Longrightarrow> perform cf a = then_leave cf (remote_call (cPf cf) cmd)"
  by (cases a) (auto simp: DoChipStart_def DoChipStop_def DoChipFlash_def DoDaemonStop_def DoDaemonDebugBlock_def
      DoDaemonDebugDisconnect_def call_and_leave_def)

text \<open>The name of a procedure in an error, which every procedure has.\<close>

lemma ToStr_ID: "\<exists>name. ToStr pf (ID p) = Inr name"
  by (cases p) (simp_all add: ToStr_def Error_ID_def)

text \<open>The response to these commands is empty.\<close>

lemma exec_remote_empty:
  assumes "remote a = Some cmd" and "exec pf cmd h = (Inr p, h')"
  shows "p = []"
  using assms by (cases a) (auto simp: thenM_def bindM_def split: prod.splits sum.splits if_splits)

section \<open>The client's half\<close>

definition fresh_client :: "rpc \<Rightarrow> nat \<Rightarrow> bool" where
  "fresh_client c n \<longleftrightarrow> rpc_wf c \<and> ErrCode c = Error_ID \<and> sent (Conn c) = [] \<and> tx_open (tx (Conn c)) n"

lemma remote_call_ok:
  assumes "remote a = Some cmd" and "fresh_client c (Suc n)" and "fits pf (payload_of cmd)"
    and "rx_bytes (rx (Conn c)) = package (ID q) [] @ rest"
  shows "\<exists>c1. remote_call pf cmd c = (Inr (), c1) \<and> rpc_wf c1 \<and> ErrCode c1 = Error_ID \<and>
    tx_open (tx (Conn c1)) n \<and> sent (Conn c1) = request_bytes cmd"
proof -
  obtain t where t: "tx_after (length (payload_of cmd) + 2) (tx (Conn c)) = Some t" "tx_open t n"
    using tx_open_after [of "tx (Conn c)" n "length (payload_of cmd) + 2"] assms(2,3)
    by (auto simp: fresh_client_def fits_def)
  show ?thesis
  proof (cases a)
    case (AChipFlash path)
    with flash_call.call_ok [of c pf path "()" t q rest "ID Flash"] assms t show ?thesis
      by (auto simp: fresh_client_def Call_Flash_def enc_empty_def fits_def request_bytes_def)
  qed (use empty_call.call_ok [of c pf "()" "()" t q rest "ID (proc_of cmd)"] assms t in
      \<open>auto simp: fresh_client_def Call_Empty_def enc_empty_def fits_def request_bytes_def numeral_2_eq_2\<close>)
qed

lemma remote_call_error:
  assumes "remote a = Some cmd" and "fresh_client c (Suc n)" and "fits pf (payload_of cmd)"
    and "rx_bytes (rx (Conn c)) = package Error_ID (to_bytes msg) @ rest" and "length msg \<le> 255"
    and "ProcException_Message pf (ID (proc_of cmd)) msg = Inr txt"
  shows "\<exists>c1. remote_call pf cmd c = (Inl (Exn (ProcException txt)), c1) \<and> sent (Conn c1) = request_bytes cmd"
proof -
  obtain t where t: "tx_after (length (payload_of cmd) + 2) (tx (Conn c)) = Some t"
    using tx_open_after [of "tx (Conn c)" n "length (payload_of cmd) + 2"] assms(2,3)
    by (auto simp: fresh_client_def fits_def)
  show ?thesis
  proof (cases a)
    case (AChipFlash path)
    with flash_call.call_error [of c pf path msg t rest "ID Flash"] assms t show ?thesis
      by (auto simp: fresh_client_def Call_Flash_def enc_empty_def fits_def request_bytes_def)
  qed (use empty_call.call_error [of c pf "()" msg t rest "ID (proc_of cmd)"] assms t in
      \<open>auto simp: fresh_client_def Call_Empty_def enc_empty_def fits_def request_bytes_def numeral_2_eq_2\<close>)
qed

section \<open>The daemon's half\<close>

lemma read_flag_update: "\<exists>f. read_flag s = (fst (read_flag s), s\<lparr>flags := f\<rparr>)"
  by (cases "flags s") (auto simp: read_flag_def intro: exI [of _ "[]"])

text \<open>
  What the client sends after its request: the farewell when its call succeeded, nothing when the
  call threw.
\<close>

definition parting :: "'a result \<Rightarrow> byte list" where
  "parting q = (case q of Inl f \<Rightarrow> [] | Inr p \<Rightarrow> farewell)"

text \<open>
  The session that serves one command; the client hangs up at the end.  The session has seen no shutdown
  when it starts; it may see one after the command.
\<close>

lemma one_command_session:
  assumes "length garbage = 256" and "naps v = []" and "\<not> fst (read_flag v)" and "fits pf (payload_of cmd)"
    and "exec pf cmd (Hnd v) = (q, h)" and "reply pf cmd q = Some out" and "tx_open (tx d) 2"
    and "rx_bytes (rx d) = request_bytes cmd @ parting q" and "rx_end (rx d) = Some (RxData [])"
  shows "\<exists>t. HandlerRoutine pf (HandlerImpl pf) garbage (Accepted d) v = (Inr (), t) \<and> Hnd t = h \<and>
    sent (Conn (Rpc t)) = sent d @ out \<and> kills t = kills v + sigterms cmd"
proof -
  let ?I = "HandlerImpl pf"
  obtain u where u: "HandlerRoutine pf ?I garbage (Accepted d) v = RequestLoop pf ?I u"
    "ready u" "Hnd u = Hnd v" "kills u = kills v" "Conn (Rpc u) = d" "flags u = flags v"
    using HandlerRoutine_accepted [OF assms(1,2), of pf ?I d] by blast
  then have "fst (read_flag u) = fst (read_flag v)" by (simp add: read_flag_def split: list.splits)
  then obtain f where f: "read_flag u = (False, u\<lparr>flags := f\<rparr>)" using assms(3) read_flag_update [of u] by auto
  obtain t where t: "loop_body pf ?I (u\<lparr>flags := f\<rparr>) = (Inr True, t)" "ready t" "Hnd t = h"
    "kills t = kills v + sigterms cmd" "rx_bytes (rx (Conn (Rpc t))) = parting q"
    "rx_end (rx (Conn (Rpc t))) = Some (RxData [])" "sent (Conn (Rpc t)) = sent d @ out"
    using loop_body_command [of "u\<lparr>flags := f\<rparr>" pf cmd q h out "parting q" 0] u assms(4-9)
    by (auto simp: numeral_2_eq_2)
  obtain b g where g: "read_flag t = (b, t\<lparr>flags := g\<rparr>)" using read_flag_update [of t] by blast
  have "\<exists>w. RequestLoop pf ?I t = (Inr (), w) \<and> Hnd w = h \<and> kills w = kills t \<and> sent (Conn (Rpc w)) = sent (Conn (Rpc t))"
  proof (cases b)
    case False
    show ?thesis
    proof (cases q)
      case (Inl e)
      with loop_body_cut [of "t\<lparr>flags := g\<rparr>" "RxData []" pf ?I] t False g show ?thesis
        by (subst RequestLoop.simps) (auto simp: parting_def cut_short_def)
    next
      case (Inr p)
      with loop_body_farewell [of "t\<lparr>flags := g\<rparr>" "to_bytes ''Disconnect''" _ pf ?I] t False g show ?thesis
        by (subst RequestLoop.simps) (auto simp: parting_def farewell_def)
    qed
  qed (use g t in \<open>simp add: RequestLoop.simps [of pf ?I t]\<close>)
  with t u(1) f show ?thesis by (auto simp: RequestLoop.simps [of pf ?I u])
qed

section \<open>Both ends\<close>

text \<open>
  What a command that makes one call does to the daemon, and what the daemon's answer does to the
  command.
\<close>

lemma command_served:
  assumes "remote a = Some cmd" and "MakeClient cf s = (Inr c, s1)" and "fresh_client c 3"
    and "fits (cPf cf) (payload_of cmd)"
    and "length garbage = 256" and "naps v = []" and "\<not> fst (read_flag v)" and "fits pf (payload_of cmd)"
    and "exec pf cmd (Hnd v) = (q, h)" and "reply pf cmd q = Some out" and "tx_open (tx d) 2" and "sent d = []"
    and "rx_bytes (rx d) = request_bytes cmd @ parting q" and "rx_end (rx d) = Some (RxData [])"
    and "HandlerRoutine pf (HandlerImpl pf) garbage (Accepted d) v = (r, t)"
    and "rx_bytes (rx (Conn c)) = sent (Conn (Rpc t))"
  shows "r = Inr () \<and> Hnd t = h \<and> kills t = kills v + sigterms cmd \<and>
    (\<exists>q'. perform cf a s = (q', s1\<lparr>wire := wire s1 @ request_bytes cmd @ parting q\<rparr>) \<and>
      (\<forall>p. q = Inr p \<longrightarrow> q' = Inr ()) \<and>
      (\<forall>e. q = Inl (Exn e) \<longrightarrow> (\<exists>name. ToStr (cPf cf) (ID (proc_of cmd)) = Inr name \<and>
        q' = Inl (Exn (ProcException (''Remote procedure \"'' @ name @ ''\" returned error: '' @ what e))))))"
proof -
  have srv: "r = Inr ()" "Hnd t = h" "sent (Conn (Rpc t)) = out" "kills t = kills v + sigterms cmd"
    using one_command_session [OF assms(5-11,13,14)] assms(12,15) by auto
  have fc: "fresh_client c (Suc 2)" using assms(3) by (simp add: numeral_eq_Suc)
  consider p where "q = Inr p" | e where "q = Inl (Exn e)" using assms(10) by (cases "(pf, cmd, q)" rule: reply.cases) auto
  then show ?thesis
  proof cases
    case 1
    then have out: "out = package (ID (proc_of cmd)) [] @ []"
      using exec_remote_empty [OF assms(1)] assms(9,10) by (auto split: if_splits)
    obtain c1 where "remote_call (cPf cf) cmd c = (Inr (), c1)" "rpc_wf c1" "ErrCode c1 = Error_ID"
      "tx_open (tx (Conn c1)) 2" "sent (Conn c1) = request_bytes cmd"
      using remote_call_ok [OF assms(1) fc assms(4)] assms(16) srv(3) out by metis
    with leave_ok [OF assms(2)] perform_remote [OF assms(1)] 1 srv show ?thesis by (simp add: parting_def)
  next
    case 2
    then have out: "out = package Error_ID (to_bytes (what e)) @ package Error_ID (to_bytes (what e))" "length (what e) \<le> 255"
      using assms(10) by (auto simp: fits_def split: if_splits)
    obtain name where name: "ToStr (cPf cf) (ID (proc_of cmd)) = Inr name" using ToStr_ID by blast
    let ?txt = "''Remote procedure \"'' @ name @ ''\" returned error: '' @ what e"
    have "ProcException_Message (cPf cf) (ID (proc_of cmd)) (what e) = Inr ?txt"
      using name by (simp add: ProcException_Message_def)
    then obtain c1 where "remote_call (cPf cf) cmd c = (Inl (Exn (ProcException ?txt)), c1)" "sent (Conn c1) = request_bytes cmd"
      using remote_call_error [OF assms(1) fc assms(4) _ out(2)] assms(16) srv(3) out(1) by metis
    with leave_error [OF assms(2)] perform_remote [OF assms(1)] 2 srv name show ?thesis by (simp add: parting_def)
  qed
qed

section \<open>From the tokens to the script\<close>

text \<open>\<open>MakeClient\<close> does not look at the tokens.\<close>

lemma MakeClient_tokens_read:
  "MakeClient cf s = (q, s1) \<Longrightarrow> MakeClient cf (tokens_read n tokens s) = (q, tokens_read n tokens s1)"
  by (auto simp: MakeClient_def probe_def tokens_read_def reader_at_def bindM_def zoom_def split: sum.splits list.splits
      prod.splits if_splits)

text \<open>Flashing in the boot state, when the script succeeds.\<close>

lemma exec_Flash_ok:
  assumes "\<not> hAcquired h" and "State (Firmware h) = Boot" and "procs (OS (Firmware h)) = Waited ch # r"
    and "child_ok False ch"
  shows "exec pf (CFlash path) h = (Inr [], h\<lparr>Firmware := SetState Boot ((Firmware h)\<lparr>OS :=
    start_child (PYTHON_RUN pf ''BootloaderFlash.py'' @ path) False (OS (Firmware h))\<rparr>)\<rparr>)"
proof -
  let ?w = "start_child (PYTHON_RUN pf ''BootloaderFlash.py'' @ path) False (OS (Firmware h))"
  have "FlashBootlader pf path (Firmware h) = (Inr (), SetState Boot ((Firmware h)\<lparr>OS := ?w\<rparr>))"
    using DoTransition_success [of "Firmware h" "FlashBootlader_routine pf path" "()" ?w]
      Execute_ok [OF assms(3,4)] assms(2)
    by (simp add: FlashBootlader_def FlashBootlader_routine_def BootloaderFlash_def)
  from with_firmware_apply [of "FlashBootlader pf path" h, OF this] assms(1) show ?thesis by (simp add: thenM_def bindM_def)
qed

section \<open>Properties\<close>

text \<open>The daemon and a command line for the examples: what the client sends, and the board.\<close>

abbreviation demo_link :: "byte list \<Rightarrow> conn" where
  "demo_link bs \<equiv> demo_conn [RxData bs, RxData []]"

lemma demo_link_facts:
  "bs \<noteq> [] \<Longrightarrow> rx_bytes (rx (demo_link bs)) = bs" "rx_end (rx (demo_link bs)) = Some (RxData []) \<or> bs = []"
  "tx_open (tx (demo_link bs)) 2" "sent (demo_link bs) = []"
  by (auto simp: demo_conn_def tx_open_def)

lemma demo_session_facts:
  "naps (demo_session h) = []" "\<not> fst (read_flag (demo_session h))" "Hnd (demo_session h) = h" "kills (demo_session h) = 0"
  by (simp_all add: demo_session_def read_flag_def)

lemma demo_client_facts: "fresh_client (Client_new (demo_conn r) (replicate 256 0)) 3"
  "Conn (Client_new (demo_conn r) (replicate 256 0)) = demo_conn r"
  by (simp_all add: fresh_client_def Client_new_def RPCProvider_new_def rpc_wf_def BufSize_def demo_conn_def tx_open_def)

lemma request_nonempty [simp]: "request_bytes c \<noteq> []"
  by (simp add: request_bytes_def package_def)

text \<open>A session of the daemon that serves one command of the example.\<close>

lemma demo_served:
  assumes "fits arm (payload_of cmd)" and "exec arm cmd h = (q, h')" and "reply arm cmd q = Some out"
  shows "\<exists>t. HandlerRoutine arm (HandlerImpl arm) (replicate 256 0) (Accepted (demo_link (request_bytes cmd @ parting q)))
      (demo_session h) = (Inr (), t) \<and> sent (Conn (Rpc t)) = out"
proof -
  let ?bs = "request_bytes cmd @ parting q"
  have ne: "?bs \<noteq> []" by simp
  show ?thesis
    using one_command_session [OF _ demo_session_facts(1,2) assms(1) _ assms(3) demo_link_facts(3) demo_link_facts(1) [OF ne],
        of "replicate 256 0" h h'] demo_link_facts(2,4) [of ?bs] assms(2) demo_session_facts(3) [of h] ne by fastforce
qed



text \<open>
  C26: \<open>chip flash PATH\<close>, from the tokens to the script.  When the port is free, the chip is in its boot state
  and the script succeeds, the command line sends the path to the daemon, the daemon gives the shell exactly one
  command, the flashing script followed by the path as it was typed, the chip is in its boot state again,
  and the command succeeds.
\<close>

theorem flash_end_to_end:
  assumes "tokens = exe # ''chip'' # ''flash'' # path # extra"
    and "MakeClient cf s = (Inr c, s1)" and "fresh_client c 3"
    and "fits (cPf cf) (enc_string path)" and "fits pf (enc_string path)"
    and "length garbage = 256" and "naps v = []" and "\<not> fst (read_flag v)"
    and "\<not> hAcquired (Hnd v)" and "State (Firmware (Hnd v)) = Boot"
    and "procs (OS (Firmware (Hnd v))) = Waited ch # rest" and "child_ok False ch"
    and "tx_open (tx d) 2" and "sent d = []"
    and "rx_bytes (rx d) = request_bytes (CFlash path) @ farewell" and "rx_end (rx d) = Some (RxData [])"
    and "HandlerRoutine pf (HandlerImpl pf) garbage (Accepted d) v = (r, t)"
    and "rx_bytes (rx (Conn c)) = sent (Conn (Rpc t))"
  shows "(\<exists>s2. Execute_tokens cf undef tokens s = (Inr (), s2) \<and>
      wire s2 = wire s1 @ request_bytes (CFlash path) @ farewell \<and> cout s2 = cout s1) \<and>
    cmds (OS (Firmware (Hnd t))) = cmds (OS (Firmware (Hnd v))) @ [PYTHON_RUN pf ''BootloaderFlash.py'' @ path] \<and>
    State (Firmware (Hnd t)) = Boot"
proof -
  let ?w = "start_child (PYTHON_RUN pf ''BootloaderFlash.py'' @ path) False (OS (Firmware (Hnd v)))"
  obtain n where n: "Execute_tokens cf undef tokens s =
      report_errors cf (perform cf (AChipFlash path)) (tokens_read n tokens s)"
    using Execute_tokens_parse [of tokens cf undef s] assms(1) by auto
  note served = command_served [where a = "AChipFlash path" and cmd = "CFlash path" and out = "package (ID Flash) []",
      OF _ MakeClient_tokens_read [OF assms(2), of n tokens] assms(3) _ assms(6-8) _
      exec_Flash_ok [OF assms(9-12)] _ assms(13,14) _ assms(16-18)]
  have "perform cf (AChipFlash path) (tokens_read n tokens s) = (Inr (), (tokens_read n tokens s1)\<lparr>wire :=
      wire s1 @ request_bytes (CFlash path) @ farewell\<rparr>)"
    and "Hnd t = (Hnd v)\<lparr>Firmware := SetState Boot ((Firmware (Hnd v))\<lparr>OS := ?w\<rparr>)\<rparr>"
    using served assms(4,5,15)
    by (auto simp: parting_def fits_def tokens_read_def reader_at_def)
  with n show ?thesis
    by (simp add: report_errors_def catchM_def SetState_def start_child_def tokens_read_def reader_at_def)
qed

text \<open>A path with a semicolon: the shell gets two commands.\<close>

theorem flash_end_to_end_witness:
  "fst (Execute_tokens demo_config 0 [''mbctl'', ''chip'', ''flash'', ''fw.hex; reboot'']
     (demo_shell [demo_conn [RxData [145, 31]], demo_conn [RxData (package (ID Flash) [])]])) = Inr () \<and>
   cmds (OS (Firmware (Hnd (snd (HandlerRoutine arm (HandlerImpl arm) (replicate 256 0)
     (Accepted (demo_link (request_bytes (CFlash ''fw.hex; reboot'') @ farewell))) (demo_session (handler_at Boot None good_board))))))) =
   [PYTHON_RUN arm ''BootloaderFlash.py'' @ ''fw.hex; reboot'']"
proof -
  let ?path = "''fw.hex; reboot''" and ?h = "handler_at Boot None good_board"
  let ?bs = "request_bytes (CFlash ?path) @ farewell" and ?c = "demo_conn [RxData (package (ID Flash) [])]"
  let ?ch = "\<lparr>dup2_errno = None, execl_errno = None, script_exit = Exited 0\<rparr>"
  obtain s1 where s1: "MakeClient demo_config (demo_shell [demo_conn [RxData [145, 31]], ?c]) =
      (Inr (Client_new ?c (replicate 256 0)), s1)" using demo_MakeClient [of ?c] by blast
  have h: "\<not> hAcquired ?h" "State (Firmware ?h) = Boot" "procs (OS (Firmware ?h)) = Waited ?ch # replicate 7 (exits_with 0)"
    "cmds (OS (Firmware ?h)) = []" and ok: "child_ok False ?ch"
    by (simp_all add: handler_at_def fsm_at_def fsm_init_def good_board_def quiet_world_def exits_with_def numeral_eq_Suc
        child_ok_def ExecuteChildRoutine_def)
  note ex = exec_Flash_ok [OF h(1-3) ok, of arm ?path]
  have fit: "fits arm (enc_string ?path)" by (simp add: fits_def)
  have part: "parting (Inr [] :: byte list result) = farewell" by (simp add: parting_def)
  obtain t where t: "HandlerRoutine arm (HandlerImpl arm) (replicate 256 0) (Accepted (demo_link ?bs)) (demo_session ?h) = (Inr (), t)"
    "sent (Conn (Rpc t)) = package (ID Flash) []"
    using demo_served [OF _ ex, of "package (ID Flash) []"] fit part by (auto simp: fits_def)
  have rx: "rx_bytes (rx (Conn (Client_new ?c (replicate 256 0)))) = sent (Conn (Rpc t))"
    by (simp add: demo_client_facts t(2))
  have bs: "?bs \<noteq> []" by simp
  from flash_end_to_end [of _ "''mbctl''" ?path "[]" demo_config _ _ s1 arm "replicate 256 0" "demo_session ?h", OF refl s1
      demo_client_facts(1) _ fit _ demo_session_facts(1,2) _ _ _ ok demo_link_facts(3,4) demo_link_facts(1) [OF bs] _ t(1) rx, of _ 0]
    demo_link_facts(2) [of ?bs] bs fit h t(1)
  show ?thesis by (auto simp: demo_config_sel demo_session_facts)
qed



end
