(* ===== verification/Build_Checks.thy ===== *)
theory Build_Checks
  imports Daemon_Tools
begin

text \<open>
  The configuration of a build: \<open>CMakeLists.txt\<close>, which turns the variables of the surrounding project
  and two environment variables into compile definitions, and \<open>Src/CheckDefs.cpp\<close>, which checks them
  in the preprocessor.  The other theories take the results as parameters: the directory of the
  scripts (\<open>scripts_dir\<close>), the names of the environment variables (\<open>env_names\<close>), and whether the mock
  handler is built in (\<open>MakeHandler\<close>).

  A build has the macros as a map from names to their text.  The compiler reports every \<open>#error\<close> and every
  \<open>#pragma message\<close>, in order; a build passes when there is no error.
\<close>

section \<open>The checks\<close>

type_synonym macros = "string \<rightharpoonup> string"

datatype diagnostic = PragmaMessage string | HashError string

definition require :: "macros \<Rightarrow> string \<Rightarrow> string \<Rightarrow> diagnostic list" where
  "require m name msg = (if m name = None then [HashError msg] else [])"

definition announce :: "macros \<Rightarrow> string \<Rightarrow> string \<Rightarrow> string \<Rightarrow> diagnostic list" where
  "announce m name set_msg unset_msg = [PragmaMessage (if m name = None then unset_msg else set_msg)]"

text \<open>\<open>xstr(a)\<close>: the text of the macro's expansion; a name that is not a macro stands for itself.\<close>

definition xstr :: "macros \<Rightarrow> string \<Rightarrow> string" where
  "xstr m name = (case m name of None \<Rightarrow> name | Some txt \<Rightarrow> txt)"

definition show_def :: "macros \<Rightarrow> string \<Rightarrow> diagnostic list" where
  "show_def m name = [PragmaMessage (name @ '' = '' @ xstr m name)]"

definition CheckDefs :: "macros \<Rightarrow> diagnostic list" where
  "CheckDefs m =
     announce m ''PIGPIO_FOUND'' ''PIGPIO_FOUND is set, building normally''
       ''PIGPIO_FOUND is not set, building with dummy pigpio functions'' @
     require m ''DAEMON_SCRIPTS_DIR'' ''DAEMON_SCRIPTS_DIR is not set'' @
     require m ''DAEMON_CLI_EXECUTABLE'' ''DAEMON_CLI_EXECUTABLE is not set'' @
     require m ''DAEMON_PORT_ENV'' ''DAEMON_PORT_ENV is not defined'' @
     require m ''DAEMON_LOGFILE_ENV'' ''DAEMON_LOGFILE_ENV is not defined'' @
     require m ''DAEMON_BACKLOG_ENV'' ''DAEMON_BACKLOG_ENV is not defined'' @
     require m ''DAEMON_CONN_ATTEMPT_COUNT_ENV'' ''DAEMON_ATTEMPS_ENV is not defined'' @
     require m ''DAEMON_CONN_ATTEMPT_PERIOD_ENV'' ''DAEMON_ATTEMPS_ENV is not defined'' @
     announce m ''USE_SCRIPT_MOCKS'' ''USE_SCRIPT_MOCKS is set, building using script mocks''
       ''USE_SCRIPT_MOCKS is not set, building normally'' @
     announce m ''USE_HANDLER_MOCK'' ''USE_HANDLER_MOCK is set, building using handler mock''
       ''USE_HANDLER_MOCK is not set, building normally'' @
     show_def m ''DAEMON_SCRIPTS_DIR'' @
     show_def m ''DAEMON_CLI_EXECUTABLE'' @
     show_def m ''DAEMON_PORT_ENV'' @
     show_def m ''DAEMON_LOGFILE_ENV'' @
     show_def m ''DAEMON_BACKLOG_ENV''"

definition passes :: "macros \<Rightarrow> bool" where
  "passes m \<longleftrightarrow> list_all (\<lambda>d. case d of HashError msg \<Rightarrow> False | PragmaMessage msg \<Rightarrow> True) (CheckDefs m)"

section \<open>The definitions that the build makes\<close>

record cmake =
  cVars :: "string \<rightharpoonup> string"   \<comment> \<open>the variables of the surrounding project\<close>
  hardware_mocks :: bool            \<comment> \<open>\<open>ROKI_USE_HARDWARE_MOCKS\<close> is in the environment\<close>
  manager_mock :: bool              \<comment> \<open>\<open>ROKI_USE_MANAGER_MOCK\<close> is in the environment\<close>
  pigpio_lib :: bool                \<comment> \<open>\<open>find_library\<close> finds \<open>pigpio\<close>\<close>

definition asserted :: "string list" where
  "asserted = [''MODULE_NAME'', ''DAEMON_CLI_EXECUTABLE'', ''DAEMON_PORT_ENV'', ''DAEMON_LOGFILE_ENV'',
     ''DAEMON_BACKLOG_ENV'', ''DAEMON_CONN_ATTEMPT_COUNT_ENV'', ''DAEMON_CONN_ATTEMPT_PERIOD_ENV'']"

text \<open>\<open>ASSERT_VAR\<close> on each of them: the first that is missing ends the configuration.\<close>

fun ASSERT_VARS :: "(string \<rightharpoonup> string) \<Rightarrow> string list \<Rightarrow> string + unit" where
  "ASSERT_VARS vars [] = Inr ()"
| "ASSERT_VARS vars (v # vs) = (if vars v = None then Inl (v @ '' var is not set'') else ASSERT_VARS vars vs)"

definition USE_SCRIPT_MOCKS :: "cmake \<Rightarrow> bool" where
  "USE_SCRIPT_MOCKS k \<longleftrightarrow> hardware_mocks k \<or> manager_mock k"

definition USE_PIGPIO_MOCK :: "cmake \<Rightarrow> bool" where
  "USE_PIGPIO_MOCK k \<longleftrightarrow> hardware_mocks k"

definition DAEMON_SCRIPTS_DIR :: "cmake \<Rightarrow> string" where
  "DAEMON_SCRIPTS_DIR k = ''/usr/lib/'' @ the (cVars k ''MODULE_NAME'') @ ''/daemon/Scripts'' @
     (if USE_SCRIPT_MOCKS k then ''/Mocks/'' else ''/Impls/'')"

text \<open>
  \<open>add_compile_definitions\<close>, in the order of the file.  \<open>USE_HANDLER_MOCK\<close> is set to \<open>OFF\<close> in the file, so
  it is not among them.
\<close>

definition compile_definitions :: "cmake \<Rightarrow> string + macros" where
  "compile_definitions k = (case ASSERT_VARS (cVars k) asserted of
      Inl msg \<Rightarrow> Inl msg
    | Inr u \<Rightarrow>
        (let defs = [''DAEMON_SCRIPTS_DIR'' \<mapsto> DAEMON_SCRIPTS_DIR k,
           ''DAEMON_CLI_EXECUTABLE'' \<mapsto> the (cVars k ''DAEMON_CLI_EXECUTABLE''),
           ''DAEMON_PORT_ENV'' \<mapsto> the (cVars k ''DAEMON_PORT_ENV''),
           ''DAEMON_LOGFILE_ENV'' \<mapsto> the (cVars k ''DAEMON_LOGFILE_ENV''),
           ''DAEMON_BACKLOG_ENV'' \<mapsto> the (cVars k ''DAEMON_BACKLOG_ENV''),
           ''DAEMON_CONN_ATTEMPT_COUNT_ENV'' \<mapsto> the (cVars k ''DAEMON_CONN_ATTEMPT_COUNT_ENV''),
           ''DAEMON_CONN_ATTEMPT_PERIOD_ENV'' \<mapsto> the (cVars k ''DAEMON_CONN_ATTEMPT_PERIOD_ENV'')] in
         if USE_PIGPIO_MOCK k then Inr defs
         else if \<not> pigpio_lib k then Inl '' pigpio library was not found''
         else Inr (defs(''PIGPIO_FOUND'' \<mapsto> ''1''))))"

section \<open>What the checks establish\<close>

lemma check_sets:
  "set (require m name msg) = (if m name = None then {HashError msg} else {})"
  "set (announce m name s u) = {PragmaMessage (if m name = None then u else s)}"
  "set (show_def m name) = {PragmaMessage (name @ '' = '' @ xstr m name)}"
  by (simp_all add: require_def announce_def show_def_def)

lemma passes_iff:
  "passes m \<longleftrightarrow> {''DAEMON_SCRIPTS_DIR'', ''DAEMON_CLI_EXECUTABLE'', ''DAEMON_PORT_ENV'', ''DAEMON_LOGFILE_ENV'',
     ''DAEMON_BACKLOG_ENV'', ''DAEMON_CONN_ATTEMPT_COUNT_ENV'', ''DAEMON_CONN_ATTEMPT_PERIOD_ENV''} \<subseteq> dom m"
  unfolding passes_def list_all_iff CheckDefs_def by (simp add: check_sets ball_Un domIff)

lemma ASSERT_VARS_ok: "ASSERT_VARS vars vs = Inr () \<longleftrightarrow> set vs \<subseteq> dom vars"
  by (induction vs) auto

lemma compile_definitions_ok:
  assumes "compile_definitions k = Inr m"
  shows "set asserted \<subseteq> dom (cVars k)" and "m ''DAEMON_SCRIPTS_DIR'' = Some (DAEMON_SCRIPTS_DIR k)"
    and "v \<in> set (tl asserted) \<Longrightarrow> m v = Some (the (cVars k v))"
    and "m ''USE_SCRIPT_MOCKS'' = None" and "m ''USE_HANDLER_MOCK'' = None"
    and "m ''PIGPIO_FOUND'' \<noteq> None \<longleftrightarrow> \<not> USE_PIGPIO_MOCK k" and "USE_PIGPIO_MOCK k \<or> pigpio_lib k"
proof -
  show "set asserted \<subseteq> dom (cVars k)"
    using assms ASSERT_VARS_ok [of "cVars k" asserted] by (auto simp: compile_definitions_def split: sum.splits)
qed (use assms in \<open>auto simp: compile_definitions_def asserted_def Let_def split: sum.splits if_splits\<close>)

text \<open>
  A configuration that succeeds passes the checks; the daemon it builds answers with \<open>HandlerImpl\<close>, and its
  scripts are the mocks exactly when one of the two environment variables asks for them.
\<close>

lemma configured_build_passes:
  assumes "compile_definitions k = Inr m"
  shows "passes m" and "MakeHandler (m ''USE_HANDLER_MOCK'' \<noteq> None) pf = HandlerImpl pf"
    and "xstr m ''DAEMON_SCRIPTS_DIR'' = ''/usr/lib/'' @ the (cVars k ''MODULE_NAME'') @ ''/daemon/Scripts'' @
      (if hardware_mocks k \<or> manager_mock k then ''/Mocks/'' else ''/Impls/'')"
proof -
  note ok = compile_definitions_ok [OF assms]
  show "passes m" unfolding passes_iff using ok(2) ok(3) by (auto simp: asserted_def)
  show "MakeHandler (m ''USE_HANDLER_MOCK'' \<noteq> None) pf = HandlerImpl pf" using ok(5) by (simp add: MakeHandler_def)
qed (simp add: xstr_def compile_definitions_ok(2) [OF assms] DAEMON_SCRIPTS_DIR_def USE_SCRIPT_MOCKS_def)

text \<open>
  The report on the script mocks is always the same: the build decides about the mocks without the macro that the
  report looks at.
\<close>

lemma script_mocks_report:
  assumes "compile_definitions k = Inr m"
  shows "PragmaMessage ''USE_SCRIPT_MOCKS is not set, building normally'' \<in> set (CheckDefs m)"
    and "PragmaMessage ''USE_SCRIPT_MOCKS is set, building using script mocks'' \<notin> set (CheckDefs m)"
  using compile_definitions_ok(4) [OF assms] by (simp_all add: CheckDefs_def check_sets)

text \<open>Both happen: a build with mocks reports that it has none.\<close>

definition mock_build :: cmake where
  "mock_build = \<lparr>cVars = map_of (map (\<lambda>v. (v, v)) asserted), hardware_mocks = True, manager_mock = False, pigpio_lib = False\<rparr>"

lemma mock_build_report:
  "\<exists>m. compile_definitions mock_build = Inr m \<and>
     xstr m ''DAEMON_SCRIPTS_DIR'' = ''/usr/lib/MODULE_NAME/daemon/Scripts/Mocks/'' \<and>
     PragmaMessage ''USE_SCRIPT_MOCKS is not set, building normally'' \<in> set (CheckDefs m)"
proof -
  have "\<exists>m. compile_definitions mock_build = Inr m"
    by (simp add: compile_definitions_def mock_build_def asserted_def USE_PIGPIO_MOCK_def Let_def)
  then obtain m where m: "compile_definitions mock_build = Inr m" by blast
  have "xstr m ''DAEMON_SCRIPTS_DIR'' = ''/usr/lib/MODULE_NAME/daemon/Scripts/Mocks/''"
    by (simp add: configured_build_passes(3) [OF m] mock_build_def asserted_def)
  with m script_mocks_report(1) [OF m] show ?thesis by blast
qed

end
