(* ===== verification/Spec2Isabelle.thy ===== *)
theory Spec2Isabelle
  imports Session_Safety Handler_Threads Socket_Fds Daemon_System Build_Checks
begin

text \<open>
  A verification library for \<open>roki-mb-daemon\<close>, the daemon that owns a robot's motherboard (the
  "chip"), and for its command line tool.

  \<^bold>\<open>The program.\<close>  A client connects to the daemon's port; the dispatch thread (\<open>Src/Server.cpp\<close>)
  opens a socket of its own for this client, starts a handler thread on it and tells the client the
  port in a two-byte hello message.  The handler thread then serves requests: packages of a
  procedure id, a size and a payload (\<open>Src/RPC.cpp\<close>, \<open>Src/RPCDefs.cpp\<close>), each answered by one
  package or an error.  The requests go to one handler object (\<open>Src/HandlerImpl.cpp\<close>) that lets at
  most one client hold the serial port and drives the firmware's state machine
  (\<open>Src/FirmwareFSM.cpp\<close>), whose operations run Python scripts in child processes
  (\<open>Src/HwUtils.cpp\<close>).  \<open>Src/DaemonTools.cpp\<close> starts the daemon and connects to it, \<open>Src/CLI.cpp\<close> is
  the command line.

  \<^bold>\<open>The theories.\<close>
  \<^item> \<open>Mb_Prelude\<close>: C++ control flow as state-passing functions with faults (exceptions, failed
    assertions, undefined behaviour, calls that do not return, cancellation); preservation rules;
    reachability and the locales \<open>invariant_system\<close>, \<open>ranked_system\<close> and \<open>refined_system\<close>.
  \<^item> \<open>Cpp_Memory\<close>: \<open>char\<close> and its sign, strings, pointers into the package buffer, checked array
    access, little-endian integers, the exception classes of \<open>Helpers.hpp\<close>.
  \<^item> \<open>Sys_IO\<close>: \<open>recv\<close>, \<open>send\<close>, \<open>read\<close>, \<open>write\<close> as scripts of what the kernel does; the
    locales \<open>filling_loop\<close> and \<open>draining_loop\<close> of the loops around them, each interpreted by the three
    loops of the program (the transport, the hello message, the launch pipe).
  \<^item> \<open>RPC_Defs\<close> (\<open>RPCDefs.hpp\<close>, \<open>RPCDefs.cpp\<close>): the procedures, as an \<open>enum\<close>; the messages with their pointers; the locale
    \<open>message_codec\<close>, interpreted by the four message types.
  \<^item> \<open>RPC_Provider\<close> (\<open>RPC.hpp\<close>, \<open>RPC.cpp\<close>): the transport over a 256-byte buffer.
  \<^item> \<open>Hw_Utils\<close> (\<open>HwUtils.cpp\<close>, \<open>ClearPort\<close> of \<open>Helpers.cpp\<close>): child processes, the pipe, the port.
  \<^item> \<open>Firmware_FSM\<close> (\<open>FirmwareFSM.hpp\<close>, \<open>FirmwareFSM.cpp\<close>): states, \<open>DoTransition\<close>, the operations.
  \<^item> \<open>Handler_Impl\<close> (\<open>HandlerImpl.cpp\<close>, \<open>HandlerMock.cpp\<close>): the requests one at a time; the abstract
    port arbiter \<open>arb_step\<close>, the locale \<open>port_arbiter\<close> and its interpretation by the handler.
  \<^item> \<open>Server_Session\<close> (\<open>GenericHandler\<close>, \<open>DispatchPackage\<close>, \<open>HandlerRoutine\<close> of \<open>Server.cpp\<close>):
    dispatch and the request loop, which terminates because every iteration consumes input.
  \<^item> \<open>Session_Spec\<close>, \<open>Session_Transcript\<close>: the server's behaviour on values (\<open>exec\<close>, \<open>reply\<close>,
    \<open>exec_all\<close>, \<open>sigterms\<close>) and the proof that the request loop implements it on byte streams.
  \<^item> \<open>Session_Safety\<close>: what a session keeps for every client, with the locale \<open>kept_handler\<close> of the
    interface \<open>IHandler\<close>, interpreted by both handlers.
  \<^item> \<open>Handler_Threads\<close>: the handler under concurrent requests, a step per section between two
    releases of a mutex; mutual exclusion, exclusive grants, and the race the code leaves open.
  \<^item> \<open>Server_Threads\<close> (\<open>Run\<close>, \<open>DispatchRoutine\<close>, \<open>CleanupRoutine\<close>, the bookkeeping of
    \<open>HandlerRoutine\<close>): the registry of threads, joining, the hello.
  \<^item> \<open>Server_Shutdown\<close>: the same threads after \<open>SIGTERM\<close>; a measure of the work that is left, the locale
    \<open>ranked_system\<close> of the prelude interpreted with it, and the states in which nothing changes.
  \<^item> \<open>Server_Signals\<close> (the start of \<open>Run\<close>, \<open>BlockAllSignals\<close>): masks, handlers and pending signals of the
    threads; a refinement of \<open>Server_Threads\<close>, by the locale \<open>refined_system\<close> of the prelude.
  \<^item> \<open>Net_Address\<close> (\<open>IpToString\<close>, \<open>IpFromString\<close> of \<open>Helpers.cpp\<close>, \<open>ClientSocket\<close>): addresses, their
    text, the byte order of ports.
  \<^item> \<open>Rpc_Client\<close> (\<open>Client.hpp\<close>, \<open>Client.cpp\<close>, \<open>HelloMessage\<close>, \<open>ClientSocket\<close>): calls; the locale
    \<open>rpc_call\<close> over two codecs, interpreted by the shapes of procedures.
  \<^item> \<open>Daemon_Tools\<close> (\<open>DaemonTools.cpp\<close>, \<open>ServerSocket\<close>): launch report, parameters, connecting.
  \<^item> \<open>Socket_Fds\<close> (\<open>UniqueValue\<close>, \<open>DescriptorWrapper\<close> of \<open>Helpers.hpp\<close>, the functions of \<open>Socket.cpp\<close> that
    create descriptors): wrapper objects at addresses, who owns which descriptor, what is closed.
  \<^item> \<open>Daemon_CLI\<close> (\<open>CLI.hpp\<close>, \<open>CLI.cpp\<close>, \<open>CLIMain.cpp\<close>): keywords, tokens, commands, messages; the grammar.
  \<^item> \<open>Daemon_System\<close>: the commands that make one call, run against the session that serves them: both ends of
    the connection, from the tokens to the script, and from \<open>daemon stop\<close> to the end of the main thread.
  \<^item> \<open>Build_Checks\<close> (\<open>CMakeLists.txt\<close>, \<open>CheckDefs.cpp\<close>): the compile definitions and their checks.
  \<^item> This theory: what spans a client and the server.

  \<^bold>\<open>What is shown.\<close>  The transport delivers every message that fits, in any segmentation and between
  platforms with different \<open>char\<close>; a session's bytes are those of its specification, and
  no bytes of a client break the order of the daemon; a request takes
  one step of the port arbiter and the port's use is exclusive, one request at a time and under every
  interleaving of the client threads; the firmware's state machine refuses what its state does not
  allow and never sticks; one script runs at a time; no thread is lost or joined twice, a client
  reaches a handler of its own, no signal ends a thread that serves, a request to shut down reaches the
  main thread, and a shutdown comes to an end; every descriptor in a wrapper has one
  owner and is closed once; the launch report, the hello message, the calls and the text of an
  address arrive; the command line follows its grammar, and its calls do to the daemon, and get back from it, what the specification of
  a session says; a configured build passes its checks.  The
  theorems also state where the code does not do what it means to: an error is sent twice and
  desynchronizes the client, long error texts overflow the buffer or end the daemon, an unknown
  procedure id is answered with the request's own bytes, a reset can overtake a grant, the
  dispatch can stall on a client, a shutdown can hang, pass the main thread by or leave a thread, and long script output overruns a local array.

  \<^bold>\<open>Bounds.\<close>  No fuel is used: the loops over system calls recurse on the script of what the kernel
  does, and a call past the end of its script is the fault \<open>Block\<close>.  Sizes are kept at their width:
  \<open>fits\<close> says which payloads the eight-bit size and the 256-byte buffer keep, and \<open>char_limit\<close> which
  values a \<open>char\<close> keeps (127 or 255).  The counters \<open>CurrentId\<close> and \<open>CurrentPort\<close> are natural
  numbers; a port is the counter modulo 65536.

  \<^bold>\<open>Not modelled.\<close>  Log output and its cancellation points; \<open>SetSigMask\<close>, which nothing calls; signals
  of the command line, and those the daemon ignores when it is started; the unsynchronized reads of
  \<open>DoShutdown\<close> and of the map in \<open>Run\<close>; spurious wake-ups; the alignment of the integers that the messages are read and written as; the Python
  scripts, whose exit status and output are arguments; the GPIO stub, which nothing calls; the targets of
  \<open>CMakeLists.txt\<close>.
\<close>

section \<open>A client and the server\<close>

text \<open>What one iteration of the request loop has put on the wire.\<close>

definition answer :: "platform \<Rightarrow> handler session \<Rightarrow> byte list" where
  "answer pf s = drop (length (sent (Conn (Rpc s)))) (sent (Conn (Rpc (snd (loop_body pf (HandlerImpl pf) s)))))"

lemma answer_reply:
  assumes "ready s" and "fits pf (payload_of c)" and "exec pf c (Hnd s) = (q, h)" and "reply pf c q = Some out"
    and "rx_bytes (rx (Conn (Rpc s))) = request_bytes c @ rest" and "tx_open (tx (Conn (Rpc s))) 2"
  shows "answer pf s = out \<and> Hnd (snd (loop_body pf (HandlerImpl pf) s)) = h"
proof -
  have "tx_open (tx (Conn (Rpc s))) (Suc (Suc 0))" using assms(6) by (simp add: numeral_2_eq_2)
  from loop_body_command [OF assms(1-5) this] show ?thesis by (auto simp: answer_def)
qed

text \<open>A server session and a client for the examples.\<close>

definition demo_server :: "handler \<Rightarrow> byte list \<Rightarrow> handler session" where
  "demo_server h request = (demo_session h)\<lparr>Rpc := fresh_rpc [RxData request] (replicate 3 (TxAccept 256))\<rparr>"

lemma demo_server_simps [simp]:
  "ready (demo_server h request)" "Hnd (demo_server h request) = h"
  "Conn (Rpc (demo_server h request)) = \<lparr>rx = [RxData request], tx = replicate 3 (TxAccept 256), sent = []\<rparr>"
  by (simp_all add: demo_server_def ready_def demo_session_def)

text \<open>
  C7: \<open>GetStatus\<close> from end to end.  When the bytes of a client's \<open>GetStatus\<close> call reach the server and
  the server's answer reaches the client, the call returns the description of the chip's state, the
  acquisition flag, and the user's name and PID exactly as the handler has them, and the handler is
  unchanged; the two ends may disagree about the sign of \<open>char\<close> within the sizes both keep.
\<close>

theorem status_end_to_end:
  assumes "rpc_wf r" and "ErrCode r = Error_ID" and "tx_after 2 (tx (Conn r)) = Some t"
    and "ready s" and "rx_bytes (rx (Conn (Rpc s))) = request_bytes CGetStatus @ rest"
    and "tx_open (tx (Conn (Rpc s))) 2"
    and "v = (GetStateDescription (Firmware (Hnd s)), hAcquired (Hnd s), hUserName (Hnd s), hUserPid (Hnd s))"
    and "fits pf (enc_status v)" and "fits pf' (enc_status v)"
    and "rx_bytes (rx (Conn r)) = answer pf s @ rest'"
  shows "\<exists>m r'. Call_GetStatus pf' r = (Inr m, r') \<and> view_status pf' (Buffer r') m = Inr v \<and>
    sent (Conn r') = sent (Conn r) @ request_bytes CGetStatus \<and>
    Hnd (snd (loop_body pf (HandlerImpl pf) s)) = Hnd s"
proof -
  have ex: "exec pf CGetStatus (Hnd s) = (Inr (enc_status v), Hnd s)" using assms(7) by simp
  have "answer pf s = package (ID GetStatus) (enc_status v) \<and> Hnd (snd (loop_body pf (HandlerImpl pf) s)) = Hnd s"
    using assms(8) by (intro answer_reply [OF assms(4) _ ex _ assms(5,6)]) (simp_all add: fits_def)
  with status_call.call_ok [of r pf' "()" v t GetStatus rest' "ID GetStatus"] assms(1,2,3,9,10)
  show ?thesis
    by (auto simp: Call_GetStatus_def fits_def enc_empty_def request_bytes_def numeral_2_eq_2)
qed

theorem status_end_to_end_witness:
  "\<exists>m r'. Call_GetStatus x86 (fresh_rpc [RxData (answer arm (demo_server demo_handler (request_bytes CGetStatus)))]
       [TxAccept 256]) = (Inr m, r') \<and>
     view_status x86 (Buffer r') m = Inr (''Running'', False, '''', - 1)"
proof -
  let ?s = "demo_server demo_handler (request_bytes CGetStatus)"
  let ?v = "(''Running'', False, '''', - 1 :: 32 word)"
  have v: "?v = (GetStateDescription (Firmware (Hnd ?s)), hAcquired (Hnd ?s), hUserName (Hnd ?s), hUserPid (Hnd ?s))"
    by (simp add: demo_handler_def handler_at_def fsm_at_def GetStateDescription_def)
  have rx: "rx_bytes (rx (Conn (Rpc ?s))) = request_bytes CGetStatus @ []"
    by (simp add: request_bytes_def package_def)
  have tx: "tx_open (tx (Conn (Rpc ?s))) 2" by (auto simp: tx_open_def)
  have ex: "exec arm CGetStatus (Hnd ?s) = (Inr (enc_status ?v), Hnd ?s)" using v by simp
  have "answer arm ?s = package (ID GetStatus) (enc_status ?v)"
    using answer_reply [OF _ _ ex _ rx tx] by (simp add: fits_def)
  then have "rx_bytes [RxData (answer arm ?s)] = answer arm ?s @ []" by (simp add: package_def)
  with status_end_to_end [OF _ _ _ _ rx tx v, of "fresh_rpc [RxData (answer arm ?s)] [TxAccept 256]" "[]" arm x86 "[]"]
  show ?thesis by (auto simp: fits_def)
qed

text \<open>
  C6: \<open>Connect\<close> from end to end.  When the firmware runs, the port is free and can be cleared, a
  client's \<open>Connect\<close> call returns the path of the board's port, and the server's handler then holds
  the port for exactly this user.
\<close>

theorem connect_end_to_end:
  assumes "rpc_wf r" and "ErrCode r = Error_ID" and "tx_after (length (enc_user u) + 2) (tx (Conn r)) = Some t"
    and "fits pf (enc_user u)" and "fits pf' (enc_user u)"
    and "fits pf (enc_string (MbPort (Firmware (Hnd s))))" and "fits pf' (enc_string (MbPort (Firmware (Hnd s))))"
    and "ready s" and "rx_bytes (rx (Conn (Rpc s))) = request_bytes (CConnect u) @ rest"
    and "tx_open (tx (Conn (Rpc s))) 2"
    and "\<not> hAcquired (Hnd s)" and "State (Firmware (Hnd s)) = Running"
    and "ClearPort pf (MbPort (Firmware (Hnd s))) (OS (Firmware (Hnd s))) = (Inr (), w)"
    and "rx_bytes (rx (Conn r)) = answer pf s @ rest'"
  shows "\<exists>m r'. Call_Connect pf' u r = (Inr m, r') \<and> ToCxxStr pf' (Buffer r') m = Inr (MbPort (Firmware (Hnd s))) \<and>
    sent (Conn r') = sent (Conn r) @ request_bytes (CConnect u) \<and>
    held_by (Hnd (snd (loop_body pf (HandlerImpl pf) s))) = Some u"
proof -
  let ?port = "MbPort (Firmware (Hnd s))"
  let ?h = "(Hnd s)\<lparr>Firmware := (Firmware (Hnd s))\<lparr>OS := w\<rparr>, hUserName := fst u, hUserPid := snd u, hAcquired := True\<rparr>"
  have "with_os (ClearPort pf ?port) (Hnd s) = (Inr (), (Hnd s)\<lparr>Firmware := (Firmware (Hnd s))\<lparr>OS := w\<rparr>\<rparr>)"
    by (rule with_os_apply) (rule assms(13))
  then have ex: "exec pf (CConnect u) (Hnd s) = (Inr (enc_string ?port), ?h)"
    using assms(11,12) by (simp add: thenM_def bindM_def)
  have "answer pf s = package (ID Connect) (enc_string ?port) \<and> Hnd (snd (loop_body pf (HandlerImpl pf) s)) = ?h"
    using assms(4,6) by (intro answer_reply [OF assms(8) _ ex _ assms(9,10)]) simp_all
  with connect_call.call_ok [of r pf' u ?port t Connect rest' "ID Connect"] assms(1,2,3,5,7,14)
  show ?thesis by (auto simp: Call_Connect_def request_bytes_def held_by_def)
qed

theorem connect_end_to_end_witness:
  "\<exists>m r'. Call_Connect x86 (''me'', 7) (fresh_rpc [RxData (answer arm (demo_server
        (demo_handler\<lparr>Firmware := (Firmware demo_handler)\<lparr>MbPort := ''/dev/ttyS0''\<rparr>\<rparr>) (request_bytes (CConnect (''me'', 7)))))]
       [TxAccept 256]) = (Inr m, r') \<and> ToCxxStr x86 (Buffer r') m = Inr ''/dev/ttyS0''"
proof -
  let ?h = "demo_handler\<lparr>Firmware := (Firmware demo_handler)\<lparr>MbPort := ''/dev/ttyS0''\<rparr>\<rparr>"
  let ?s = "demo_server ?h (request_bytes (CConnect (''me'', 7)))"
  have rx: "rx_bytes (rx (Conn (Rpc ?s))) = request_bytes (CConnect (''me'', 7)) @ []"
    by (simp add: request_bytes_def package_def)
  have tx: "tx_open (tx (Conn (Rpc ?s))) 2" by (auto simp: tx_open_def)
  have st: "\<not> hAcquired (Hnd ?s)" "State (Firmware (Hnd ?s)) = Running" "MbPort (Firmware (Hnd ?s)) = ''/dev/ttyS0''"
    by (simp_all add: demo_handler_def) (simp_all add: handler_at_def fsm_at_def)
  have "opens (OS (Firmware ?h)) = None # [None]" "reads (OS (Firmware ?h)) = map RxData [[1, 2, 3]] @ RxData [] # []"
    by (simp_all add: demo_handler_def handler_at_def fsm_at_def fsm_init_def good_board_def quiet_world_def)
  from ClearPort_ok [OF this(1) _ this(2)] obtain w where w:
    "ClearPort arm (MbPort (Firmware (Hnd ?s))) (OS (Firmware (Hnd ?s))) = (Inr (), w)" by simp
  have "with_os (ClearPort arm (MbPort (Firmware (Hnd ?s)))) (Hnd ?s) =
      (Inr (), (Hnd ?s)\<lparr>Firmware := (Firmware (Hnd ?s))\<lparr>OS := w\<rparr>\<rparr>)" by (rule with_os_apply) (rule w)
  then have "\<exists>h. exec arm (CConnect (''me'', 7)) (Hnd ?s) = (Inr (enc_string ''/dev/ttyS0''), h)"
    using st by (simp add: thenM_def bindM_def)
  then have "answer arm ?s = package (ID Connect) (enc_string ''/dev/ttyS0'')"
    using answer_reply [OF _ _ _ _ rx tx] by (auto simp: fits_def)
  then have "rx_bytes [RxData (answer arm ?s)] = answer arm ?s @ []" by (simp add: package_def)
  with connect_end_to_end [OF _ _ _ _ _ _ _ _ rx tx st(1,2) w,
      of "fresh_rpc [RxData (answer arm ?s)] [TxAccept 256]" "[]" x86 "[]"] st(3)
  show ?thesis by (auto simp: fits_def)
qed


section \<open>From the hello to the handler\<close>


definition greeted :: "server_event list" where
  "greeted = [Dispatches, Accepts 0, Inserts, Handler 0, Handler 0, Dispatches]"


text \<open>
  Any client can shut the daemon down, not only the command line.  A session in which the client asks for a shutdown answers all its
  commands and ends normally, and the \<open>SIGTERM\<close>s that it raises for the main thread can be delivered in
  every state of the running daemon: then \<open>DoShutdown\<close> is set, and the main thread acts on it unless the
  signal fell between its test and \<open>pause\<close>.
\<close>

lemma shutdown_request_reaches_main:
  assumes "length garbage = 256" and "naps s = []" and "undisturbed s"
    and "exec_all pf cs (Hnd s) = Some (out, h)" and "CShutdown \<in> set cs"
    and "rx_bytes (rx c) = concat (map request_bytes cs) @ package Error_ID bye @ rest"
    and "length bye \<le> 255" and "tx_open (tx c) (2 * length cs)"
    and "reach (process_new m) process_step p" and "boot p = BRun" and "cleanup (srv p) \<noteq> CCrashed"
  shows "\<exists>t u. HandlerRoutine pf (HandlerImpl pf) garbage (Accepted c) s = (Inr (), t) \<and>
    sent (Conn (Rpc t)) = sent c @ out \<and>
    run_schedule process_next (replicate (kills t - kills s) (RaiseAt Main SIGTERM) @ [Deliver Main SIGTERM]) p = Some u \<and>
    DoShutdown (srv u) \<and> (main_thread (srv p) \<noteq> MFalling \<longrightarrow> main_hears (srv u))"
proof -
  obtain v where v: "HandlerRoutine pf (HandlerImpl pf) garbage (Accepted c) s = RequestLoop pf (HandlerImpl pf) v"
    "ready v" "undisturbed v = undisturbed s" "Hnd v = Hnd s" "kills v = kills s" "Conn (Rpc v) = c"
    using HandlerRoutine_accepted [OF assms(1,2), of pf "HandlerImpl pf" c] by blast
  then obtain t where t: "RequestLoop pf (HandlerImpl pf) v = (Inr (), t)" "sent (Conn (Rpc t)) = sent c @ out"
    "kills t = kills s + sum_list (map sigterms cs)"
    using RequestLoop_farewell [OF v(2), of pf cs out h bye rest] assms(3,4,6-8) by auto
  have "0 < sum_list (map sigterms cs)"
    using assms(5) member_le_sum_list [of 1 "map sigterms cs"] by (force simp: sigterms_def)
  with t(3) have "0 < kills t - kills s" by simp
  from shutdown_delivered [OF process_reach_inv [OF assms(9)] assms(10,11) this] obtain u where
    "run_schedule process_next (replicate (kills t - kills s) (RaiseAt Main SIGTERM) @ [Deliver Main SIGTERM]) p = Some u"
    "srv u = take_signal (srv p)" by blast
  with v(1) t show ?thesis by (auto simp: take_signal_def main_hears_def)
qed

end
